theory Spec2Isabelle
  imports Main "HOL-Library.Sublist"
begin

section \<open>Strings\<close>

text \<open>
  A JavaScript string is modelled as a \<^typ>\<open>string\<close>: a list of characters whose codes
  range over 0..255. The helper functions below follow the ECMAScript definitions
  restricted to that range.
\<close>

definition isWhiteSpace :: "char \<Rightarrow> bool" where
  \<comment> \<open>the regular-expression class \<open>\s\<close>, also what \<open>String.prototype.trim\<close> strips:
     TAB, LF, VT, FF, CR, SPACE and NBSP\<close>
  "isWhiteSpace c \<longleftrightarrow> of_char c \<in> {9, 10, 11, 12, 13, 32, 160 :: nat}"

definition trim :: "string \<Rightarrow> string" where
  "trim s = rev (dropWhile isWhiteSpace (rev (dropWhile isWhiteSpace s)))"

definition toLowerChar :: "char \<Rightarrow> char" where
  \<comment> \<open>\<open>A\<close>..\<open>Z\<close> to \<open>a\<close>..\<open>z\<close>; every other character below 128 is its own lower case\<close>
  "toLowerChar c =
     (if 65 \<le> (of_char c :: nat) \<and> (of_char c :: nat) \<le> 90
      then char_of (of_char c + 32 :: nat) else c)"

definition toLowerCase :: "string \<Rightarrow> string" where
  "toLowerCase s = map toLowerChar s"

fun str_includes :: "string \<Rightarrow> string \<Rightarrow> bool" where
  \<comment> \<open>\<open>s.includes(sub)\<close>\<close>
  "str_includes [] sub = (sub = [])"
| "str_includes (c # cs) sub = (prefix sub (c # cs) \<or> str_includes cs sub)"

fun splitFirst :: "string \<Rightarrow> string \<Rightarrow> (string \<times> string) option" where
  \<comment> \<open>the text before and after the first occurrence of \<open>pat\<close> in a string\<close>
  "splitFirst pat [] = (if pat = [] then Some ([], []) else None)"
| "splitFirst pat (c # cs) =
     (if prefix pat (c # cs) then Some ([], drop (length pat) (c # cs))
      else (case splitFirst pat cs of
              None \<Rightarrow> None
            | Some (pre, post) \<Rightarrow> Some (c # pre, post)))"

fun getSubstitution :: "string \<Rightarrow> string \<Rightarrow> string \<Rightarrow> string \<Rightarrow> string" where
  \<comment> \<open>ECMAScript GetSubstitution for a pattern without capture groups: in the replacement
     text \<open>$$\<close> is a dollar sign, \<open>$&\<close> the matched text, \<open>$`\<close> the text before the
     match, \<open>$'\<close> the text after it; any other \<open>$\<close> stands for itself\<close>
  "getSubstitution matched pre post [] = []"
| "getSubstitution matched pre post [c] = [c]"
| "getSubstitution matched pre post (c # d # r) =
     (if c = CHR ''$'' \<and> d = CHR ''$'' then CHR ''$'' # getSubstitution matched pre post r
      else if c = CHR ''$'' \<and> d = CHR ''&'' then matched @ getSubstitution matched pre post r
      else if c = CHR ''$'' \<and> d = CHR 0x60 then pre @ getSubstitution matched pre post r
      else if c = CHR ''$'' \<and> d = CHR 0x27 then post @ getSubstitution matched pre post r
      else c # getSubstitution matched pre post (d # r))"

definition replaceFirst :: "string \<Rightarrow> string \<Rightarrow> string \<Rightarrow> string" where
  \<comment> \<open>\<open>s.replace(pat, repl)\<close> with a string pattern: only the first occurrence\<close>
  "replaceFirst s pat repl =
     (case splitFirst pat s of
        None \<Rightarrow> s
      | Some (pre, post) \<Rightarrow> pre @ getSubstitution pat pre post repl @ post)"

definition hexDigit :: "nat \<Rightarrow> char" where
  "hexDigit n = (if n < 10 then char_of (48 + n) else char_of (55 + n))"

definition percentByte :: "nat \<Rightarrow> string" where
  "percentByte b = [CHR ''%'', hexDigit (b div 16), hexDigit (b mod 16)]"

definition uriUnreserved :: "char \<Rightarrow> bool" where
  \<comment> \<open>the characters \<open>encodeURIComponent\<close> leaves alone\<close>
  "uriUnreserved c \<longleftrightarrow>
     (let n = (of_char c :: nat) in
        (65 \<le> n \<and> n \<le> 90) \<or> (97 \<le> n \<and> n \<le> 122) \<or> (48 \<le> n \<and> n \<le> 57)
        \<or> c \<in> set ''-_.!~*()'' \<or> c = CHR 0x27)"

definition encodeChar :: "char \<Rightarrow> string" where
  \<comment> \<open>a reserved character is escaped as the bytes of its UTF-8 encoding: one byte below
     128, two bytes from 128 to 255\<close>
  "encodeChar c =
     (let n = (of_char c :: nat) in
        if uriUnreserved c then [c]
        else if n < 128 then percentByte n
        else percentByte (192 + n div 64) @ percentByte (128 + n mod 64))"

definition encodeURIComponent :: "string \<Rightarrow> string" where
  "encodeURIComponent s = concat (map encodeChar s)"

function showNat :: "nat \<Rightarrow> string" where
  "showNat n = (if n < 10 then [char_of (48 + n)]
                else showNat (n div 10) @ [char_of (48 + n mod 10)])"
  by pat_completeness auto
termination
  by (relation "measure id") auto

definition showInt :: "int \<Rightarrow> string" where
  \<comment> \<open>a number in a template literal\<close>
  "showInt i = (if i < 0 then CHR ''-'' # showNat (nat (- i)) else showNat (nat i))"

section \<open>Template rendering (server/services/email.ts)\<close>

text \<open>
  \<open>processTemplate\<close> is \<open>content.replace(/\{\{([^}]+)\}\}/g, f)\<close>.
  \<open>matchPlaceholder s\<close> is the match of the regular expression anchored at the start of
  \<open>s\<close>: two opening braces, the longest non-empty run of characters other than a closing
  brace, and two closing braces. It returns the captured name and the text after the match.
  The variables object is a plain object: its own properties are a map from names to
  strings, as its type \<open>Record<string, string>\<close> says, and a name that is not an own
  property is looked up in \<open>Object.prototype\<close>.
\<close>

fun matchPlaceholder :: "string \<Rightarrow> (string \<times> string) option" where
  "matchPlaceholder (a # b # s) =
     (if a = CHR ''{'' \<and> b = CHR ''{'' then
        (case dropWhile (\<lambda>c. c \<noteq> CHR ''}'') s of
           x # y # rest \<Rightarrow>
             if takeWhile (\<lambda>c. c \<noteq> CHR ''}'') s \<noteq> [] \<and> y = CHR ''}''
             then Some (takeWhile (\<lambda>c. c \<noteq> CHR ''}'') s, rest) else None
         | _ \<Rightarrow> None)
      else None)"
| "matchPlaceholder _ = None"

definition placeholder :: "string \<Rightarrow> string" where
  \<comment> \<open>the matched text for a captured name\<close>
  "placeholder name = ''{{'' @ name @ ''}}''"

definition nativeFunction :: "string \<Rightarrow> string" where
  \<comment> \<open>a built-in function converted to a string, as Node prints it\<close>
  "nativeFunction name = ''function '' @ name @ ''() { [native code] }''"

definition objectPrototype :: "string \<rightharpoonup> string" where
  \<comment> \<open>the members of \<open>Object.prototype\<close>, each as the string that \<open>replace\<close> makes
     of it when the callback returns it: the built-in functions, and the accessor
     \<open>__proto__\<close>, which gives \<open>Object.prototype\<close> itself\<close>
  "objectPrototype =
     map_of
       ([(''constructor'', nativeFunction ''Object''), (''__proto__'', ''[object Object]'')] @
        map (\<lambda>name. (name, nativeFunction name))
          [''__defineGetter__'', ''__defineSetter__'', ''hasOwnProperty'', ''__lookupGetter__'',
           ''__lookupSetter__'', ''isPrototypeOf'', ''propertyIsEnumerable'', ''toString'',
           ''valueOf'', ''toLocaleString''])"

definition getProperty :: "(string \<rightharpoonup> string) \<Rightarrow> string \<Rightarrow> string option" where
  \<comment> \<open>\<open>variables[key]\<close>: the own property, else the inherited member\<close>
  "getProperty variables key =
     (case variables key of Some v \<Rightarrow> Some v | None \<Rightarrow> objectPrototype key)"

definition replacement :: "(string \<rightharpoonup> string) \<Rightarrow> string \<Rightarrow> string" where
  \<comment> \<open>the callback: \<open>variables[variable.trim()] || match\<close>; the empty string is falsy\<close>
  "replacement variables name =
     (case getProperty variables (trim name) of
        None \<Rightarrow> placeholder name
      | Some v \<Rightarrow> if v = [] then placeholder name else v)"

lemma matchPlaceholder_shorter:
  "matchPlaceholder s = Some (name, rest) \<Longrightarrow> length rest < length s"
proof (cases s rule: matchPlaceholder.cases)
  case (1 a b t)
  assume m: "matchPlaceholder s = Some (name, rest)"
  have "length (dropWhile (\<lambda>c. c \<noteq> CHR ''}'') t) \<le> length t"
    by (rule length_dropWhile_le)
  with m 1 show ?thesis
    by (auto split: if_splits list.splits)
qed simp_all

function processTemplate :: "string \<Rightarrow> (string \<rightharpoonup> string) \<Rightarrow> string" where
  "processTemplate [] variables = []"
| "processTemplate (c # cs) variables =
     (case matchPlaceholder (c # cs) of
        Some (name, rest) \<Rightarrow> replacement variables name @ processTemplate rest variables
      | None \<Rightarrow> c # processTemplate cs variables)"
  by pat_completeness auto
termination
  by (relation "measure (\<lambda>(s, _). length s)") (auto dest: matchPlaceholder_shorter)

definition plainValues :: "(string \<rightharpoonup> string) \<Rightarrow> bool" where
  \<comment> \<open>no variable value contains a brace\<close>
  "plainValues variables \<longleftrightarrow>
     (\<forall>k v. variables k = Some v \<longrightarrow> CHR ''{'' \<notin> set v \<and> CHR ''}'' \<notin> set v)"


fun loneBraces :: "string \<Rightarrow> bool" where
  \<comment> \<open>a text in which no opening brace is followed by an opening brace or ends the text\<close>
  "loneBraces [] = True"
| "loneBraces [c] = (c \<noteq> CHR ''{'')"
| "loneBraces (a # b # s) = (\<not> (a = CHR ''{'' \<and> b = CHR ''{'') \<and> loneBraces (b # s))"

section \<open>Tracking injection (sendEmail in server/utils/smtp-router.ts)\<close>

definition hostName :: "string option \<Rightarrow> string" where
  \<comment> \<open>\<open>process.env.HOST || 'localhost'\<close>\<close>
  "hostName env = (case env of None \<Rightarrow> ''localhost'' | Some h \<Rightarrow> if h = [] then ''localhost'' else h)"

definition trackingPixel :: "string \<Rightarrow> string \<Rightarrow> string" where
  \<open>trackingPixel host trackingId =
     ''<img src="http://'' @ host @ '':5000/api/tracking/open/'' @ trackingId @
     ''" alt="" width="1" height="1" style="display:none" class="tracking-pixel" />''\<close>

definition injectPixel :: "string \<Rightarrow> string \<Rightarrow> string \<Rightarrow> string" where
  \<comment> \<open>"Add tracking pixel to HTML content if it doesn't already have one"\<close>
  "injectPixel host trackingId html =
     (if \<not> str_includes html ''tracking-pixel''
      then replaceFirst html ''</body>'' (trackingPixel host trackingId @ ''</body>'')
      else html)"

definition trackingUrl :: "string \<Rightarrow> string \<Rightarrow> string \<Rightarrow> string" where
  "trackingUrl host trackingId url =
     ''http://'' @ host @ '':5000/api/tracking/click/'' @ trackingId @ ''?url='' @
     encodeURIComponent url"

text \<open>
  \<open>matchLink s\<close> is the match of \<open>/<a\s+href="([^"]+)"/gi\<close> anchored at the start of
  \<open>s\<close>; it returns the captured url and the text after the match.
\<close>

fun matchLink :: "string \<Rightarrow> (string \<times> string) option" where
  \<open>matchLink (a # b # s) =
     (if a = CHR ''<'' \<and> toLowerChar b = CHR ''a'' \<and> takeWhile isWhiteSpace s \<noteq> []
         \<and> toLowerCase (take 6 (dropWhile isWhiteSpace s)) = ''href="''
      then
        (let r = drop 6 (dropWhile isWhiteSpace s);
             url = takeWhile (\<lambda>c. c \<noteq> CHR 0x22) r
         in case dropWhile (\<lambda>c. c \<noteq> CHR 0x22) r of
              [] \<Rightarrow> None
            | q # rest \<Rightarrow> if url \<noteq> [] then Some (url, rest) else None)
      else None)\<close>
| "matchLink _ = None"

lemma matchLink_shorter:
  "matchLink s = Some (url, rest) \<Longrightarrow> length rest < length s"
proof (cases s rule: matchLink.cases)
  case (1 a b t)
  assume m: "matchLink s = Some (url, rest)"
  have "length (dropWhile (\<lambda>c. c \<noteq> CHR 0x22) (drop 6 (dropWhile isWhiteSpace t)))
          \<le> length (drop 6 (dropWhile isWhiteSpace t))"
    by (rule length_dropWhile_le)
  moreover have "length (drop 6 (dropWhile isWhiteSpace t)) \<le> length t"
    using length_dropWhile_le [of isWhiteSpace t] by simp
  ultimately show ?thesis
    using m 1 by (auto simp: Let_def split: if_splits list.splits)
qed simp_all

function rewriteLinks :: "string \<Rightarrow> string \<Rightarrow> string \<Rightarrow> string" where
  \<comment> \<open>"Add tracking to all links": the replace with the global flag\<close>
  "rewriteLinks host trackingId [] = []"
| \<open>rewriteLinks host trackingId (c # cs) =
     (case matchLink (c # cs) of
        Some (url, rest) \<Rightarrow>
          ''<a href="'' @ trackingUrl host trackingId url @ ''"'' @
          rewriteLinks host trackingId rest
      | None \<Rightarrow> c # rewriteLinks host trackingId cs)\<close>
  by pat_completeness auto
termination
  by (relation "measure (\<lambda>(_, _, s). length s)") (auto dest: matchLink_shorter)

definition injectTracking :: "string \<Rightarrow> string \<Rightarrow> string \<Rightarrow> string" where
  \<comment> \<open>the body handed to the transport\<close>
  "injectTracking host trackingId html =
     rewriteLinks host trackingId (injectPixel host trackingId html)"

section \<open>The data store and the outside world (shared/schema.ts, server/storage.ts)\<close>

text \<open>
  Rows carry the columns that the send pipeline, the router and the tracking service read
  or write. Timestamps are milliseconds. The connection settings of a provider (host, port,
  credentials) only reach the transport library and are left out.
\<close>

record blocked_region =
  br_id :: int
  br_regionCode :: string
  br_reason :: string
  br_isActive :: bool

record template =
  tp_id :: int
  tp_htmlContent :: string
  tp_textContent :: string

record smtp_provider =
  sp_id :: int
  sp_region :: string
  sp_isActive :: bool
  sp_priority :: int
  sp_maxSendsPerHour :: int

record email =
  em_id :: int
  em_to :: string
  em_from :: string
  em_subject :: string
  em_templateId :: "int option"
  em_smtpProviderId :: "int option"
  em_status :: string
  em_region :: string
  em_sentAt :: int
  em_deliveredAt :: "int option"
  em_openedAt :: "int option"
  em_clickedAt :: "int option"
  em_trackingId :: string

record tracking_event =
  te_emailId :: int
  te_trackingId :: string
  te_eventType :: string

record system_metric =
  sm_metricName :: string
  sm_metricValue :: string
  sm_region :: string

datatype tracking_type = Opened | Clicked

text \<open>
  Every call that leaves the process (a query of the data store, a verification or a
  submission on the transport) is an \<open>event\<close>, appended to the \<open>trace\<close> of the world
  when the call is made. The call number is the length of the trace; \<open>faults\<close> tells for
  each call number whether that call throws, and with which message, and \<open>clock\<close> is the
  time read at that call number. Both are arbitrary, so a theorem about all worlds covers
  every pattern of failures.
\<close>

datatype event =
    SelectBlockedRegion string
  | SelectTemplate int
  | SelectProvidersByRegion string
  | SelectProviders
  | InsertEmail string
  | UpdateEmailStatus int string
  | SelectEmailByTrackingId string
  | UpdateEmailTracking string tracking_type
  | InsertTrackingEvent int string string
  | InsertMetric string string string
  | VerifyTransport int
  | SendMail int string string

record world =
  blockedRegions :: "blocked_region list"
  templates :: "template list"
  smtpProviders :: "smtp_provider list"
  emails :: "email list"
  emailTrackingEvents :: "tracking_event list"
  systemMetrics :: "system_metric list"
  connections :: "int \<rightharpoonup> int"
  envHost :: "string option"
  trace :: "event list"
  faults :: "nat \<Rightarrow> string option"
  clock :: "nat \<Rightarrow> int"

text \<open>
  An asynchronous function is a function of the world that returns the new world and either
  the value it resolves to (\<open>Inr\<close>) or the message of the error it throws (\<open>Inl\<close>).
\<close>

type_synonym 'a task = "world \<Rightarrow> (string + 'a) \<times> world"

definition resolve :: "'a \<Rightarrow> 'a task" where
  "resolve x w = (Inr x, w)"

definition throw :: "string \<Rightarrow> 'a task" where
  "throw e w = (Inl e, w)"

definition await :: "'a task \<Rightarrow> ('a \<Rightarrow> 'b task) \<Rightarrow> 'b task" where
  \<comment> \<open>\<open>const x = await m; ...\<close>: an error of \<open>m\<close> ends the rest\<close>
  "await m f w = (case m w of (Inl e, w') \<Rightarrow> (Inl e, w') | (Inr x, w') \<Rightarrow> f x w')"

definition catch :: "'a task \<Rightarrow> (string \<Rightarrow> 'a task) \<Rightarrow> 'a task" where
  \<comment> \<open>\<open>try { m } catch (error) { h }\<close>\<close>
  "catch m h w = (case m w of (Inl e, w') \<Rightarrow> h e w' | (Inr x, w') \<Rightarrow> (Inr x, w'))"

definition detached :: "'a task \<Rightarrow> unit task" where
  \<comment> \<open>\<open>m.catch(console.error)\<close> without await: the outcome is dropped\<close>
  "detached m w = (Inr (), snd (m w))"

definition external :: "event \<Rightarrow> unit task" where
  "external ev w =
     ((case faults w (length (trace w)) of None \<Rightarrow> Inr () | Some e \<Rightarrow> Inl e),
      w\<lparr>trace := trace w @ [ev]\<rparr>)"

definition now :: "world \<Rightarrow> int" where
  \<comment> \<open>\<open>new Date()\<close>\<close>
  "now w = clock w (length (trace w))"

subsection \<open>DatabaseStorage\<close>

definition getBlockedRegionByCode :: "string \<Rightarrow> blocked_region option task" where
  "getBlockedRegionByCode regionCode =
     await (external (SelectBlockedRegion regionCode)) (\<lambda>_ w.
       (Inr (find (\<lambda>r. br_regionCode r = regionCode \<and> br_isActive r) (blockedRegions w)), w))"

definition getTemplate :: "int \<Rightarrow> template option task" where
  "getTemplate ident =
     await (external (SelectTemplate ident)) (\<lambda>_ w.
       (Inr (find (\<lambda>t. tp_id t = ident) (templates w)), w))"

definition getSmtpProviders :: "smtp_provider list task" where
  "getSmtpProviders =
     await (external SelectProviders) (\<lambda>_ w. (Inr (smtpProviders w), w))"

definition regionProviders :: "string \<Rightarrow> smtp_provider list \<Rightarrow> smtp_provider list" where
  \<comment> \<open>the active providers of a region ordered by ascending priority; rows of equal
     priority stay in table order\<close>
  "regionProviders region rows =
     sort_key sp_priority (filter (\<lambda>p. sp_region p = region \<and> sp_isActive p) rows)"

definition getSmtpProvidersByRegion :: "string \<Rightarrow> smtp_provider list task" where
  "getSmtpProvidersByRegion region =
     await (external (SelectProvidersByRegion region)) (\<lambda>_ w.
       (Inr (regionProviders region (smtpProviders w)), w))"

definition getEmailByTrackingId :: "string \<Rightarrow> email option task" where
  "getEmailByTrackingId trackingId =
     await (external (SelectEmailByTrackingId trackingId)) (\<lambda>_ w.
       (Inr (find (\<lambda>e. em_trackingId e = trackingId) (emails w)), w))"

definition nextId :: "int list \<Rightarrow> int" where
  \<comment> \<open>a serial key: greater than every key in the table\<close>
  "nextId ids = foldr (\<lambda>i m. max (i + 1) m) ids 1"

record insert_email =
  ie_to :: string
  ie_from :: string
  ie_subject :: string
  ie_templateId :: "int option"
  ie_smtpProviderId :: "int option"
  ie_region :: string
  ie_trackingId :: string

definition createEmail :: "insert_email \<Rightarrow> email task" where
  \<comment> \<open>the row is stored with status \<open>sent\<close>; the column \<open>tracking_id\<close> is unique, so a
     second row with the same tracking id is refused by the data store\<close>
  "createEmail insertEmail =
     await (external (InsertEmail (ie_trackingId insertEmail))) (\<lambda>_ w.
       if \<exists>e \<in> set (emails w). em_trackingId e = ie_trackingId insertEmail
       then (Inl ''duplicate key value violates unique constraint'', w)
       else
         (let row = \<lparr>em_id = nextId (map em_id (emails w)),
                     em_to = ie_to insertEmail,
                     em_from = ie_from insertEmail,
                     em_subject = ie_subject insertEmail,
                     em_templateId = ie_templateId insertEmail,
                     em_smtpProviderId = ie_smtpProviderId insertEmail,
                     em_status = ''sent'',
                     em_region = ie_region insertEmail,
                     em_sentAt = now w,
                     em_deliveredAt = None,
                     em_openedAt = None,
                     em_clickedAt = None,
                     em_trackingId = ie_trackingId insertEmail\<rparr>
          in (Inr row, w\<lparr>emails := emails w @ [row]\<rparr>)))"

definition updateEmailStatus :: "int \<Rightarrow> string \<Rightarrow> email option task" where
  "updateEmailStatus ident status w0 =
     (let stamp = now w0 in
      await (external (UpdateEmailStatus ident status)) (\<lambda>_ w.
        (let rows = map (\<lambda>e. if em_id e = ident
                               then e\<lparr>em_status := status,
                                      em_deliveredAt := (if status = ''delivered'' then Some stamp
                                                         else em_deliveredAt e)\<rparr>
                               else e) (emails w)
         in (Inr (find (\<lambda>e. em_id e = ident) rows), w\<lparr>emails := rows\<rparr>))) w0)"

definition logTrackingEvent :: "int \<Rightarrow> string \<Rightarrow> string \<Rightarrow> unit task" where
  "logTrackingEvent emailId trackingId eventType =
     await (external (InsertTrackingEvent emailId trackingId eventType)) (\<lambda>_ w.
       (Inr (), w\<lparr>emailTrackingEvents := emailTrackingEvents w @
                     [\<lparr>te_emailId = emailId, te_trackingId = trackingId,
                       te_eventType = eventType\<rparr>]\<rparr>))"

definition trackingTypeName :: "tracking_type \<Rightarrow> string" where
  "trackingTypeName ty = (case ty of Opened \<Rightarrow> ''opened'' | Clicked \<Rightarrow> ''clicked'')"

definition untracked :: "tracking_type \<Rightarrow> email \<Rightarrow> bool" where
  \<comment> \<open>\<open>isNull(type === 'opened' ? emails.openedAt : emails.clickedAt)\<close>\<close>
  "untracked ty e = (case ty of Opened \<Rightarrow> em_openedAt e = None | Clicked \<Rightarrow> em_clickedAt e = None)"

definition stampTracking :: "tracking_type \<Rightarrow> int \<Rightarrow> email \<Rightarrow> email" where
  "stampTracking ty stamp e =
     (case ty of Opened \<Rightarrow> e\<lparr>em_openedAt := Some stamp\<rparr>
               | Clicked \<Rightarrow> e\<lparr>em_clickedAt := Some stamp\<rparr>)"

definition updateEmailTracking :: "string \<Rightarrow> tracking_type \<Rightarrow> email option task" where
  \<comment> \<open>the update touches only rows whose timestamp is still null; the tracking event is
     logged when a row was updated\<close>
  "updateEmailTracking trackingId ty w0 =
     (let stamp = now w0 in
      await (external (UpdateEmailTracking trackingId ty)) (\<lambda>_ w.
        (let hit = (\<lambda>e. em_trackingId e = trackingId \<and> untracked ty e);
             updatedEmail = map_option (stampTracking ty stamp) (find hit (emails w));
             w' = w\<lparr>emails := map (\<lambda>e. if hit e then stampTracking ty stamp e else e) (emails w)\<rparr>
         in case updatedEmail of
              None \<Rightarrow> (Inr None, w')
            | Some u \<Rightarrow>
                await (logTrackingEvent (em_id u) trackingId (trackingTypeName ty))
                  (\<lambda>_. resolve (Some u)) w')) w0)"

definition createSystemMetric :: "system_metric \<Rightarrow> system_metric task" where
  "createSystemMetric metric =
     await (external (InsertMetric (sm_metricName metric) (sm_metricValue metric)
                        (sm_region metric))) (\<lambda>_ w.
       (Inr metric, w\<lparr>systemMetrics := systemMetrics w @ [metric]\<rparr>))"

subsection \<open>A sample world\<close>

definition sampleWorld :: world where
  \<comment> \<open>the default data of \<open>initDefaultData\<close>: three providers, three blocked regions and
     the welcome template; no email yet, no call fails, and the clock ticks once per call\<close>
  "sampleWorld =
     \<lparr>blockedRegions =
        [\<lparr>br_id = 1, br_regionCode = ''CU'', br_reason = ''US Embargo'', br_isActive = True\<rparr>,
         \<lparr>br_id = 2, br_regionCode = ''IR'', br_reason = ''US Sanctions'', br_isActive = True\<rparr>,
         \<lparr>br_id = 3, br_regionCode = ''KP'', br_reason = ''US Sanctions'', br_isActive = True\<rparr>],
      templates =
        [\<lparr>tp_id = 1,
          tp_htmlContent = ''<h1>Welcome!</h1><p>Thank you for signing up. {{name}}</p>'',
          tp_textContent = ''Welcome! Thank you for signing up, {{name}}''\<rparr>],
      smtpProviders =
        [\<lparr>sp_id = 1, sp_region = ''NA'', sp_isActive = True, sp_priority = 1,
          sp_maxSendsPerHour = 5000\<rparr>,
         \<lparr>sp_id = 2, sp_region = ''EU'', sp_isActive = True, sp_priority = 1,
          sp_maxSendsPerHour = 3000\<rparr>,
         \<lparr>sp_id = 3, sp_region = ''APAC'', sp_isActive = True, sp_priority = 1,
          sp_maxSendsPerHour = 2000\<rparr>],
      emails = [],
      emailTrackingEvents = [],
      systemMetrics = [],
      connections = Map.empty,
      envHost = None,
      trace = [],
      faults = (\<lambda>_. None),
      clock = (\<lambda>n. int n)\<rparr>"

section \<open>Provider selection and delivery (server/utils/smtp-router.ts)\<close>

definition getConnection :: "smtp_provider \<Rightarrow> int task" where
  \<comment> \<open>the pool maps a provider id to the time its session was last used; the session
     handle is the provider id. A cached session is reused; a new one is verified (which
     may throw) before it is cached\<close>
  "getConnection provider w =
     (if sp_id provider \<in> dom (connections w)
      then (Inr (sp_id provider), w\<lparr>connections := (connections w)(sp_id provider \<mapsto> now w)\<rparr>)
      else await (external (VerifyTransport (sp_id provider))) (\<lambda>_ w'.
             (Inr (sp_id provider),
              w'\<lparr>connections := (connections w')(sp_id provider \<mapsto> now w')\<rparr>)) w)"

definition recipientRegion :: "string \<Rightarrow> string" where
  \<comment> \<open>the region tag of the address, \<open>NA\<close> by default\<close>
  "recipientRegion recipientEmail =
     (if str_includes recipientEmail ''+eu@'' then ''EU''
      else if str_includes recipientEmail ''+apac@'' then ''APAC''
      else ''NA'')"

definition firstOf :: "'a list \<Rightarrow> 'a option" where
  \<comment> \<open>\<open>xs[0]\<close>, undefined on the empty array\<close>
  "firstOf xs = (case xs of [] \<Rightarrow> None | x # _ \<Rightarrow> Some x)"

definition getSmtpProvider :: "string \<Rightarrow> int \<Rightarrow> smtp_provider option task" where
  "getSmtpProvider recipientEmail volume =
     await (getSmtpProvidersByRegion (recipientRegion recipientEmail)) (\<lambda>providers.
       if providers = [] then
         await getSmtpProviders (\<lambda>allProviders.
           (let activeProviders = filter sp_isActive allProviders in
            if activeProviders = [] then resolve None
            else resolve (firstOf (sort_key sp_priority activeProviders))))
       else if volume > 1000 then
         (let highCapacityProviders = filter (\<lambda>p. sp_maxSendsPerHour p \<ge> volume) providers in
          if highCapacityProviders \<noteq> [] then resolve (firstOf highCapacityProviders)
          else resolve (firstOf (sort_key (\<lambda>p. - sp_maxSendsPerHour p) providers)))
       else resolve (firstOf providers))"

record send_options =
  so_to :: string
  so_from :: string
  so_subject :: string
  so_html :: string
  so_text :: string
  so_trackingId :: string
  so_volume :: "int option"

record send_outcome =
  out_success :: bool
  out_providerId :: "int option"
  out_error :: "string option"

definition sendEmail :: "send_options \<Rightarrow> send_outcome task" where
  \<comment> \<open>the message id that the transport returns is not modelled\<close>
  "sendEmail options =
     catch
       (let volume = (case so_volume options of None \<Rightarrow> 1 | Some v \<Rightarrow> if v = 0 then 1 else v) in
        await (getSmtpProvider (so_to options) volume) (\<lambda>found.
          case found of
            None \<Rightarrow> throw ''No suitable SMTP provider found''
          | Some provider \<Rightarrow>
              await (getConnection provider) (\<lambda>transporter w.
                (let html = injectTracking (hostName (envHost w)) (so_trackingId options)
                              (so_html options)
                 in await (external (SendMail transporter (so_to options) html)) (\<lambda>_.
                      await (detached (createSystemMetric
                               \<lparr>sm_metricName = ''email_sent'', sm_metricValue = ''success'',
                                sm_region = sp_region provider\<rparr>)) (\<lambda>_.
                        resolve \<lparr>out_success = True, out_providerId = Some (sp_id provider),
                                 out_error = None\<rparr>))) w)))
       (\<lambda>error.
          await (detached (createSystemMetric
                   \<lparr>sm_metricName = ''email_sent'', sm_metricValue = ''failure'',
                    sm_region = ''Global''\<rparr>)) (\<lambda>_.
            resolve \<lparr>out_success = False, out_providerId = None, out_error = Some error\<rparr>))"

section \<open>The send pipeline (server/services/email.ts)\<close>

record send_request =
  rq_to :: string
  rq_from :: string
  rq_subject :: string
  rq_html :: "string option"
  rq_text :: "string option"
  rq_templateId :: "int option"
  rq_variables :: "(string \<rightharpoonup> string) option"
  rq_region :: string
  rq_volume :: int

record email_compliance =
  ec_allowed :: bool
  ec_reason :: "string option"

definition countryMarkers :: "(string \<times> string) list" where
  "countryMarkers =
     [(''cu'', ''CU''), (''ir'', ''IR''), (''kp'', ''KP''), (''sy'', ''SY''), (''ua'', ''UA'')]"

definition markerMatches :: "string \<Rightarrow> string \<Rightarrow> bool" where
  "markerMatches to marker \<longleftrightarrow>
     str_includes (toLowerCase to) (''+'' @ marker @ ''@'') \<or>
     str_includes (toLowerCase to) (''.'' @ marker)"

fun complianceLoop :: "(string \<times> string) list \<Rightarrow> string \<Rightarrow> email_compliance task" where
  \<comment> \<open>the \<open>for\<close> loop over the markers\<close>
  "complianceLoop [] to w = (Inr \<lparr>ec_allowed = True, ec_reason = None\<rparr>, w)"
| "complianceLoop ((marker, code) # rest) to w =
     (if markerMatches to marker then
        (case getBlockedRegionByCode code w of
           (Inl e, w') \<Rightarrow> (Inl e, w')
         | (Inr (Some blockedRegion), w') \<Rightarrow>
             (Inr \<lparr>ec_allowed = False, ec_reason = Some (br_reason blockedRegion)\<rparr>, w')
         | (Inr None, w') \<Rightarrow> complianceLoop rest to w')
      else complianceLoop rest to w)"

definition checkRegionCompliance_email :: "string \<Rightarrow> string \<Rightarrow> email_compliance task" where
  \<comment> \<open>\<open>checkRegionCompliance\<close> of email.ts\<close>
  "checkRegionCompliance_email to region = complianceLoop countryMarkers to"

record send_result =
  sr_success :: bool
  sr_emailId :: "int option"
  sr_trackingId :: "string option"
  sr_message :: string
  sr_error :: "string option"

definition templateIdOf :: "send_request \<Rightarrow> int option" where
  \<comment> \<open>\<open>request.templateId || null\<close>: an absent id and the id 0 are falsy\<close>
  "templateIdOf request =
     (case rq_templateId request of None \<Rightarrow> None | Some i \<Rightarrow> if i = 0 then None else Some i)"

definition orElse :: "string \<Rightarrow> string \<Rightarrow> string" where
  \<comment> \<open>\<open>a || b\<close> on strings\<close>
  "orElse a b = (if a = [] then b else a)"

definition emailData :: "send_request \<Rightarrow> string \<Rightarrow> smtp_provider \<Rightarrow> insert_email" where
  \<comment> \<open>the \<open>emailData\<close> of \<open>processEmailSend\<close>\<close>
  "emailData request trackingId provider =
     \<lparr>ie_to = rq_to request,
      ie_from = rq_from request,
      ie_subject = rq_subject request,
      ie_templateId = templateIdOf request,
      ie_smtpProviderId = Some (sp_id provider),
      ie_region = orElse (rq_region request) (sp_region provider),
      ie_trackingId = trackingId\<rparr>"

definition sendOptions :: "send_request \<Rightarrow> string \<Rightarrow> string \<Rightarrow> string \<Rightarrow> send_options" where
  \<comment> \<open>the argument of \<open>sendEmail\<close> in \<open>processEmailSend\<close>\<close>
  "sendOptions request trackingId html text =
     \<lparr>so_to = rq_to request,
      so_from = rq_from request,
      so_subject = rq_subject request,
      so_html = orElse html ''<p>This email does not have HTML content</p>'',
      so_text = orElse text ''This email does not have text content'',
      so_trackingId = trackingId,
      so_volume = Some (rq_volume request)\<rparr>"

definition recordAndSend ::
  "send_request \<Rightarrow> string \<Rightarrow> string \<Rightarrow> string \<Rightarrow> smtp_provider \<Rightarrow> send_result task" where
  \<comment> \<open>the part of \<open>processEmailSend\<close> from "Record the email in the database" on\<close>
  "recordAndSend request trackingId html text provider =
     await (createEmail (emailData request trackingId provider)) (\<lambda>emailRecord.
       await (sendEmail (sendOptions request trackingId html text)) (\<lambda>sendResult.
         if \<not> out_success sendResult then
           await (updateEmailStatus (em_id emailRecord) ''failed'') (\<lambda>_.
             resolve \<lparr>sr_success = False,
                      sr_emailId = Some (em_id emailRecord),
                      sr_trackingId = Some trackingId,
                      sr_message = ''Failed to send email'',
                      sr_error = out_error sendResult\<rparr>)
         else
           await (updateEmailStatus (em_id emailRecord) ''sent'') (\<lambda>_.
             resolve \<lparr>sr_success = True,
                      sr_emailId = Some (em_id emailRecord),
                      sr_trackingId = Some trackingId,
                      sr_message = ''Email sent successfully'',
                      sr_error = None\<rparr>)))"

definition selectAndSend ::
  "send_request \<Rightarrow> string \<Rightarrow> string \<Rightarrow> string \<Rightarrow> send_result task" where
  \<comment> \<open>the part of \<open>processEmailSend\<close> from the content check on\<close>
  "selectAndSend request trackingId html text =
     (if html = [] \<and> text = [] then
        resolve \<lparr>sr_success = False, sr_emailId = None, sr_trackingId = None,
                 sr_message = ''Email content is required'',
                 sr_error = Some ''Either html, text, or templateId must be provided''\<rparr>
      else
        await (getSmtpProvider (rq_to request)
                 (if rq_volume request = 0 then 1 else rq_volume request)) (\<lambda>found.
          case found of
            None \<Rightarrow>
              resolve \<lparr>sr_success = False, sr_emailId = None, sr_trackingId = None,
                       sr_message = ''No suitable SMTP provider available'',
                       sr_error = Some ''Failed to find an active SMTP provider for this request''\<rparr>
          | Some provider \<Rightarrow> recordAndSend request trackingId html text provider))"

definition renderAndSend :: "send_request \<Rightarrow> string \<Rightarrow> send_result task" where
  \<comment> \<open>the part of \<open>processEmailSend\<close> after the compliance check\<close>
  "renderAndSend request trackingId =
     (case templateIdOf request of
        Some templateId \<Rightarrow>
          await (getTemplate templateId) (\<lambda>found.
            case found of
              None \<Rightarrow>
                resolve \<lparr>sr_success = False, sr_emailId = None, sr_trackingId = None,
                         sr_message = ''Template not found'',
                         sr_error = Some (''Template with ID '' @ showInt templateId @
                                            '' does not exist'')\<rparr>
            | Some t \<Rightarrow>
                (let variables = (case rq_variables request of None \<Rightarrow> Map.empty | Some v \<Rightarrow> v)
                 in selectAndSend request trackingId
                      (processTemplate (tp_htmlContent t) variables)
                      (processTemplate (tp_textContent t) variables)))
      | None \<Rightarrow>
          selectAndSend request trackingId
            (case rq_html request of None \<Rightarrow> [] | Some h \<Rightarrow> h)
            (case rq_text request of None \<Rightarrow> [] | Some t \<Rightarrow> t))"

definition processEmailSend :: "send_request \<Rightarrow> string \<Rightarrow> send_result task" where
  \<comment> \<open>\<open>trackingId\<close> is the value that \<open>uuidv4()\<close> returns in this call\<close>
  "processEmailSend request trackingId =
     catch
       (await (checkRegionCompliance_email (rq_to request) (orElse (rq_region request) ''Global''))
          (\<lambda>compliance.
             if \<not> ec_allowed compliance then
               resolve \<lparr>sr_success = False, sr_emailId = None, sr_trackingId = None,
                        sr_message = ''Recipient is in a blocked region'',
                        sr_error = Some (''Compliance violation: '' @
                                           (case ec_reason compliance of None \<Rightarrow> ''undefined''
                                            | Some r \<Rightarrow> r))\<rparr>
             else renderAndSend request trackingId))
       (\<lambda>error.
          resolve \<lparr>sr_success = False, sr_emailId = None, sr_trackingId = None,
                   sr_message = ''Failed to process email request'',
                   sr_error = Some error\<rparr>)"

section \<open>The tracking service and its endpoints (server/services/tracking.ts, server/routes.ts)\<close>

record open_result =
  op_success :: bool
  op_alreadyTracked :: bool
  op_emailId :: "int option"

definition trackEmailOpen :: "string \<Rightarrow> open_result task" where
  "trackEmailOpen trackingId =
     catch
       (await (getEmailByTrackingId trackingId) (\<lambda>found.
          case found of
            None \<Rightarrow> resolve \<lparr>op_success = False, op_alreadyTracked = False, op_emailId = None\<rparr>
          | Some email \<Rightarrow>
              if em_openedAt email \<noteq> None then
                resolve \<lparr>op_success = True, op_alreadyTracked = True,
                         op_emailId = Some (em_id email)\<rparr>
              else
                await (updateEmailTracking trackingId Opened) (\<lambda>updatedEmail.
                  case updatedEmail of
                    None \<Rightarrow>
                      resolve \<lparr>op_success = False, op_alreadyTracked = False, op_emailId = None\<rparr>
                  | Some _ \<Rightarrow>
                      await (createSystemMetric
                               \<lparr>sm_metricName = ''email_opened'', sm_metricValue = ''1'',
                                sm_region = em_region email\<rparr>) (\<lambda>_.
                        resolve \<lparr>op_success = True, op_alreadyTracked = False,
                                 op_emailId = Some (em_id email)\<rparr>))))
       (\<lambda>error. resolve \<lparr>op_success = False, op_alreadyTracked = False, op_emailId = None\<rparr>)"

record click_result =
  ck_success :: bool
  ck_alreadyTracked :: bool
  ck_emailId :: "int option"
  ck_redirectUrl :: string

definition trackEmailClick :: "string \<Rightarrow> string \<Rightarrow> click_result task" where
  "trackEmailClick trackingId url =
     catch
       (await (getEmailByTrackingId trackingId) (\<lambda>found.
          (let redirectUrl = orElse url ''/'' in
           case found of
             None \<Rightarrow>
               resolve \<lparr>ck_success = False, ck_alreadyTracked = False, ck_emailId = None,
                        ck_redirectUrl = redirectUrl\<rparr>
           | Some email \<Rightarrow>
               await (updateEmailTracking trackingId Clicked) (\<lambda>updatedEmail.
                 (let alreadyTracked = (em_clickedAt email \<noteq> None) in
                  await (if updatedEmail \<noteq> None \<and> \<not> alreadyTracked
                         then await (createSystemMetric
                                       \<lparr>sm_metricName = ''email_clicked'', sm_metricValue = ''1'',
                                        sm_region = em_region email\<rparr>) (\<lambda>_. resolve ())
                         else resolve ()) (\<lambda>_.
                    resolve \<lparr>ck_success = (updatedEmail \<noteq> None),
                             ck_alreadyTracked = alreadyTracked,
                             ck_emailId = Some (em_id email),
                             ck_redirectUrl = redirectUrl\<rparr>))))))
       (\<lambda>error.
          resolve \<lparr>ck_success = False, ck_alreadyTracked = False, ck_emailId = None,
                   ck_redirectUrl = orElse url ''/''\<rparr>)"

datatype http_response = BadRequest | TooManyRequests | Pixel | Redirect string
  \<comment> \<open>the answers 400 and 429, the tracking pixel, and the redirect to a url\<close>

definition openHandler :: "string \<Rightarrow> world \<Rightarrow> http_response \<times> world" where
  \<comment> \<open>the handler of \<open>GET /api/tracking/open/:trackingId\<close>\<close>
  "openHandler trackingId w =
     (if trackingId = [] then (BadRequest, w)
      else (case trackEmailOpen trackingId w of
              (Inr _, w') \<Rightarrow> (Pixel, w')
            | (Inl _, w') \<Rightarrow> (Pixel, w')))"

definition clickHandler :: "string \<Rightarrow> string option \<Rightarrow> world \<Rightarrow> http_response \<times> world" where
  \<comment> \<open>the handler of \<open>GET /api/tracking/click/:trackingId\<close>; the query parameter
     \<open>url\<close> is \<open>Some\<close> string, or \<open>None\<close> when it is missing or not a string\<close>
  "clickHandler trackingId url w =
     (case url of
        None \<Rightarrow> (BadRequest, w)
      | Some u \<Rightarrow>
          if trackingId = [] \<or> u = [] then (BadRequest, w)
          else (case trackEmailClick trackingId u w of
                  (Inr result, w') \<Rightarrow> (Redirect (ck_redirectUrl result), w')
                | (Inl _, w') \<Rightarrow> (Redirect u, w')))"

section \<open>The compliance service (server/services/compliance.ts)\<close>

record compliance_result =
  cr_allowed :: bool
  cr_region :: "(string \<times> string) option"

definition checkRegionCompliance_compliance :: "string \<Rightarrow> compliance_result task" where
  \<comment> \<open>\<open>checkRegionCompliance\<close> of compliance.ts; \<open>cr_region\<close> is the pair of code and reason\<close>
  "checkRegionCompliance_compliance regionCode =
     catch
       (await (getBlockedRegionByCode regionCode) (\<lambda>found.
          case found of
            Some blockedRegion \<Rightarrow>
              if br_isActive blockedRegion then
                resolve \<lparr>cr_allowed = False,
                         cr_region = Some (br_regionCode blockedRegion, br_reason blockedRegion)\<rparr>
              else resolve \<lparr>cr_allowed = True, cr_region = None\<rparr>
          | None \<Rightarrow> resolve \<lparr>cr_allowed = True, cr_region = None\<rparr>))
       (\<lambda>error.
          resolve \<lparr>cr_allowed = False,
                   cr_region = Some (regionCode, ''System error during compliance check'')\<rparr>)"

section \<open>The rate limiter (server/middleware/rate-limiter.ts)\<close>

record rate_entry =
  re_count :: int
  re_resetTime :: int

type_synonym rate_store = "string \<rightharpoonup> rate_entry"

definition increment :: "int \<Rightarrow> string \<Rightarrow> int \<Rightarrow> rate_store \<Rightarrow> rate_entry \<times> rate_store" where
  \<comment> \<open>\<open>RateLimitStore.increment\<close>; the first argument is \<open>Date.now()\<close>\<close>
  "increment time key windowMs store =
     (case store key of
        None \<Rightarrow>
          (\<lparr>re_count = 1, re_resetTime = time + windowMs\<rparr>,
           store(key \<mapsto> \<lparr>re_count = 1, re_resetTime = time + windowMs\<rparr>))
      | Some entry \<Rightarrow>
          if re_resetTime entry < time then
            (\<lparr>re_count = 1, re_resetTime = time + windowMs\<rparr>,
             store(key \<mapsto> \<lparr>re_count = 1, re_resetTime = time + windowMs\<rparr>))
          else
            (entry\<lparr>re_count := re_count entry + 1\<rparr>,
             store(key \<mapsto> entry\<lparr>re_count := re_count entry + 1\<rparr>)))"

definition cleanup :: "int \<Rightarrow> rate_store \<Rightarrow> rate_store" where
  \<comment> \<open>the periodic sweep of the constructor: expired entries are deleted\<close>
  "cleanup time store =
     (\<lambda>key. case store key of
               None \<Rightarrow> None
             | Some entry \<Rightarrow> if re_resetTime entry < time then None else Some entry)"

record rate_limit_rule =
  rl_windowMs :: int
  rl_max :: int
  rl_message :: string

datatype limiter_type = Api | Email | Tracking

definition limiterName :: "limiter_type \<Rightarrow> string" where
  "limiterName ty = (case ty of Api \<Rightarrow> ''api'' | Email \<Rightarrow> ''email'' | Tracking \<Rightarrow> ''tracking'')"

definition defaultRules :: "limiter_type \<Rightarrow> rate_limit_rule" where
  "defaultRules ty =
     (case ty of
        Api \<Rightarrow> \<lparr>rl_windowMs = 60 * 1000, rl_max = 100,
                 rl_message = ''Too many requests from this IP, please try again after a minute''\<rparr>
      | Email \<Rightarrow> \<lparr>rl_windowMs = 60 * 60 * 1000, rl_max = 1000,
                   rl_message = ''Email sending rate limit exceeded''\<rparr>
      | Tracking \<Rightarrow> \<lparr>rl_windowMs = 60 * 1000, rl_max = 500,
                      rl_message = ''Too many tracking events''\<rparr>)"

record limiter_response =
  lr_limit :: int
  lr_remaining :: int
  lr_reset :: int
  lr_status :: "nat option"
  lr_message :: "string option"

definition limiterKey :: "limiter_type \<Rightarrow> string \<Rightarrow> string" where
  "limiterKey ty ip = limiterName ty @ '':'' @ ip"

definition createRateLimiter ::
  "limiter_type \<Rightarrow> string \<Rightarrow> int \<Rightarrow> rate_store \<times> world \<Rightarrow> limiter_response \<times> rate_store \<times> world" where
  \<comment> \<open>the middleware for a request from \<open>ip\<close> at \<open>time\<close>: \<open>lr_status = Some 429\<close> is the
     rejection, \<open>None\<close> is the call of \<open>next()\<close>; the three headers are always set\<close>
  "createRateLimiter ty ip time sw =
     (let rule = defaultRules ty;
          (entry, store') = increment time (limiterKey ty ip) (rl_windowMs rule) (fst sw);
          w' = snd (detached (createSystemMetric
                      \<lparr>sm_metricName = ''rate_limit_'' @ limiterName ty,
                       sm_metricValue = showInt (re_count entry),
                       sm_region = ''Global''\<rparr>) (snd sw));
          headers = \<lparr>lr_limit = rl_max rule,
                     lr_remaining = max 0 (rl_max rule - re_count entry),
                     lr_reset = - ((- re_resetTime entry) div 1000),
                     lr_status = None, lr_message = None\<rparr>
      in if re_count entry > rl_max rule
         then (headers\<lparr>lr_status := Some 429, lr_message := Some (rl_message rule)\<rparr>, store', w')
         else (headers, store', w'))"

datatype limiter_step = Request limiter_type string int | Cleanup int

fun serve :: "rate_store \<times> world \<Rightarrow> limiter_step list \<Rightarrow> rate_store \<times> world" where
  \<comment> \<open>a run of the process: requests through the middleware and sweeps, in order\<close>
  "serve sw [] = sw"
| "serve sw (Request ty ip time # steps) = serve (snd (createRateLimiter ty ip time sw)) steps"
| "serve sw (Cleanup time # steps) = serve (cleanup time (fst sw), snd sw) steps"

definition stepTime :: "limiter_step \<Rightarrow> int" where
  "stepTime step = (case step of Request _ _ time \<Rightarrow> time | Cleanup time \<Rightarrow> time)"

definition hitsOf :: "string \<Rightarrow> limiter_step list \<Rightarrow> nat" where
  \<comment> \<open>the number of requests with a given key in a run\<close>
  "hitsOf key steps =
     length (filter (\<lambda>step. case step of Request ty ip _ \<Rightarrow> limiterKey ty ip = key
                                          | Cleanup _ \<Rightarrow> False) steps)"


section \<open>The tracking routes (server/routes.ts)\<close>

text \<open>
  A route runs its rate limiter and, when the limiter calls \<open>next()\<close>, its handler. A
  request comes from an address \<open>ip\<close> at a time \<open>time\<close>.
\<close>

definition openEndpoint ::
  "string \<Rightarrow> int \<Rightarrow> string \<Rightarrow> rate_store \<times> world \<Rightarrow> http_response \<times> rate_store \<times> world" where
  \<comment> \<open>\<open>app.get('/api/tracking/open/:trackingId', trackingRateLimiter, ...)\<close>\<close>
  "openEndpoint ip time trackingId sw =
     (let (limited, store', w') = createRateLimiter Tracking ip time sw
      in if lr_status limited \<noteq> None then (TooManyRequests, store', w')
         else (let (response, w'') = openHandler trackingId w' in (response, store', w'')))"

definition clickEndpoint ::
  "string \<Rightarrow> int \<Rightarrow> string \<Rightarrow> string option \<Rightarrow> rate_store \<times> world \<Rightarrow>
   http_response \<times> rate_store \<times> world" where
  \<comment> \<open>\<open>app.get('/api/tracking/click/:trackingId', trackingRateLimiter, ...)\<close>\<close>
  "clickEndpoint ip time trackingId url sw =
     (let (limited, store', w') = createRateLimiter Tracking ip time sw
      in if lr_status limited \<noteq> None then (TooManyRequests, store', w')
         else (let (response, w'') = clickHandler trackingId url w' in (response, store', w'')))"
section \<open>Notions used in the statements\<close>

definition isBlockedLookup :: "event \<Rightarrow> bool" where
  \<comment> \<open>a lookup in the table of blocked regions\<close>
  "isBlockedLookup ev \<longleftrightarrow> (case ev of SelectBlockedRegion _ \<Rightarrow> True | _ \<Rightarrow> False)"

definition isTransport :: "event \<Rightarrow> bool" where
  \<comment> \<open>a transport attempt: the verification of a new session or the submission of a message\<close>
  "isTransport ev \<longleftrightarrow> (case ev of VerifyTransport _ \<Rightarrow> True | SendMail _ _ _ \<Rightarrow> True | _ \<Rightarrow> False)"

definition blockedAddress :: "string \<Rightarrow> blocked_region list \<Rightarrow> bool" where
  \<comment> \<open>the address carries a country marker whose region code has an active row\<close>
  "blockedAddress to regions \<longleftrightarrow>
     list_ex (\<lambda>(marker, code). markerMatches to marker \<and>
                list_ex (\<lambda>r. br_regionCode r = code \<and> br_isActive r) regions) countryMarkers"

definition confined :: "(event \<Rightarrow> bool) \<Rightarrow> 'a task \<Rightarrow> bool" where
  \<comment> \<open>a task that leaves the table of emails alone and makes only calls of one kind\<close>
  "confined P m \<longleftrightarrow>
     (\<forall>w. emails (snd (m w)) = emails w \<and>
          (\<exists>evs. trace (snd (m w)) = trace w @ evs \<and> (\<forall>e \<in> set evs. P e)))"

definition total :: "'a task \<Rightarrow> bool" where
  \<comment> \<open>a task that never throws\<close>
  "total m \<longleftrightarrow> (\<forall>w. \<exists>x. fst (m w) = Inr x)"

definition returns :: "('a \<Rightarrow> bool) \<Rightarrow> 'a task \<Rightarrow> bool" where
  \<comment> \<open>a property of every value that a task resolves to\<close>
  "returns Q m \<longleftrightarrow> (\<forall>w x. fst (m w) = Inr x \<longrightarrow> Q x)"

definition pipelinePost :: "string \<Rightarrow> world \<Rightarrow> string + send_result \<Rightarrow> world \<Rightarrow> bool" where
  \<comment> \<open>what holds between the worlds before and after a part of the pipeline that makes no
     compliance lookup: every transport attempt comes after the insertion of the email
     record, which then exists with status \<open>sent\<close> or \<open>failed\<close>; and a result that
     reports a failed transport comes with a record of status \<open>failed\<close>\<close>
  "pipelinePost trackingId w res w' \<longleftrightarrow>
     (\<exists>evs. trace w' = trace w @ evs \<and> (\<forall>e \<in> set evs. \<not> isBlockedLookup e) \<and>
        ((\<exists>e \<in> set evs. isTransport e) \<longrightarrow>
           (\<exists>pre post. evs = pre @ InsertEmail trackingId # post \<and>
                        (\<forall>e \<in> set pre. \<not> isTransport e)) \<and>
           (\<exists>row \<in> set (emails w'). em_trackingId row = trackingId \<and>
              (em_status row = ''sent'' \<or> em_status row = ''failed'')))) \<and>
     (\<forall>r. res = Inr r \<and> sr_message r = ''Failed to send email'' \<longrightarrow>
        \<not> sr_success r \<and> sr_error r \<noteq> None \<and>
        (\<exists>row \<in> set (emails w'). sr_emailId r = Some (em_id row) \<and>
           em_trackingId row = trackingId \<and> em_status row = ''failed''))"

definition sampleRequest :: "string \<Rightarrow> send_request" where
  \<comment> \<open>a request with an inline HTML body, used to instantiate the theorems\<close>
  "sampleRequest to =
     \<lparr>rq_to = to, rq_from = ''noreply@example.com'', rq_subject = ''Hello'',
      rq_html = Some ''<p>Hi</p>'', rq_text = None, rq_templateId = None,
      rq_variables = None, rq_region = ''Global'', rq_volume = 1\<rparr>"

definition failingAt :: "nat \<Rightarrow> string \<Rightarrow> world \<Rightarrow> world" where
  \<comment> \<open>the world in which call number \<open>n\<close> throws\<close>
  "failingAt n msg w = w\<lparr>faults := (\<lambda>i. if i = n then Some msg else None)\<rparr>"

definition requestContent :: "send_request \<Rightarrow> template list \<Rightarrow> (string \<times> string) option" where
  \<comment> \<open>the HTML and text bodies of a request: inline, or rendered from its template when the
     template exists\<close>
  "requestContent request rows =
     (case templateIdOf request of
        None \<Rightarrow> Some ((case rq_html request of None \<Rightarrow> [] | Some h \<Rightarrow> h),
                      (case rq_text request of None \<Rightarrow> [] | Some t \<Rightarrow> t))
      | Some templateId \<Rightarrow>
          (case find (\<lambda>t. tp_id t = templateId) rows of
             None \<Rightarrow> None
           | Some t \<Rightarrow>
               Some (processTemplate (tp_htmlContent t)
                       (case rq_variables request of None \<Rightarrow> Map.empty | Some v \<Rightarrow> v),
                     processTemplate (tp_textContent t)
                       (case rq_variables request of None \<Rightarrow> Map.empty | Some v \<Rightarrow> v))))"

definition routingWorld :: world where
  \<comment> \<open>the sample world with five providers: three active ones in \<open>NA\<close>, an inactive one in
     \<open>EU\<close> and an active one in \<open>APAC\<close>\<close>
  "routingWorld = sampleWorld\<lparr>smtpProviders :=
     [\<lparr>sp_id = 1, sp_region = ''NA'', sp_isActive = True, sp_priority = 2,
       sp_maxSendsPerHour = 1200\<rparr>,
      \<lparr>sp_id = 2, sp_region = ''NA'', sp_isActive = True, sp_priority = 1,
       sp_maxSendsPerHour = 800\<rparr>,
      \<lparr>sp_id = 3, sp_region = ''NA'', sp_isActive = True, sp_priority = 3,
       sp_maxSendsPerHour = 5000\<rparr>,
      \<lparr>sp_id = 4, sp_region = ''EU'', sp_isActive = False, sp_priority = 1,
       sp_maxSendsPerHour = 9000\<rparr>,
      \<lparr>sp_id = 5, sp_region = ''APAC'', sp_isActive = True, sp_priority = 5,
       sp_maxSendsPerHour = 100\<rparr>]\<rparr>"

definition idleWorld :: world where
  \<comment> \<open>the sample world with no active provider\<close>
  "idleWorld = sampleWorld\<lparr>smtpProviders :=
     [\<lparr>sp_id = 4, sp_region = ''EU'', sp_isActive = False, sp_priority = 1,
       sp_maxSendsPerHour = 9000\<rparr>]\<rparr>"

datatype tracking_call = OpenCall string | ClickCall string string

fun trackAll :: "world \<Rightarrow> tracking_call list \<Rightarrow> world" where
  \<comment> \<open>the world after a run of tracking callbacks\<close>
  "trackAll w [] = w"
| "trackAll w (OpenCall trackingId # calls) = trackAll (snd (trackEmailOpen trackingId w)) calls"
| "trackAll w (ClickCall trackingId url # calls) =
     trackAll (snd (trackEmailClick trackingId url w)) calls"

definition keepsStamps :: "email \<Rightarrow> email \<Rightarrow> bool" where
  \<comment> \<open>the same record later: an open or click timestamp that is set is still the same\<close>
  "keepsStamps e e' \<longleftrightarrow>
     em_id e' = em_id e \<and> em_trackingId e' = em_trackingId e \<and>
     (em_openedAt e \<noteq> None \<longrightarrow> em_openedAt e' = em_openedAt e) \<and>
     (em_clickedAt e \<noteq> None \<longrightarrow> em_clickedAt e' = em_clickedAt e)"

definition stamping :: "'a task \<Rightarrow> bool" where
  \<comment> \<open>a task that keeps the records and their set timestamps\<close>
  "stamping m \<longleftrightarrow> (\<forall>w. list_all2 keepsStamps (emails w) (emails (snd (m w))))"

definition openedEmail :: email where
  \<comment> \<open>an email opened at time 7 and not yet clicked\<close>
  "openedEmail =
     \<lparr>em_id = 1, em_to = ''user@example.com'', em_from = ''noreply@example.com'',
      em_subject = ''Hello'', em_templateId = None, em_smtpProviderId = Some 1,
      em_status = ''sent'', em_region = ''Global'', em_sentAt = 2, em_deliveredAt = None,
      em_openedAt = Some 7, em_clickedAt = None, em_trackingId = ''t-1''\<rparr>"

definition openedWorld :: world where
  \<comment> \<open>the sample world with that one email\<close>
  "openedWorld = sampleWorld\<lparr>emails := [openedEmail]\<rparr>"

subsection \<open>Documents with links\<close>












subsection \<open>Failing transport calls\<close>

definition keepsFaults :: "'a task \<Rightarrow> bool" where
  \<comment> \<open>a task leaves alone which calls fail\<close>
  "keepsFaults m \<longleftrightarrow> (\<forall>w. faults (snd (m w)) = faults w)"




section \<open>Properties of template rendering\<close>

lemma matchPlaceholder_short [simp]:
  "matchPlaceholder [] = None" "matchPlaceholder [c] = None"
  by (simp_all add: matchPlaceholder.simps)

lemma processTemplate_None:
  "matchPlaceholder (c # cs) = None \<Longrightarrow>
   processTemplate (c # cs) variables = c # processTemplate cs variables"
  by simp

lemma processTemplate_Some:
  "matchPlaceholder (c # cs) = Some (name, rest) \<Longrightarrow>
   processTemplate (c # cs) variables = replacement variables name @ processTemplate rest variables"
  by simp

lemma matchPlaceholder_no_brace:
  "c \<noteq> CHR ''{'' \<Longrightarrow> matchPlaceholder (c # cs) = None"
  by (cases cs) simp_all

lemma dropWhile_close_head:
  "dropWhile (\<lambda>c. c \<noteq> CHR ''}'') s = x # xs \<Longrightarrow> x = CHR ''}''"
  using hd_dropWhile [of "\<lambda>c. c \<noteq> CHR ''}''" s] by auto

lemma matchPlaceholder_Some_iff:
  "matchPlaceholder (a # b # s) = Some (n, r) \<longleftrightarrow>
     a = CHR ''{'' \<and> b = CHR ''{'' \<and> n = takeWhile (\<lambda>c. c \<noteq> CHR ''}'') s \<and> n \<noteq> [] \<and>
     dropWhile (\<lambda>c. c \<noteq> CHR ''}'') s = CHR ''}'' # CHR ''}'' # r"
proof (cases "dropWhile (\<lambda>c. c \<noteq> CHR ''}'') s")
  case Nil
  then show ?thesis by (simp add: matchPlaceholder.simps del: dropWhile_eq_Nil_conv)
next
  case (Cons x xs)
  then have x: "x = CHR ''}''" by (rule dropWhile_close_head)
  show ?thesis
  proof (cases xs)
    case Nil
    with Cons show ?thesis by (simp add: matchPlaceholder.simps)
  next
    case (Cons y rest)
    with \<open>dropWhile (\<lambda>c. c \<noteq> CHR ''}'') s = x # xs\<close> x show ?thesis
      by (simp add: matchPlaceholder.simps) blast
  qed
qed

lemma matchPlaceholder_None_iff:
  "matchPlaceholder (CHR ''{'' # CHR ''{'' # s) = None \<longleftrightarrow>
     takeWhile (\<lambda>c. c \<noteq> CHR ''}'') s = [] \<or>
     \<not> prefix ''}}'' (dropWhile (\<lambda>c. c \<noteq> CHR ''}'') s)"
proof (cases "dropWhile (\<lambda>c. c \<noteq> CHR ''}'') s")
  case Nil
  then show ?thesis by (simp add: matchPlaceholder.simps del: dropWhile_eq_Nil_conv)
next
  case (Cons x xs)
  then have x: "x = CHR ''}''" by (rule dropWhile_close_head)
  show ?thesis
  proof (cases xs)
    case Nil
    with Cons x show ?thesis by (simp add: matchPlaceholder.simps)
  next
    case (Cons y rest)
    with \<open>dropWhile (\<lambda>c. c \<noteq> CHR ''}'') s = x # xs\<close> x show ?thesis
      by (simp add: matchPlaceholder.simps)
  qed
qed

declare matchPlaceholder.simps [simp del]
declare processTemplate.simps(2) [simp del]

lemma processTemplate_no_open:
  "CHR ''{'' \<notin> set pre \<Longrightarrow>
   processTemplate (pre @ s) variables = pre @ processTemplate s variables"
proof (induction pre)
  case Nil
  show ?case by simp
next
  case (Cons a pre)
  then have "a \<noteq> CHR ''{''" by auto
  then have "matchPlaceholder (a # pre @ s) = None"
    by (rule matchPlaceholder_no_brace)
  then have "processTemplate (a # pre @ s) variables = a # processTemplate (pre @ s) variables"
    by (rule processTemplate_None)
  with Cons show ?case by simp
qed

lemma matchPlaceholder_placeholder:
  "name \<noteq> [] \<Longrightarrow> CHR ''}'' \<notin> set name \<Longrightarrow>
   matchPlaceholder (placeholder name @ post) = Some (name, post)"
proof -
  assume ne: "name \<noteq> []" and nb: "CHR ''}'' \<notin> set name"
  have tw: "takeWhile (\<lambda>c. c \<noteq> CHR ''}'') (name @ ''}}'' @ post) = name"
    using nb by (induction name) auto
  have dw: "dropWhile (\<lambda>c. c \<noteq> CHR ''}'') (name @ ''}}'' @ post) = ''}}'' @ post"
    using nb by (induction name) auto
  show ?thesis
    using ne tw dw by (simp add: placeholder_def matchPlaceholder.simps)
qed

lemma processTemplate_placeholder:
  "name \<noteq> [] \<Longrightarrow> CHR ''}'' \<notin> set name \<Longrightarrow>
   processTemplate (placeholder name @ post) variables =
     replacement variables name @ processTemplate post variables"
proof -
  assume a: "name \<noteq> []" "CHR ''}'' \<notin> set name"
  obtain c cs where s: "placeholder name @ post = c # cs"
    by (simp add: placeholder_def)
  have "matchPlaceholder (c # cs) = Some (name, post)"
    using matchPlaceholder_placeholder [OF a, of post] s by simp
  then have "processTemplate (c # cs) variables =
             replacement variables name @ processTemplate post variables"
    by (rule processTemplate_Some)
  then show ?thesis
    using s by simp
qed

text \<open>
  C10. A placeholder whose trimmed name maps to the empty string is left verbatim, but
  substitution does not happen only for a variable with a non-empty string value: the
  lookup \<open>variables[key]\<close> on the plain object also finds the members inherited from
  \<open>Object.prototype\<close>, so \<open>{{constructor}}\<close> is replaced although no variable is
  supplied.
\<close>

theorem processTemplate_inherited_name:
  "processTemplate ''Hi {{constructor}}!'' Map.empty = ''Hi function Object() { [native code] }!''
   \<and> processTemplate ''Hi {{ toString }}!'' [''name'' \<mapsto> ''Bob''] =
       ''Hi function toString() { [native code] }!''
   \<and> processTemplate ''Hi {{ name }}!'' [''name'' \<mapsto> ''''] = ''Hi {{ name }}!''
   \<and> processTemplate ''Hi {{ name }}!'' [''name'' \<mapsto> ''Bob''] = ''Hi Bob!''"
  by (simp add: processTemplate.simps matchPlaceholder.simps replacement_def getProperty_def
        objectPrototype_def nativeFunction_def placeholder_def trim_def isWhiteSpace_def)

lemma processTemplate_close:
  "processTemplate (CHR ''}'' # t) variables = CHR ''}'' # processTemplate t variables"
  by (simp add: matchPlaceholder_no_brace processTemplate_None)

lemma processTemplate_block:
  "\<not> prefix ''}}'' (dropWhile (\<lambda>c. c \<noteq> CHR ''}'') t) \<Longrightarrow>
   processTemplate t variables =
     takeWhile (\<lambda>c. c \<noteq> CHR ''}'') t @ processTemplate (dropWhile (\<lambda>c. c \<noteq> CHR ''}'') t) variables"
proof (induction t)
  case Nil
  show ?case by simp
next
  case (Cons c cs)
  show ?case
  proof (cases "c = CHR ''}''")
    case True
    then show ?thesis by simp
  next
    case False
    with Cons.prems have np: "\<not> prefix ''}}'' (dropWhile (\<lambda>c. c \<noteq> CHR ''}'') cs)"
      by simp
    have "matchPlaceholder (c # cs) = None"
    proof (cases cs)
      case Nil
      then show ?thesis by simp
    next
      case (Cons b s)
      show ?thesis
      proof (cases "c = CHR ''{'' \<and> b = CHR ''{''")
        case True
        with np Cons show ?thesis
          by (simp add: matchPlaceholder_None_iff)
      next
        case False
        with Cons show ?thesis by (auto simp: matchPlaceholder.simps)
      qed
    qed
    with False Cons.IH [OF np] show ?thesis by (simp add: processTemplate_None)
  qed
qed

lemma loneBraces_plain:
  "CHR ''{'' \<notin> set v \<Longrightarrow> loneBraces v"
  by (induction v rule: loneBraces.induct) auto

lemma loneBraces_Cons:
  "c \<noteq> CHR ''{'' \<Longrightarrow> loneBraces (c # s) = loneBraces s"
  by (cases s) auto

lemma objectPrototype_text:
  assumes "objectPrototype key = Some t"
  shows "t \<noteq> [] \<and> hd t \<noteq> CHR ''}'' \<and> loneBraces t"
proof -
  from assms have "(key, t) \<in> set
       ([(''constructor'', nativeFunction ''Object''), (''__proto__'', ''[object Object]'')] @
        map (\<lambda>name. (name, nativeFunction name))
          [''__defineGetter__'', ''__defineSetter__'', ''hasOwnProperty'', ''__lookupGetter__'',
           ''__lookupSetter__'', ''isPrototypeOf'', ''propertyIsEnumerable'', ''toString'',
           ''valueOf'', ''toLocaleString''])"
    unfolding objectPrototype_def by (rule map_of_SomeD)
  then consider "t = ''[object Object]''"
    | name where "t = nativeFunction name" "CHR ''{'' \<notin> set name"
    by auto
  then show ?thesis
  proof cases
    case 1
    then show ?thesis by simp
  next
    case 2
    have "loneBraces (name @ ''() { [native code] }'')"
      using 2(2) by (induction name rule: loneBraces.induct) auto
    with 2 show ?thesis by (simp add: nativeFunction_def loneBraces_Cons)
  qed
qed

lemma replacement_cases:
  assumes "plainValues variables"
  shows "replacement variables name = placeholder name \<or>
         (replacement variables name \<noteq> [] \<and> hd (replacement variables name) \<noteq> CHR ''}''
          \<and> loneBraces (replacement variables name))"
proof (cases "getProperty variables (trim name)")
  case None
  then show ?thesis by (simp add: replacement_def)
next
  case (Some v)
  show ?thesis
  proof (cases "v = []")
    case True
    with Some show ?thesis by (simp add: replacement_def)
  next
    case False
    have "hd v \<noteq> CHR ''}'' \<and> loneBraces v"
    proof (cases "variables (trim name)")
      case None
      with Some have "objectPrototype (trim name) = Some v" by (simp add: getProperty_def)
      then show ?thesis by (simp add: objectPrototype_text)
    next
      case own: (Some u)
      with Some have "u = v" by (simp add: getProperty_def)
      with assms own have b: "CHR ''{'' \<notin> set v" "CHR ''}'' \<notin> set v"
        by (simp_all add: plainValues_def)
      from False have "hd v \<in> set v" by simp
      with b(2) have "hd v \<noteq> CHR ''}''" by metis
      with b(1) show ?thesis by (simp add: loneBraces_plain)
    qed
    with Some False show ?thesis by (simp add: replacement_def)
  qed
qed

lemma replacement_head:
  assumes "plainValues variables"
  shows "replacement variables name \<noteq> [] \<and> hd (replacement variables name) \<noteq> CHR ''}''"
  using replacement_cases [OF assms, of name] by (auto simp: placeholder_def)

lemma processTemplate_lone:
  "loneBraces t \<Longrightarrow> processTemplate (t @ s) variables = t @ processTemplate s variables"
proof (induction t rule: loneBraces.induct)
  case 1
  show ?case by simp
next
  case (2 c)
  then have "matchPlaceholder (c # s) = None"
    by (simp add: matchPlaceholder_no_brace)
  then show ?case by (simp add: processTemplate_None)
next
  case (3 a b u)
  then have "matchPlaceholder (a # b # u @ s) = None"
    by (auto simp: matchPlaceholder.simps)
  with 3 show ?case by (simp add: processTemplate_None)
qed

lemma processTemplate_head:
  assumes "plainValues variables" and "\<not> prefix ''}'' s"
  shows "\<not> prefix ''}'' (processTemplate s variables)"
proof (cases s)
  case Nil
  then show ?thesis by simp
next
  case (Cons c cs)
  with assms(2) have c: "c \<noteq> CHR ''}''" by simp
  show ?thesis
  proof (cases "matchPlaceholder (c # cs)")
    case None
    with Cons c show ?thesis by (simp add: processTemplate_None)
  next
    case (Some p)
    obtain name rest where p: "p = (name, rest)" by (cases p)
    from replacement_head [OF assms(1), of name]
    obtain x xs where "replacement variables name = x # xs" "x \<noteq> CHR ''}''"
      by (cases "replacement variables name") auto
    with Some p Cons show ?thesis by (simp add: processTemplate_Some)
  qed
qed

lemma matchPlaceholder_after_render:
  assumes "plainValues variables"
    and "matchPlaceholder (CHR ''{'' # CHR ''{'' # t) = None"
  shows "matchPlaceholder (CHR ''{'' # CHR ''{'' # processTemplate t variables) = None"
proof (cases "takeWhile (\<lambda>c. c \<noteq> CHR ''}'') t = []")
  case True
  then have "t = [] \<or> (\<exists>u. t = CHR ''}'' # u)"
    by (cases t) (auto split: if_splits)
  then have "takeWhile (\<lambda>c. c \<noteq> CHR ''}'') (processTemplate t variables) = []"
    by (auto simp: processTemplate_close)
  then show ?thesis
    by (simp add: matchPlaceholder_None_iff)
next
  case False
  with assms(2) have np: "\<not> prefix ''}}'' (dropWhile (\<lambda>c. c \<noteq> CHR ''}'') t)"
    by (simp add: matchPlaceholder_None_iff)
  define n where "n = takeWhile (\<lambda>c. c \<noteq> CHR ''}'') t"
  define r where "r = dropWhile (\<lambda>c. c \<noteq> CHR ''}'') t"
  have out: "processTemplate t variables = n @ processTemplate r variables"
    unfolding n_def r_def by (rule processTemplate_block [OF np])
  have n: "\<forall>c \<in> set n. c \<noteq> CHR ''}''"
    unfolding n_def by (auto dest: set_takeWhileD)
  have dw: "dropWhile (\<lambda>c. c \<noteq> CHR ''}'') (n @ u) = dropWhile (\<lambda>c. c \<noteq> CHR ''}'') u" for u
    using n by (simp add: dropWhile_append)
  have npr: "\<not> prefix ''}}'' r"
    unfolding r_def by (rule np)
  have "\<not> prefix ''}}'' (dropWhile (\<lambda>c. c \<noteq> CHR ''}'') (processTemplate r variables))"
  proof (cases r)
    case Nil
    then show ?thesis by simp
  next
    case (Cons x r')
    have "r \<noteq> [] \<Longrightarrow> hd r = CHR ''}''"
      unfolding r_def using hd_dropWhile [of "\<lambda>c. c \<noteq> CHR ''}''" t] by simp
    with Cons have x: "x = CHR ''}''" by simp
    from npr Cons x have "\<not> prefix ''}'' r'" by simp
    then have "\<not> prefix ''}'' (processTemplate r' variables)"
      by (rule processTemplate_head [OF assms(1)])
    with Cons x show ?thesis
      by (simp add: processTemplate_close)
  qed
  then show ?thesis
    by (simp add: out dw matchPlaceholder_None_iff)
qed

lemma matchPlaceholder_None_render:
  assumes "plainValues variables" and "matchPlaceholder (c # cs) = None"
  shows "matchPlaceholder (c # processTemplate cs variables) = None"
proof (cases "c = CHR ''{''")
  case False
  then show ?thesis by (rule matchPlaceholder_no_brace)
next
  case c: True
  show ?thesis
  proof (cases cs)
    case Nil
    then show ?thesis by simp
  next
    case (Cons b t)
    show ?thesis
    proof (cases "b = CHR ''{''")
      case False
      then have "matchPlaceholder (b # t) = None"
        by (rule matchPlaceholder_no_brace)
      with Cons have "processTemplate cs variables = b # processTemplate t variables"
        by (simp add: processTemplate_None)
      with False show ?thesis by (simp add: matchPlaceholder.simps)
    next
      case b: True
      have inner: "matchPlaceholder (b # t) = None"
      proof (rule ccontr)
        assume "matchPlaceholder (b # t) \<noteq> None"
        then obtain n r where m: "matchPlaceholder (b # t) = Some (n, r)" by auto
        then obtain b' t' where t: "t = b' # t'" by (cases t) auto
        from m t have "b' = CHR ''{''" and "dropWhile (\<lambda>c. c \<noteq> CHR ''}'') t' = CHR ''}'' # CHR ''}'' # r"
          by (simp_all add: matchPlaceholder_Some_iff)
        with assms(2) c b Cons t show False
          by (simp add: matchPlaceholder_None_iff)
      qed
      from assms(2) c b Cons have "matchPlaceholder (CHR ''{'' # CHR ''{'' # t) = None" by simp
      then have "matchPlaceholder (CHR ''{'' # CHR ''{'' # processTemplate t variables) = None"
        by (rule matchPlaceholder_after_render [OF assms(1)])
      with inner c b Cons show ?thesis by (simp add: processTemplate_None)
    qed
  qed
qed

text \<open>
  C9, as the specification states it, fails: a value that itself holds a placeholder is
  substituted by the first pass and rendered by the second.
\<close>

theorem processTemplate_idempotent_counterexample:
  "processTemplate
     (processTemplate ''{{a}}'' [''a'' \<mapsto> ''{{b}}'', ''b'' \<mapsto> ''x''])
     [''a'' \<mapsto> ''{{b}}'', ''b'' \<mapsto> ''x'']
   \<noteq> processTemplate ''{{a}}'' [''a'' \<mapsto> ''{{b}}'', ''b'' \<mapsto> ''x'']"
  by (simp add: processTemplate.simps matchPlaceholder.simps replacement_def getProperty_def
        trim_def isWhiteSpace_def)

text \<open>
  C9 (amended). Rendering is idempotent when no variable value contains a brace:
  re-rendering the rendered content with the same variables changes nothing.
\<close>

theorem processTemplate_idempotent_plain:
  "plainValues variables \<Longrightarrow>
   processTemplate (processTemplate content variables) variables =
     processTemplate content variables"
proof (induction content variables rule: processTemplate.induct)
  case (1 variables)
  show ?case by simp
next
  case (2 c cs variables)
  show ?case
  proof (cases "matchPlaceholder (c # cs)")
    case None
    then have "matchPlaceholder (c # processTemplate cs variables) = None"
      by (rule matchPlaceholder_None_render [OF "2.prems"])
    with None "2.IH" "2.prems" show ?thesis by (simp add: processTemplate_None)
  next
    case (Some p)
    obtain name rest where p: "p = (name, rest)" by (cases p)
    have ih: "processTemplate (processTemplate rest variables) variables =
              processTemplate rest variables"
      using "2.IH" Some p "2.prems" by simp
    obtain b s where cs: "cs = b # s" using Some by (cases cs) auto
    from Some p cs have name: "name \<noteq> []" "CHR ''}'' \<notin> set name"
      by (auto simp: matchPlaceholder_Some_iff dest: set_takeWhileD)
    show ?thesis
    proof (cases "replacement variables name = placeholder name")
      case True
      with Some p ih name show ?thesis
        by (simp add: processTemplate_placeholder processTemplate_Some)
    next
      case False
      with replacement_cases [OF "2.prems", of name]
      have "loneBraces (replacement variables name)" by simp
      with Some p ih show ?thesis
        by (simp add: processTemplate_lone processTemplate_Some)
    qed
  qed
qed

theorem processTemplate_idempotent_plain_witness:
  "plainValues [''name'' \<mapsto> ''Bob''] \<and>
   processTemplate (processTemplate ''Hi {{name}}, {{other}}'' [''name'' \<mapsto> ''Bob''])
     [''name'' \<mapsto> ''Bob''] = ''Hi Bob, {{other}}''"
proof -
  have p: "plainValues [''name'' \<mapsto> ''Bob'']"
    by (auto simp: plainValues_def split: if_splits)
  have r: "processTemplate ''Hi {{name}}, {{other}}'' [''name'' \<mapsto> ''Bob''] = ''Hi Bob, {{other}}''"
    by (simp add: processTemplate.simps matchPlaceholder.simps replacement_def getProperty_def
          trim_def isWhiteSpace_def placeholder_def objectPrototype_def nativeFunction_def)
  show ?thesis
    using p processTemplate_idempotent_plain [OF p, of "''Hi {{name}}, {{other}}''"]
    by (simp only: r simp_thms)
qed

section \<open>Properties of the rate limiter\<close>

lemma createRateLimiter_store:
  "fst (snd (createRateLimiter ty ip time sw)) =
     snd (increment time (limiterKey ty ip) (rl_windowMs (defaultRules ty)) (fst sw))"
  by (simp add: createRateLimiter_def Let_def split_def)

lemma createRateLimiter_status:
  "lr_status (fst (createRateLimiter ty ip time sw)) =
     (if re_count (fst (increment time (limiterKey ty ip) (rl_windowMs (defaultRules ty)) (fst sw)))
           > rl_max (defaultRules ty)
      then Some 429 else None)"
  by (simp add: createRateLimiter_def Let_def split_def)

lemma createRateLimiter_remaining:
  "lr_remaining (fst (createRateLimiter ty ip time sw)) =
     max 0 (rl_max (defaultRules ty) -
            re_count (fst (increment time (limiterKey ty ip) (rl_windowMs (defaultRules ty)) (fst sw))))"
  by (simp add: createRateLimiter_def Let_def split_def)

lemma increment_fresh:
  assumes "case store key of None \<Rightarrow> True | Some entry \<Rightarrow> re_resetTime entry < time"
  shows "increment time key windowMs store =
           (\<lparr>re_count = 1, re_resetTime = time + windowMs\<rparr>,
            store(key \<mapsto> \<lparr>re_count = 1, re_resetTime = time + windowMs\<rparr>))"
  using assms by (simp add: increment_def split: option.splits)

lemma increment_live:
  assumes "store key = Some \<lparr>re_count = c, re_resetTime = r\<rparr>" and "time \<le> r"
  shows "increment time key windowMs store =
           (\<lparr>re_count = c + 1, re_resetTime = r\<rparr>,
            store(key \<mapsto> \<lparr>re_count = c + 1, re_resetTime = r\<rparr>))"
  using assms by (simp add: increment_def)

lemma increment_other:
  "key' \<noteq> key \<Longrightarrow> snd (increment time key' windowMs store) key = store key"
  by (simp add: increment_def split: option.splits)

lemma cleanup_live:
  "store key = Some entry \<Longrightarrow> time \<le> re_resetTime entry \<Longrightarrow> cleanup time store key = Some entry"
  by (simp add: cleanup_def)

lemma serve_window:
  assumes "fst sw key = Some \<lparr>re_count = c, re_resetTime = r\<rparr>"
    and "\<forall>step \<in> set steps. stepTime step \<le> r"
  shows "fst (serve sw steps) key = Some \<lparr>re_count = c + int (hitsOf key steps), re_resetTime = r\<rparr>"
  using assms
proof (induction steps arbitrary: sw c)
  case Nil
  then show ?case by (simp add: hitsOf_def)
next
  case (Cons step steps)
  show ?case
  proof (cases step)
    case (Request ty ip time)
    with Cons.prems(2) have t: "time \<le> r" by (simp add: stepTime_def)
    let ?sw' = "snd (createRateLimiter ty ip time sw)"
    show ?thesis
    proof (cases "limiterKey ty ip = key")
      case True
      have "fst ?sw' key = Some \<lparr>re_count = c + 1, re_resetTime = r\<rparr>"
        using Cons.prems(1) t True
        by (simp add: createRateLimiter_store increment_live)
      moreover have "\<forall>step \<in> set steps. stepTime step \<le> r"
        using Cons.prems(2) by simp
      ultimately have "fst (serve ?sw' steps) key =
                       Some \<lparr>re_count = c + 1 + int (hitsOf key steps), re_resetTime = r\<rparr>"
        by (rule Cons.IH)
      with Request True show ?thesis by (simp add: hitsOf_def)
    next
      case False
      have "fst ?sw' key = Some \<lparr>re_count = c, re_resetTime = r\<rparr>"
        using Cons.prems(1) False
        by (simp add: createRateLimiter_store increment_other)
      moreover have "\<forall>step \<in> set steps. stepTime step \<le> r"
        using Cons.prems(2) by simp
      ultimately have "fst (serve ?sw' steps) key =
                       Some \<lparr>re_count = c + int (hitsOf key steps), re_resetTime = r\<rparr>"
        by (rule Cons.IH)
      with Request False show ?thesis by (simp add: hitsOf_def)
    qed
  next
    case (Cleanup time)
    with Cons.prems(2) have t: "time \<le> r" by (simp add: stepTime_def)
    have "fst (cleanup time (fst sw), snd sw) key = Some \<lparr>re_count = c, re_resetTime = r\<rparr>"
      using Cons.prems(1) t by (simp add: cleanup_live)
    moreover have "\<forall>step \<in> set steps. stepTime step \<le> r"
      using Cons.prems(2) by simp
    ultimately have "fst (serve (cleanup time (fst sw), snd sw) steps) key =
                     Some \<lparr>re_count = c + int (hitsOf key steps), re_resetTime = r\<rparr>"
      by (rule Cons.IH)
    with Cleanup show ?thesis by (simp add: hitsOf_def)
  qed
qed

text \<open>
  C5. A request at time \<open>t0\<close> whose key is absent or expired starts a window with count 1.
  After any run of further requests (of any keys) and sweeps that stay within the window,
  a request with the same key, still within the window, is hit number
  \<open>N = 2 + hitsOf key steps\<close> of the window: the stored count is \<open>N\<close>, whether or not it
  exceeds the limit, the reset time is unchanged, and the request is passed on exactly when
  \<open>N \<le> max\<close>, answered with status 429 otherwise.
\<close>

theorem rate_limit_Nth_hit:
  assumes fresh: "case store (limiterKey ty ip) of None \<Rightarrow> True
                  | Some entry \<Rightarrow> re_resetTime entry < t0"
    and steps: "\<forall>step \<in> set steps. stepTime step \<le> t0 + rl_windowMs (defaultRules ty)"
    and time: "time \<le> t0 + rl_windowMs (defaultRules ty)"
  shows "fst (snd (createRateLimiter ty ip t0 (store, w))) (limiterKey ty ip) =
           Some \<lparr>re_count = 1, re_resetTime = t0 + rl_windowMs (defaultRules ty)\<rparr>
       \<and> lr_status (fst (createRateLimiter ty ip t0 (store, w))) = None
       \<and> fst (snd (createRateLimiter ty ip time
                      (serve (snd (createRateLimiter ty ip t0 (store, w))) steps)))
             (limiterKey ty ip) =
           Some \<lparr>re_count = 2 + int (hitsOf (limiterKey ty ip) steps),
                 re_resetTime = t0 + rl_windowMs (defaultRules ty)\<rparr>
       \<and> (lr_status (fst (createRateLimiter ty ip time
                      (serve (snd (createRateLimiter ty ip t0 (store, w))) steps))) = None
            \<longleftrightarrow> 2 + int (hitsOf (limiterKey ty ip) steps) \<le> rl_max (defaultRules ty))
       \<and> (lr_status (fst (createRateLimiter ty ip time
                      (serve (snd (createRateLimiter ty ip t0 (store, w))) steps))) = Some 429
            \<longleftrightarrow> rl_max (defaultRules ty) < 2 + int (hitsOf (limiterKey ty ip) steps))"
proof -
  let ?key = "limiterKey ty ip"
  let ?win = "rl_windowMs (defaultRules ty)"
  let ?sw1 = "snd (createRateLimiter ty ip t0 (store, w))"
  let ?swN = "serve ?sw1 steps"
  have inc1: "increment t0 ?key ?win store =
                (\<lparr>re_count = 1, re_resetTime = t0 + ?win\<rparr>,
                 store(?key \<mapsto> \<lparr>re_count = 1, re_resetTime = t0 + ?win\<rparr>))"
    using fresh by (simp add: increment_def split: option.splits)
  have first: "fst ?sw1 ?key = Some \<lparr>re_count = 1, re_resetTime = t0 + ?win\<rparr>"
    by (simp add: createRateLimiter_store inc1)
  have max1: "1 \<le> rl_max (defaultRules ty)"
    by (cases ty) (simp_all add: defaultRules_def)
  have status1: "lr_status (fst (createRateLimiter ty ip t0 (store, w))) = None"
    using max1 by (simp add: createRateLimiter_status inc1)
  have before: "fst ?swN ?key =
                  Some \<lparr>re_count = 1 + int (hitsOf ?key steps), re_resetTime = t0 + ?win\<rparr>"
    by (rule serve_window [OF first steps])
  have incN: "increment time ?key ?win (fst ?swN) =
                (\<lparr>re_count = 1 + int (hitsOf ?key steps) + 1, re_resetTime = t0 + ?win\<rparr>,
                 (fst ?swN)(?key \<mapsto> \<lparr>re_count = 1 + int (hitsOf ?key steps) + 1,
                                       re_resetTime = t0 + ?win\<rparr>))"
    using before time by (simp add: increment_def)
  have storeN: "fst (snd (createRateLimiter ty ip time ?swN)) ?key =
                  Some \<lparr>re_count = 2 + int (hitsOf ?key steps), re_resetTime = t0 + ?win\<rparr>"
    by (simp add: createRateLimiter_store incN)
  have statusN: "lr_status (fst (createRateLimiter ty ip time ?swN)) =
                   (if rl_max (defaultRules ty) < 2 + int (hitsOf ?key steps) then Some 429 else None)"
    by (simp add: createRateLimiter_status incN)
  show ?thesis
    using first status1 storeN statusN by simp
qed

theorem rate_limit_Nth_hit_witness:
  "fst (snd (createRateLimiter Api ''10.0.0.1'' 0 (Map.empty, sampleWorld))) (limiterKey Api ''10.0.0.1'') =
     Some \<lparr>re_count = 1, re_resetTime = 60000\<rparr>
   \<and> fst (snd (createRateLimiter Api ''10.0.0.1'' 500
                 (serve (snd (createRateLimiter Api ''10.0.0.1'' 0 (Map.empty, sampleWorld)))
                    [Request Api ''10.0.0.1'' 100, Cleanup 200, Request Email ''10.0.0.1'' 300])))
        (limiterKey Api ''10.0.0.1'') =
     Some \<lparr>re_count = 3, re_resetTime = 60000\<rparr>
   \<and> lr_status (fst (createRateLimiter Api ''10.0.0.1'' 500
                 (serve (snd (createRateLimiter Api ''10.0.0.1'' 0 (Map.empty, sampleWorld)))
                    [Request Api ''10.0.0.1'' 100, Cleanup 200, Request Email ''10.0.0.1'' 300]))) = None"
proof -
  have a: "case Map.empty (limiterKey Api ''10.0.0.1'') of None \<Rightarrow> True
           | Some entry \<Rightarrow> re_resetTime entry < 0"
    by simp
  have b: "\<forall>step \<in> set [Request Api ''10.0.0.1'' 100, Cleanup 200, Request Email ''10.0.0.1'' 300].
             stepTime step \<le> 0 + rl_windowMs (defaultRules Api)"
    by (simp add: stepTime_def defaultRules_def)
  have c: "(500::int) \<le> 0 + rl_windowMs (defaultRules Api)"
    by (simp add: defaultRules_def)
  have h: "hitsOf (limiterKey Api ''10.0.0.1'')
             [Request Api ''10.0.0.1'' 100, Cleanup 200, Request Email ''10.0.0.1'' 300] = 1"
    by (simp add: hitsOf_def limiterKey_def limiterName_def)
  show ?thesis
    using rate_limit_Nth_hit [OF a b c, where w = sampleWorld]
    by (simp add: h defaultRules_def)
qed

section \<open>Properties of provider selection\<close>

lemma external_ok:
  "faults w (length (trace w)) = None \<Longrightarrow> external ev w = (Inr (), w\<lparr>trace := trace w @ [ev]\<rparr>)"
  by (simp add: external_def)

lemma external_fault:
  "faults w (length (trace w)) = Some e \<Longrightarrow> external ev w = (Inl e, w\<lparr>trace := trace w @ [ev]\<rparr>)"
  by (simp add: external_def)

lemma find_filter_head:
  "filter P xs = y # ys \<Longrightarrow> find P xs = Some y"
  by (induction xs) (auto split: if_splits)

lemma firstOf_sort_key:
  fixes f :: "'a \<Rightarrow> int"
  assumes "xs \<noteq> []"
  shows "\<exists>p. firstOf (sort_key f xs) = Some p \<and> p \<in> set xs \<and> (\<forall>q \<in> set xs. f p \<le> f q)
             \<and> find (\<lambda>q. f q = f p) xs = Some p"
proof -
  have "length (sort_key f xs) = length xs" by simp
  with assms obtain p ps where s: "sort_key f xs = p # ps"
    by (cases "sort_key f xs") auto
  have "set (p # ps) = set xs"
    using s set_sort [of f xs] by simp
  then have mem: "p \<in> set xs" and sub: "set ps \<subseteq> set xs" and cover: "set xs \<subseteq> insert p (set ps)"
    by auto
  have "sorted (map f (p # ps))"
    using s sorted_sort_key [of f xs] by simp
  then have "\<forall>q \<in> set ps. f p \<le> f q" by simp
  with cover have least: "\<forall>q \<in> set xs. f p \<le> f q" by auto
  have "filter (\<lambda>y. f y = f p) (sort_key f xs) = filter (\<lambda>y. f y = f p) xs"
    by (rule sort_key_stable)
  with s have "filter (\<lambda>y. f y = f p) xs = p # filter (\<lambda>y. f y = f p) ps" by simp
  then have "find (\<lambda>q. f q = f p) xs = Some p" by (rule find_filter_head)
  with s mem least show ?thesis by (simp add: firstOf_def)
qed

lemma regionProviders_set:
  "set (regionProviders region rows) = {p \<in> set rows. sp_region p = region \<and> sp_isActive p}"
  by (auto simp: regionProviders_def)

lemma regionProviders_sorted:
  "sorted (map sp_priority (regionProviders region rows))"
  by (simp add: regionProviders_def)

lemma getSmtpProvider_region:
  assumes "faults w (length (trace w)) = None"
    and "regionProviders (recipientRegion to) (smtpProviders w) \<noteq> []"
  shows "fst (getSmtpProvider to volume w) =
           Inr (let providers = regionProviders (recipientRegion to) (smtpProviders w) in
                if volume > 1000 then
                  (if filter (\<lambda>p. sp_maxSendsPerHour p \<ge> volume) providers \<noteq> []
                   then firstOf (filter (\<lambda>p. sp_maxSendsPerHour p \<ge> volume) providers)
                   else firstOf (sort_key (\<lambda>p. - sp_maxSendsPerHour p) providers))
                else firstOf providers)"
  using assms
  by (simp add: getSmtpProvider_def getSmtpProvidersByRegion_def await_def external_ok
        resolve_def Let_def)

lemma getSmtpProvider_fallback:
  assumes "faults w (length (trace w)) = None"
    and "faults w (Suc (length (trace w))) = None"
    and "regionProviders (recipientRegion to) (smtpProviders w) = []"
  shows "fst (getSmtpProvider to volume w) =
           Inr (if filter sp_isActive (smtpProviders w) = [] then None
                else firstOf (sort_key sp_priority (filter sp_isActive (smtpProviders w))))"
  using assms
  by (simp add: getSmtpProvider_def getSmtpProvidersByRegion_def getSmtpProviders_def await_def
        external_def resolve_def Let_def)

lemma firstOf_filter_find:
  "firstOf (filter P xs) = find P xs"
  by (induction xs) (simp_all add: firstOf_def)

section \<open>Properties of the data store operations\<close>

lemma getBlockedRegionByCode_eq:
  "getBlockedRegionByCode code w =
     ((case faults w (length (trace w)) of
         None \<Rightarrow> Inr (find (\<lambda>r. br_regionCode r = code \<and> br_isActive r) (blockedRegions w))
       | Some e \<Rightarrow> Inl e),
      w\<lparr>trace := trace w @ [SelectBlockedRegion code]\<rparr>)"
  by (simp add: getBlockedRegionByCode_def await_def external_def split: option.splits)

lemma getTemplate_eq:
  "getTemplate ident w =
     ((case faults w (length (trace w)) of
         None \<Rightarrow> Inr (find (\<lambda>t. tp_id t = ident) (templates w))
       | Some e \<Rightarrow> Inl e),
      w\<lparr>trace := trace w @ [SelectTemplate ident]\<rparr>)"
  by (simp add: getTemplate_def await_def external_def split: option.splits)

lemma getSmtpProvidersByRegion_eq:
  "getSmtpProvidersByRegion region w =
     ((case faults w (length (trace w)) of
         None \<Rightarrow> Inr (regionProviders region (smtpProviders w))
       | Some e \<Rightarrow> Inl e),
      w\<lparr>trace := trace w @ [SelectProvidersByRegion region]\<rparr>)"
  by (simp add: getSmtpProvidersByRegion_def await_def external_def split: option.splits)

lemma getSmtpProviders_eq:
  "getSmtpProviders w =
     ((case faults w (length (trace w)) of
         None \<Rightarrow> Inr (smtpProviders w)
       | Some e \<Rightarrow> Inl e),
      w\<lparr>trace := trace w @ [SelectProviders]\<rparr>)"
  by (simp add: getSmtpProviders_def await_def external_def split: option.splits)

lemma getEmailByTrackingId_eq:
  "getEmailByTrackingId trackingId w =
     ((case faults w (length (trace w)) of
         None \<Rightarrow> Inr (find (\<lambda>e. em_trackingId e = trackingId) (emails w))
       | Some e \<Rightarrow> Inl e),
      w\<lparr>trace := trace w @ [SelectEmailByTrackingId trackingId]\<rparr>)"
  by (simp add: getEmailByTrackingId_def await_def external_def split: option.splits)

section \<open>Properties of the compliance check of the send pipeline\<close>

lemma complianceLoop_world:
  "\<exists>codes. snd (complianceLoop ms to w) = w\<lparr>trace := trace w @ map SelectBlockedRegion codes\<rparr>"
proof (induction ms arbitrary: w)
  case Nil
  have "snd (complianceLoop [] to w) = w\<lparr>trace := trace w @ map SelectBlockedRegion []\<rparr>"
    by simp
  then show ?case by blast
next
  case (Cons m ms)
  obtain marker code where m: "m = (marker, code)" by (cases m)
  show ?case
  proof (cases "markerMatches to marker")
    case False
    with m Cons.IH [of w] show ?thesis by simp
  next
    case True
    let ?w1 = "w\<lparr>trace := trace w @ [SelectBlockedRegion code]\<rparr>"
    show ?thesis
    proof (cases "fst (getBlockedRegionByCode code w)")
      case (Inl e)
      then have "snd (complianceLoop (m # ms) to w) =
                 w\<lparr>trace := trace w @ map SelectBlockedRegion [code]\<rparr>"
        using m True by (simp add: getBlockedRegionByCode_eq split: option.splits)
      then show ?thesis by blast
    next
      case (Inr found)
      show ?thesis
      proof (cases found)
        case (Some r)
        with Inr have "snd (complianceLoop (m # ms) to w) =
                       w\<lparr>trace := trace w @ map SelectBlockedRegion [code]\<rparr>"
          using m True by (simp add: getBlockedRegionByCode_eq split: option.splits)
        then show ?thesis by blast
      next
        case None
        with Inr have step: "complianceLoop (m # ms) to w = complianceLoop ms to ?w1"
          using m True by (simp add: getBlockedRegionByCode_eq split: option.splits)
        from Cons.IH [of ?w1] obtain codes where
          "snd (complianceLoop ms to ?w1) = ?w1\<lparr>trace := trace ?w1 @ map SelectBlockedRegion codes\<rparr>"
          by blast
        with step have "snd (complianceLoop (m # ms) to w) =
                        w\<lparr>trace := trace w @ map SelectBlockedRegion (code # codes)\<rparr>"
          by simp
        then show ?thesis by blast
      qed
    qed
  qed
qed

lemma complianceLoop_allowed:
  "complianceLoop ms to w = (Inr c, w') \<Longrightarrow> ec_allowed c \<Longrightarrow>
   \<not> list_ex (\<lambda>(marker, code). markerMatches to marker \<and>
                list_ex (\<lambda>r. br_regionCode r = code \<and> br_isActive r) (blockedRegions w)) ms"
proof (induction ms arbitrary: w)
  case Nil
  show ?case by simp
next
  case (Cons m ms)
  obtain marker code where m: "m = (marker, code)" by (cases m)
  show ?case
  proof (cases "markerMatches to marker")
    case False
    with m Cons.prems have "complianceLoop ms to w = (Inr c, w')" by simp
    from Cons.IH [OF this Cons.prems(2)] False m show ?thesis by simp
  next
    case True
    let ?w1 = "w\<lparr>trace := trace w @ [SelectBlockedRegion code]\<rparr>"
    from Cons.prems m True
    have none: "find (\<lambda>r. br_regionCode r = code \<and> br_isActive r) (blockedRegions w) = None"
      and rest: "complianceLoop ms to ?w1 = (Inr c, w')"
      by (auto simp: getBlockedRegionByCode_eq split: option.splits)
    from Cons.IH [OF rest Cons.prems(2)]
    have "\<not> list_ex (\<lambda>(marker, code). markerMatches to marker \<and>
                list_ex (\<lambda>r. br_regionCode r = code \<and> br_isActive r) (blockedRegions w)) ms"
      by simp
    moreover from none
    have "\<not> list_ex (\<lambda>r. br_regionCode r = code \<and> br_isActive r) (blockedRegions w)"
      by (simp add: find_None_iff list_ex_iff)
    ultimately show ?thesis using m by simp
  qed
qed

lemma complianceLoop_blocked:
  "complianceLoop ms to w = (Inr c, w') \<Longrightarrow> \<not> ec_allowed c \<Longrightarrow>
   \<exists>marker code r. (marker, code) \<in> set ms \<and> markerMatches to marker \<and>
      r \<in> set (blockedRegions w) \<and> br_regionCode r = code \<and> br_isActive r \<and>
      ec_reason c = Some (br_reason r)"
proof (induction ms arbitrary: w)
  case Nil
  then show ?case by auto
next
  case (Cons m ms)
  obtain marker code where m: "m = (marker, code)" by (cases m)
  show ?case
  proof (cases "markerMatches to marker")
    case False
    with m Cons.prems have "complianceLoop ms to w = (Inr c, w')" by simp
    from Cons.IH [OF this Cons.prems(2)] show ?thesis by auto
  next
    case True
    let ?w1 = "w\<lparr>trace := trace w @ [SelectBlockedRegion code]\<rparr>"
    show ?thesis
    proof (cases "find (\<lambda>r. br_regionCode r = code \<and> br_isActive r) (blockedRegions w)")
      case None
      with Cons.prems m True have "complianceLoop ms to ?w1 = (Inr c, w')"
        by (auto simp: getBlockedRegionByCode_eq split: option.splits)
      from Cons.IH [OF this Cons.prems(2)] show ?thesis by auto
    next
      case (Some r)
      then have r: "r \<in> set (blockedRegions w)" "br_regionCode r = code" "br_isActive r"
        by (auto simp: find_Some_iff in_set_conv_nth)
      from Cons.prems m True Some have "ec_reason c = Some (br_reason r)"
        by (auto simp: getBlockedRegionByCode_eq split: option.splits)
      with r m True show ?thesis by auto
    qed
  qed
qed

lemma complianceLoop_no_fault:
  "complianceLoop ms to w = (Inr c, w') \<Longrightarrow>
   \<forall>i. length (trace w) \<le> i \<and> i < length (trace w') \<longrightarrow> faults w i = None"
proof (induction ms arbitrary: w)
  case Nil
  then show ?case by auto
next
  case (Cons m ms)
  obtain marker code where m: "m = (marker, code)" by (cases m)
  show ?case
  proof (cases "markerMatches to marker")
    case False
    with m Cons.prems have "complianceLoop ms to w = (Inr c, w')" by simp
    from Cons.IH [OF this] show ?thesis .
  next
    case True
    let ?w1 = "w\<lparr>trace := trace w @ [SelectBlockedRegion code]\<rparr>"
    from Cons.prems m True have ok: "faults w (length (trace w)) = None"
      by (auto simp: getBlockedRegionByCode_eq split: option.splits)
    show ?thesis
    proof (cases "find (\<lambda>r. br_regionCode r = code \<and> br_isActive r) (blockedRegions w)")
      case None
      with Cons.prems m True ok have "complianceLoop ms to ?w1 = (Inr c, w')"
        by (simp add: getBlockedRegionByCode_eq)
      from Cons.IH [OF this] have "\<forall>i. Suc (length (trace w)) \<le> i \<and> i < length (trace w') \<longrightarrow>
                                      faults w i = None"
        by simp
      with ok show ?thesis
        by (metis Suc_leI le_neq_implies_less)
    next
      case (Some r)
      with Cons.prems m True ok have "w' = ?w1"
        by (simp add: getBlockedRegionByCode_eq)
      with ok show ?thesis
        by (auto simp: less_Suc_eq)
    qed
  qed
qed

lemma complianceLoop_quiet:
  "\<forall>i. faults w i = None \<Longrightarrow> \<exists>c. fst (complianceLoop ms to w) = Inr c"
proof (induction ms arbitrary: w)
  case Nil
  show ?case by simp
next
  case (Cons m ms)
  obtain marker code where m: "m = (marker, code)" by (cases m)
  let ?w1 = "w\<lparr>trace := trace w @ [SelectBlockedRegion code]\<rparr>"
  have "\<forall>i. faults ?w1 i = None" using Cons.prems by simp
  from Cons.IH [OF this] Cons.IH [OF Cons.prems] m Cons.prems show ?case
    by (simp add: getBlockedRegionByCode_eq split: option.splits)
qed

section \<open>Rules for tasks\<close>

lemma steps_resolve: "confined P (resolve x)"
  by (simp add: confined_def resolve_def)

lemma steps_throw: "confined P (throw e)"
  by (simp add: confined_def throw_def)

lemma steps_external: "P ev \<Longrightarrow> confined P (external ev)"
  by (simp add: confined_def external_def)

lemma steps_state:
  "(\<And>w. emails (g w) = emails w \<and> trace (g w) = trace w) \<Longrightarrow> confined P (\<lambda>w. (r w, g w))"
  by (simp add: confined_def)

lemma steps_read: "(\<And>w. confined P (F w)) \<Longrightarrow> confined P (\<lambda>w. F w w)"
  by (simp add: confined_def)

lemma steps_await:
  assumes "confined P m" and "\<And>x. confined P (f x)"
  shows "confined P (await m f)"
proof (unfold confined_def, intro allI)
  fix w
  obtain r w1 where m: "m w = (r, w1)" by (cases "m w")
  from assms(1) have "emails (snd (m w)) = emails w \<and>
      (\<exists>evs. trace (snd (m w)) = trace w @ evs \<and> (\<forall>e \<in> set evs. P e))"
    unfolding confined_def by (rule spec)
  with m obtain evs1 where
    1: "emails w1 = emails w" "trace w1 = trace w @ evs1" "\<forall>e \<in> set evs1. P e"
    by auto
  show "emails (snd (await m f w)) = emails w \<and>
        (\<exists>evs. trace (snd (await m f w)) = trace w @ evs \<and> (\<forall>e \<in> set evs. P e))"
  proof (cases r)
    case (Inl e)
    with m 1 show ?thesis by (simp add: await_def)
  next
    case (Inr x)
    from assms(2) [of x] have "emails (snd (f x w1)) = emails w1 \<and>
        (\<exists>evs. trace (snd (f x w1)) = trace w1 @ evs \<and> (\<forall>e \<in> set evs. P e))"
      unfolding confined_def by (rule spec)
    then obtain evs2 where
      2: "emails (snd (f x w1)) = emails w1" "trace (snd (f x w1)) = trace w1 @ evs2"
         "\<forall>e \<in> set evs2. P e"
      by auto
    have "trace (snd (f x w1)) = trace w @ (evs1 @ evs2) \<and> (\<forall>e \<in> set (evs1 @ evs2). P e)"
      using 1 2 by auto
    then have "\<exists>evs. trace (snd (f x w1)) = trace w @ evs \<and> (\<forall>e \<in> set evs. P e)"
      by blast
    with Inr m 1 2 show ?thesis by (simp add: await_def)
  qed
qed

lemma steps_catch:
  assumes "confined P m" and "\<And>e. confined P (h e)"
  shows "confined P (catch m h)"
proof (unfold confined_def, intro allI)
  fix w
  obtain r w1 where m: "m w = (r, w1)" by (cases "m w")
  from assms(1) have "emails (snd (m w)) = emails w \<and>
      (\<exists>evs. trace (snd (m w)) = trace w @ evs \<and> (\<forall>e \<in> set evs. P e))"
    unfolding confined_def by (rule spec)
  with m obtain evs1 where
    1: "emails w1 = emails w" "trace w1 = trace w @ evs1" "\<forall>e \<in> set evs1. P e"
    by auto
  show "emails (snd (catch m h w)) = emails w \<and>
        (\<exists>evs. trace (snd (catch m h w)) = trace w @ evs \<and> (\<forall>e \<in> set evs. P e))"
  proof (cases r)
    case (Inr x)
    with m 1 show ?thesis by (simp add: catch_def)
  next
    case (Inl e)
    from assms(2) [of e] have "emails (snd (h e w1)) = emails w1 \<and>
        (\<exists>evs. trace (snd (h e w1)) = trace w1 @ evs \<and> (\<forall>e \<in> set evs. P e))"
      unfolding confined_def by (rule spec)
    then obtain evs2 where
      2: "emails (snd (h e w1)) = emails w1" "trace (snd (h e w1)) = trace w1 @ evs2"
         "\<forall>e \<in> set evs2. P e"
      by auto
    have "trace (snd (h e w1)) = trace w @ (evs1 @ evs2) \<and> (\<forall>e \<in> set (evs1 @ evs2). P e)"
      using 1 2 by auto
    then have "\<exists>evs. trace (snd (h e w1)) = trace w @ evs \<and> (\<forall>e \<in> set evs. P e)"
      by blast
    with Inl m 1 2 show ?thesis by (simp add: catch_def)
  qed
qed

lemma steps_detached: "confined P m \<Longrightarrow> confined P (detached m)"
  by (simp add: confined_def detached_def)

lemma steps_weaken:
  assumes "confined P m" and "\<And>e. P e \<Longrightarrow> Q e"
  shows "confined Q m"
proof (unfold confined_def, intro allI)
  fix w
  from assms(1) have "emails (snd (m w)) = emails w \<and>
      (\<exists>evs. trace (snd (m w)) = trace w @ evs \<and> (\<forall>e \<in> set evs. P e))"
    unfolding confined_def by (rule spec)
  with assms(2) show "emails (snd (m w)) = emails w \<and>
      (\<exists>evs. trace (snd (m w)) = trace w @ evs \<and> (\<forall>e \<in> set evs. Q e))"
    by blast
qed

lemma total_resolve: "total (resolve x)"
  by (simp add: total_def resolve_def)

lemma total_await:
  assumes "total m" and "\<And>x. total (f x)"
  shows "total (await m f)"
proof (unfold total_def, intro allI)
  fix w
  obtain r w1 where m: "m w = (r, w1)" by (cases "m w")
  from assms(1) m obtain x where r: "r = Inr x"
    by (auto simp: total_def dest: spec [of _ w])
  from assms(2) [of x] obtain y where "fst (f x w1) = Inr y"
    by (auto simp: total_def dest: spec [of _ w1])
  with m r show "\<exists>y. fst (await m f w) = Inr y"
    by (simp add: await_def)
qed

lemma total_catch:
  assumes "\<And>e. total (h e)"
  shows "total (catch m h)"
proof (unfold total_def, intro allI)
  fix w
  obtain r w1 where m: "m w = (r, w1)" by (cases "m w")
  show "\<exists>y. fst (catch m h w) = Inr y"
  proof (cases r)
    case (Inr x)
    with m show ?thesis by (simp add: catch_def)
  next
    case (Inl e)
    from assms [of e] obtain y where "fst (h e w1) = Inr y"
      by (auto simp: total_def dest: spec [of _ w1])
    with m Inl show ?thesis by (simp add: catch_def)
  qed
qed

lemma total_detached: "total (detached m)"
  by (simp add: total_def detached_def)

lemma returns_resolve: "Q x \<Longrightarrow> returns Q (resolve x)"
  by (simp add: returns_def resolve_def)

lemma returns_throw: "returns Q (throw e)"
  by (simp add: returns_def throw_def)

lemma returns_await: "(\<And>x. returns Q (f x)) \<Longrightarrow> returns Q (await m f)"
  by (auto simp: returns_def await_def split: prod.splits sum.splits)

lemma returns_catch:
  assumes "returns Q m" and "\<And>e. returns Q (h e)"
  shows "returns Q (catch m h)"
proof (unfold returns_def, intro allI impI)
  fix w x
  assume c: "fst (catch m h w) = Inr x"
  obtain r w1 where m: "m w = (r, w1)" by (cases "m w")
  show "Q x"
  proof (cases r)
    case (Inr y)
    with m c have "fst (m w) = Inr x" by (simp add: catch_def)
    with assms(1) show ?thesis by (simp add: returns_def)
  next
    case (Inl e)
    with m c have "fst (h e w1) = Inr x" by (simp add: catch_def)
    with assms(2) [of e] show ?thesis by (simp add: returns_def)
  qed
qed

lemma returns_read: "(\<And>w. returns Q (F w)) \<Longrightarrow> returns Q (\<lambda>w. F w w)"
  by (simp add: returns_def)

lemma steps_getSmtpProvider:
  assumes "\<And>r. P (SelectProvidersByRegion r)" and "P SelectProviders"
  shows "confined P (getSmtpProvider to volume)"
proof -
  have a: "confined P (getSmtpProvidersByRegion r)" for r
    unfolding getSmtpProvidersByRegion_def
    by (intro steps_await steps_external steps_state assms) simp
  have b: "confined P getSmtpProviders"
    unfolding getSmtpProviders_def
    by (intro steps_await steps_external steps_state assms) simp
  have c: "confined P (await getSmtpProviders (\<lambda>allProviders.
           (let activeProviders = filter sp_isActive allProviders in
            if activeProviders = [] then resolve None
            else resolve (firstOf (sort_key sp_priority activeProviders)))))"
    by (rule steps_await [OF b]) (simp add: Let_def steps_resolve)
  show ?thesis
    unfolding getSmtpProvider_def
    by (rule steps_await [OF a]) (simp add: Let_def steps_resolve c [unfolded Let_def])
qed

lemma steps_createSystemMetric:
  assumes "\<And>a b c. P (InsertMetric a b c)"
  shows "confined P (createSystemMetric metric)"
  unfolding createSystemMetric_def
  by (intro steps_await steps_external steps_state assms) simp

lemma steps_getConnection:
  assumes "\<And>i. P (VerifyTransport i)"
  shows "confined P (getConnection provider)"
  unfolding confined_def
  by (simp add: getConnection_def await_def external_def assms split: option.splits)

lemma steps_sendEmail:
  assumes "\<And>r. P (SelectProvidersByRegion r)" and "P SelectProviders"
    and "\<And>i. P (VerifyTransport i)" and "\<And>i t h. P (SendMail i t h)"
    and "\<And>a b c. P (InsertMetric a b c)"
  shows "confined P (sendEmail options)"
proof -
  have metric: "confined P (detached (createSystemMetric x))" for x
    by (intro steps_detached steps_createSystemMetric assms)
  have handler: "confined P (await (detached (createSystemMetric x)) (\<lambda>_. resolve y))" for x y
    by (intro steps_await metric steps_resolve)
  have submit: "confined P (await (external (SendMail i t h)) (\<lambda>_.
                   await (detached (createSystemMetric x)) (\<lambda>_. resolve y)))" for i t h x y
    by (intro steps_await steps_external handler assms)
  have deliver: "confined P (await (getConnection provider) (\<lambda>transporter w.
                (let html = injectTracking (hostName (envHost w)) (so_trackingId options)
                              (so_html options)
                 in await (external (SendMail transporter (so_to options) html)) (\<lambda>_.
                      await (detached (createSystemMetric x)) (\<lambda>_. resolve y))) w))"
    for provider x y
  proof (rule steps_await)
    show "confined P (getConnection provider)"
      by (rule steps_getConnection) (rule assms)
  next
    fix transporter
    show "confined P (\<lambda>w.
                (let html = injectTracking (hostName (envHost w)) (so_trackingId options)
                              (so_html options)
                 in await (external (SendMail transporter (so_to options) html)) (\<lambda>_.
                      await (detached (createSystemMetric x)) (\<lambda>_. resolve y))) w)"
      by (rule steps_read) (simp add: submit)
  qed
  have found: "confined P (case found of
            None \<Rightarrow> throw ''No suitable SMTP provider found''
          | Some provider \<Rightarrow>
              await (getConnection provider) (\<lambda>transporter w.
                (let html = injectTracking (hostName (envHost w)) (so_trackingId options)
                              (so_html options)
                 in await (external (SendMail transporter (so_to options) html)) (\<lambda>_.
                      await (detached (createSystemMetric
                               \<lparr>sm_metricName = ''email_sent'', sm_metricValue = ''success'',
                                sm_region = sp_region provider\<rparr>)) (\<lambda>_.
                        resolve \<lparr>out_success = True, out_providerId = Some (sp_id provider),
                                 out_error = None\<rparr>))) w))" for found
    by (cases found) (simp_all add: steps_throw deliver [unfolded Let_def] Let_def)
  show ?thesis
    unfolding sendEmail_def Let_def
    by (intro steps_catch steps_await steps_getSmtpProvider metric steps_resolve
          found [unfolded Let_def] assms)
qed

lemma total_sendEmail: "total (sendEmail options)"
  unfolding sendEmail_def
  by (intro total_catch total_await total_detached total_resolve)

lemma returns_sendEmail:
  "returns (\<lambda>out. \<not> out_success out \<longrightarrow> out_error out \<noteq> None) (sendEmail options)"
proof -
  let ?Q = "\<lambda>out. \<not> out_success out \<longrightarrow> out_error out \<noteq> None"
  have ok: "?Q \<lparr>out_success = True, out_providerId = p, out_error = None\<rparr>" for p
    by simp
  have ko: "?Q \<lparr>out_success = False, out_providerId = None, out_error = Some e\<rparr>" for e
    by simp
  have submit: "returns ?Q (await (external (SendMail i t h)) (\<lambda>_.
                    await (detached (createSystemMetric x)) (\<lambda>_.
                      resolve \<lparr>out_success = True, out_providerId = p, out_error = None\<rparr>)))"
    for i t h x p
    by (intro returns_await returns_resolve ok)
  have deliver: "returns ?Q (await (getConnection provider) (\<lambda>transporter w.
                   await (external (SendMail transporter (so_to options)
                            (injectTracking (hostName (envHost w)) (so_trackingId options)
                               (so_html options)))) (\<lambda>_.
                     await (detached (createSystemMetric x)) (\<lambda>_.
                       resolve \<lparr>out_success = True, out_providerId = p, out_error = None\<rparr>)) w))"
    for provider x p
  proof (rule returns_await)
    fix transporter
    show "returns ?Q (\<lambda>w.
                   await (external (SendMail transporter (so_to options)
                            (injectTracking (hostName (envHost w)) (so_trackingId options)
                               (so_html options)))) (\<lambda>_.
                     await (detached (createSystemMetric x)) (\<lambda>_.
                       resolve \<lparr>out_success = True, out_providerId = p, out_error = None\<rparr>)) w)"
      by (rule returns_read) (rule submit)
  qed
  have found: "returns ?Q (case found of
            None \<Rightarrow> throw ''No suitable SMTP provider found''
          | Some provider \<Rightarrow>
              await (getConnection provider) (\<lambda>transporter w.
                await (external (SendMail transporter (so_to options)
                         (injectTracking (hostName (envHost w)) (so_trackingId options)
                            (so_html options)))) (\<lambda>_.
                      await (detached (createSystemMetric
                               \<lparr>sm_metricName = ''email_sent'', sm_metricValue = ''success'',
                                sm_region = sp_region provider\<rparr>)) (\<lambda>_.
                        resolve \<lparr>out_success = True, out_providerId = Some (sp_id provider),
                                 out_error = None\<rparr>)) w))" for found
  proof (cases found)
    case None
    show ?thesis unfolding None option.case by (rule returns_throw)
  next
    case (Some provider)
    show ?thesis unfolding Some option.case by (rule deliver)
  qed
  show ?thesis
    unfolding sendEmail_def Let_def
    by (intro returns_catch returns_await found returns_resolve ko)
qed

section \<open>Properties of the send pipeline\<close>

lemma createEmail_result:
  "(\<exists>e. createEmail d w = (Inl e, w\<lparr>trace := trace w @ [InsertEmail (ie_trackingId d)]\<rparr>)) \<or>
   (\<exists>row. createEmail d w =
            (Inr row, w\<lparr>trace := trace w @ [InsertEmail (ie_trackingId d)],
                        emails := emails w @ [row]\<rparr>) \<and>
          em_status row = ''sent'' \<and> em_trackingId row = ie_trackingId d \<and>
          em_openedAt row = None \<and> em_clickedAt row = None \<and>
          faults w (length (trace w)) = None \<and>
          (\<forall>e \<in> set (emails w). em_trackingId e \<noteq> ie_trackingId d))"
  by (cases "faults w (length (trace w))")
     (auto simp: createEmail_def await_def external_def Let_def)

lemma updateEmailStatus_result:
  "(\<exists>e. updateEmailStatus i st w = (Inl e, w\<lparr>trace := trace w @ [UpdateEmailStatus i st]\<rparr>) \<and>
        faults w (length (trace w)) = Some e) \<or>
   (\<exists>u. updateEmailStatus i st w =
          (Inr u, w\<lparr>trace := trace w @ [UpdateEmailStatus i st],
                    emails := map (\<lambda>e. if em_id e = i
                                          then e\<lparr>em_status := st,
                                                 em_deliveredAt := (if st = ''delivered''
                                                                    then Some (now w)
                                                                    else em_deliveredAt e)\<rparr>
                                          else e) (emails w)\<rparr>) \<and>
        faults w (length (trace w)) = None)"
  by (cases "faults w (length (trace w))")
     (auto simp: updateEmailStatus_def await_def external_def Let_def)

lemma sendEmail_result:
  "\<exists>out evs. fst (sendEmail options w) = Inr out \<and>
     emails (snd (sendEmail options w)) = emails w \<and>
     trace (snd (sendEmail options w)) = trace w @ evs \<and>
     (\<forall>e \<in> set evs. \<not> isBlockedLookup e) \<and>
     (\<not> out_success out \<longrightarrow> out_error out \<noteq> None)"
proof -
  from total_sendEmail [of options] obtain out where out: "fst (sendEmail options w) = Inr out"
    by (auto simp: total_def dest: spec [of _ w])
  have "confined (\<lambda>e. \<not> isBlockedLookup e) (sendEmail options)"
    by (rule steps_sendEmail) (simp_all add: isBlockedLookup_def)
  then have "emails (snd (sendEmail options w)) = emails w \<and>
      (\<exists>evs. trace (snd (sendEmail options w)) = trace w @ evs \<and>
             (\<forall>e \<in> set evs. \<not> isBlockedLookup e))"
    unfolding confined_def by (rule spec)
  moreover from returns_sendEmail [of options] out
  have "\<not> out_success out \<longrightarrow> out_error out \<noteq> None"
    by (simp add: returns_def)
  ultimately show ?thesis using out by blast
qed

lemma recordAndSend_post:
  "pipelinePost trackingId w (fst (recordAndSend request trackingId html text provider w))
     (snd (recordAndSend request trackingId html text provider w))"
proof -
  let ?d = "emailData request trackingId provider"
  let ?o = "sendOptions request trackingId html text"
  have tid: "ie_trackingId ?d = trackingId" by (simp add: emailData_def)
  let ?w1 = "w\<lparr>trace := trace w @ [InsertEmail trackingId]\<rparr>"
  from createEmail_result [of ?d w] show ?thesis
  proof (elim disjE exE conjE)
    fix e
    assume "createEmail ?d w = (Inl e, w\<lparr>trace := trace w @ [InsertEmail (ie_trackingId ?d)]\<rparr>)"
    then have "recordAndSend request trackingId html text provider w = (Inl e, ?w1)"
      by (simp add: recordAndSend_def await_def tid)
    then show ?thesis
      by (simp add: pipelinePost_def isBlockedLookup_def isTransport_def)
  next
    fix row
    let ?w2 = "w\<lparr>trace := trace w @ [InsertEmail trackingId], emails := emails w @ [row]\<rparr>"
    assume c: "createEmail ?d w =
                 (Inr row, w\<lparr>trace := trace w @ [InsertEmail (ie_trackingId ?d)],
                             emails := emails w @ [row]\<rparr>)"
      and row: "em_status row = ''sent''" "em_trackingId row = ie_trackingId ?d"
    obtain r3 w3 where s: "sendEmail ?o ?w2 = (r3, w3)" by (cases "sendEmail ?o ?w2")
    from sendEmail_result [of ?o ?w2] s obtain out evs where
      out: "r3 = Inr out" and em3: "emails w3 = emails w @ [row]"
      and tr3: "trace w3 = trace w @ InsertEmail trackingId # evs"
      and nb: "\<forall>e \<in> set evs. \<not> isBlockedLookup e"
      and err: "\<not> out_success out \<longrightarrow> out_error out \<noteq> None"
      by auto
    define st where "st = (if out_success out then ''sent'' else ''failed'')"
    define result where "result =
      (if out_success out
       then \<lparr>sr_success = True, sr_emailId = Some (em_id row), sr_trackingId = Some trackingId,
             sr_message = ''Email sent successfully'', sr_error = None\<rparr>
       else \<lparr>sr_success = False, sr_emailId = Some (em_id row), sr_trackingId = Some trackingId,
             sr_message = ''Failed to send email'', sr_error = out_error out\<rparr>)"
    have run: "recordAndSend request trackingId html text provider w =
                 (case updateEmailStatus (em_id row) st w3 of
                    (Inl e, w4) \<Rightarrow> (Inl e, w4)
                  | (Inr u, w4) \<Rightarrow> (Inr result, w4))"
      using c s out
      by (simp add: recordAndSend_def await_def tid st_def result_def resolve_def
            split: prod.splits sum.splits)
    let ?ev = "UpdateEmailStatus (em_id row) st"
    have shape: "\<exists>pre post. InsertEmail trackingId # evs @ [?ev] = pre @ InsertEmail trackingId # post
                   \<and> (\<forall>e \<in> set pre. \<not> isTransport e)"
      by (rule exI [of _ "[]"]) simp
    have nb': "\<forall>e \<in> set (InsertEmail trackingId # evs @ [?ev]). \<not> isBlockedLookup e"
      using nb by (simp add: isBlockedLookup_def)
    from updateEmailStatus_result [of "em_id row" st w3] show ?thesis
    proof (elim disjE exE conjE)
      fix e
      assume u: "updateEmailStatus (em_id row) st w3 = (Inl e, w3\<lparr>trace := trace w3 @ [?ev]\<rparr>)"
      have "row \<in> set (emails (w3\<lparr>trace := trace w3 @ [?ev]\<rparr>))"
        using em3 by simp
      with row tid have "\<exists>row \<in> set (emails (w3\<lparr>trace := trace w3 @ [?ev]\<rparr>)).
                           em_trackingId row = trackingId \<and>
                           (em_status row = ''sent'' \<or> em_status row = ''failed'')"
        by auto
      with u run tr3 shape nb' show ?thesis
        by (simp add: pipelinePost_def)
    next
      fix u
      let ?rows = "map (\<lambda>e. if em_id e = em_id row
                            then e\<lparr>em_status := st,
                                   em_deliveredAt := (if st = ''delivered'' then Some (now w3)
                                                      else em_deliveredAt e)\<rparr>
                            else e) (emails w3)"
      let ?row' = "row\<lparr>em_status := st,
                       em_deliveredAt := (if st = ''delivered'' then Some (now w3)
                                          else em_deliveredAt row)\<rparr>"
      assume u: "updateEmailStatus (em_id row) st w3 =
                   (Inr u, w3\<lparr>trace := trace w3 @ [?ev], emails := ?rows\<rparr>)"
      have mem: "?row' \<in> set ?rows"
        using em3 by (simp add: image_iff) 
      have props: "em_trackingId ?row' = trackingId" "em_id ?row' = em_id row"
                  "em_status ?row' = st"
        using row tid by simp_all
      have st: "st = ''sent'' \<or> st = ''failed''" by (simp add: st_def)
      have ex: "\<exists>row \<in> set ?rows. em_trackingId row = trackingId \<and>
                           (em_status row = ''sent'' \<or> em_status row = ''failed'')"
      proof (rule bexI [of _ ?row'])
        show "em_trackingId ?row' = trackingId \<and>
              (em_status ?row' = ''sent'' \<or> em_status ?row' = ''failed'')"
          using props st by simp
      qed (rule mem)
      have failed: "sr_message result = ''Failed to send email'' \<longrightarrow>
              \<not> sr_success result \<and> sr_error result \<noteq> None \<and>
              (\<exists>row \<in> set ?rows. sr_emailId result = Some (em_id row) \<and>
                 em_trackingId row = trackingId \<and> em_status row = ''failed'')"
      proof
        assume "sr_message result = ''Failed to send email''"
        then have ns: "\<not> out_success out" by (simp add: result_def split: if_splits)
        with err have "sr_error result \<noteq> None" by (simp add: result_def)
        moreover from ns have "st = ''failed''" by (simp add: st_def)
        with mem props ns have "\<exists>row \<in> set ?rows. sr_emailId result = Some (em_id row) \<and>
                 em_trackingId row = trackingId \<and> em_status row = ''failed''"
          by (intro bexI [of _ ?row']) (simp_all add: result_def)
        ultimately show "\<not> sr_success result \<and> sr_error result \<noteq> None \<and>
              (\<exists>row \<in> set ?rows. sr_emailId result = Some (em_id row) \<and>
                 em_trackingId row = trackingId \<and> em_status row = ''failed'')"
          using ns by (simp add: result_def)
      qed
      from u run tr3 shape nb' ex failed show ?thesis
        by (simp add: pipelinePost_def)
    qed
  qed
qed

lemma pipelinePost_prefix:
  assumes "trace w1 = trace w @ pre0"
    and "\<forall>e \<in> set pre0. \<not> isBlockedLookup e \<and> \<not> isTransport e"
    and "pipelinePost trackingId w1 res w'"
  shows "pipelinePost trackingId w res w'"
proof -
  from assms(3) obtain evs where
    tr: "trace w' = trace w1 @ evs" and nb: "\<forall>e \<in> set evs. \<not> isBlockedLookup e"
    and tp: "(\<exists>e \<in> set evs. isTransport e) \<longrightarrow>
           (\<exists>pre post. evs = pre @ InsertEmail trackingId # post \<and>
                        (\<forall>e \<in> set pre. \<not> isTransport e)) \<and>
           (\<exists>row \<in> set (emails w'). em_trackingId row = trackingId \<and>
              (em_status row = ''sent'' \<or> em_status row = ''failed''))"
    and fl: "\<forall>r. res = Inr r \<and> sr_message r = ''Failed to send email'' \<longrightarrow>
        \<not> sr_success r \<and> sr_error r \<noteq> None \<and>
        (\<exists>row \<in> set (emails w'). sr_emailId r = Some (em_id row) \<and>
           em_trackingId row = trackingId \<and> em_status row = ''failed'')"
    unfolding pipelinePost_def by blast
  have tr': "trace w' = trace w @ (pre0 @ evs)"
    using tr assms(1) by simp
  have nb': "\<forall>e \<in> set (pre0 @ evs). \<not> isBlockedLookup e"
    using nb assms(2) by auto
  have tp': "(\<exists>e \<in> set (pre0 @ evs). isTransport e) \<longrightarrow>
           (\<exists>pre post. pre0 @ evs = pre @ InsertEmail trackingId # post \<and>
                        (\<forall>e \<in> set pre. \<not> isTransport e)) \<and>
           (\<exists>row \<in> set (emails w'). em_trackingId row = trackingId \<and>
              (em_status row = ''sent'' \<or> em_status row = ''failed''))"
  proof
    assume "\<exists>e \<in> set (pre0 @ evs). isTransport e"
    with assms(2) have "\<exists>e \<in> set evs. isTransport e" by auto
    with tp obtain pre post where
      s: "evs = pre @ InsertEmail trackingId # post" "\<forall>e \<in> set pre. \<not> isTransport e"
      and row: "\<exists>row \<in> set (emails w'). em_trackingId row = trackingId \<and>
              (em_status row = ''sent'' \<or> em_status row = ''failed'')"
      by blast
    have "pre0 @ evs = (pre0 @ pre) @ InsertEmail trackingId # post \<and>
          (\<forall>e \<in> set (pre0 @ pre). \<not> isTransport e)"
      using s assms(2) by auto
    then have "\<exists>pre post. pre0 @ evs = pre @ InsertEmail trackingId # post \<and>
                        (\<forall>e \<in> set pre. \<not> isTransport e)"
      by blast
    with row show "(\<exists>pre post. pre0 @ evs = pre @ InsertEmail trackingId # post \<and>
                        (\<forall>e \<in> set pre. \<not> isTransport e)) \<and>
           (\<exists>row \<in> set (emails w'). em_trackingId row = trackingId \<and>
              (em_status row = ''sent'' \<or> em_status row = ''failed''))"
      by blast
  qed
  show ?thesis
    unfolding pipelinePost_def using tr' nb' tp' fl by blast
qed

lemma pipelinePost_done:
  assumes "trace w' = trace w @ pre0"
    and "\<forall>e \<in> set pre0. \<not> isBlockedLookup e \<and> \<not> isTransport e"
    and "\<forall>r. res = Inr r \<longrightarrow> sr_message r \<noteq> ''Failed to send email''"
  shows "pipelinePost trackingId w res w'"
  unfolding pipelinePost_def using assms by blast

lemma pipelinePost_await:
  assumes "confined (\<lambda>e. \<not> isBlockedLookup e \<and> \<not> isTransport e) m"
    and "\<And>x w1. pipelinePost trackingId w1 (fst (f x w1)) (snd (f x w1))"
  shows "pipelinePost trackingId w (fst (await m f w)) (snd (await m f w))"
proof -
  obtain r w1 where m: "m w = (r, w1)" by (cases "m w")
  from assms(1) have "emails (snd (m w)) = emails w \<and>
      (\<exists>evs. trace (snd (m w)) = trace w @ evs \<and>
             (\<forall>e \<in> set evs. \<not> isBlockedLookup e \<and> \<not> isTransport e))"
    unfolding confined_def by (rule spec)
  with m obtain pre0 where
    pre0: "trace w1 = trace w @ pre0" "\<forall>e \<in> set pre0. \<not> isBlockedLookup e \<and> \<not> isTransport e"
    by auto
  show ?thesis
  proof (cases r)
    case (Inl e)
    have "pipelinePost trackingId w (Inl e) w1"
      by (rule pipelinePost_done [OF pre0]) simp
    with m Inl show ?thesis by (simp add: await_def)
  next
    case (Inr x)
    have "pipelinePost trackingId w (fst (f x w1)) (snd (f x w1))"
      by (rule pipelinePost_prefix [OF pre0 assms(2)])
    with m Inr show ?thesis by (simp add: await_def)
  qed
qed

lemma pipelinePost_resolve:
  "sr_message r \<noteq> ''Failed to send email'' \<Longrightarrow>
   pipelinePost trackingId w (fst (resolve r w)) (snd (resolve r w))"
  by (rule pipelinePost_done [of _ _ "[]"]) (simp_all add: resolve_def)

lemma selectAndSend_post:
  "pipelinePost trackingId w (fst (selectAndSend request trackingId html text w))
     (snd (selectAndSend request trackingId html text w))"
proof (cases "html = [] \<and> text = []")
  case True
  then show ?thesis
    by (simp add: selectAndSend_def pipelinePost_resolve)
next
  case False
  have sel: "confined (\<lambda>e. \<not> isBlockedLookup e \<and> \<not> isTransport e) (getSmtpProvider to volume)"
    for to volume
    by (rule steps_getSmtpProvider) (simp_all add: isBlockedLookup_def isTransport_def)
  have main: "pipelinePost trackingId w
          (fst (await (getSmtpProvider (rq_to request)
                  (if rq_volume request = 0 then 1 else rq_volume request)) (\<lambda>found.
             case found of
               None \<Rightarrow>
                 resolve \<lparr>sr_success = False, sr_emailId = None, sr_trackingId = None,
                          sr_message = ''No suitable SMTP provider available'',
                          sr_error = Some ''Failed to find an active SMTP provider for this request''\<rparr>
             | Some provider \<Rightarrow> recordAndSend request trackingId html text provider) w))
          (snd (await (getSmtpProvider (rq_to request)
                  (if rq_volume request = 0 then 1 else rq_volume request)) (\<lambda>found.
             case found of
               None \<Rightarrow>
                 resolve \<lparr>sr_success = False, sr_emailId = None, sr_trackingId = None,
                          sr_message = ''No suitable SMTP provider available'',
                          sr_error = Some ''Failed to find an active SMTP provider for this request''\<rparr>
             | Some provider \<Rightarrow> recordAndSend request trackingId html text provider) w))"
  proof (rule pipelinePost_await [OF sel])
    fix found w1
    show "pipelinePost trackingId w1
            (fst ((case found of
               None \<Rightarrow>
                 resolve \<lparr>sr_success = False, sr_emailId = None, sr_trackingId = None,
                          sr_message = ''No suitable SMTP provider available'',
                          sr_error = Some ''Failed to find an active SMTP provider for this request''\<rparr>
             | Some provider \<Rightarrow> recordAndSend request trackingId html text provider) w1))
            (snd ((case found of
               None \<Rightarrow>
                 resolve \<lparr>sr_success = False, sr_emailId = None, sr_trackingId = None,
                          sr_message = ''No suitable SMTP provider available'',
                          sr_error = Some ''Failed to find an active SMTP provider for this request''\<rparr>
             | Some provider \<Rightarrow> recordAndSend request trackingId html text provider) w1))"
      by (cases found) (simp_all add: pipelinePost_resolve recordAndSend_post)
  qed
  show ?thesis
    unfolding selectAndSend_def if_not_P [OF False] by (rule main)
qed

lemma renderAndSend_post:
  "pipelinePost trackingId w (fst (renderAndSend request trackingId w))
     (snd (renderAndSend request trackingId w))"
proof (cases "templateIdOf request")
  case None
  then show ?thesis
    by (simp add: renderAndSend_def selectAndSend_post)
next
  case (Some templateId)
  have tpl: "confined (\<lambda>e. \<not> isBlockedLookup e \<and> \<not> isTransport e) (getTemplate templateId)"
    unfolding getTemplate_def
    by (intro steps_await steps_external steps_state)
       (simp_all add: isBlockedLookup_def isTransport_def)
  let ?k = "\<lambda>found.
            case found of
              None \<Rightarrow>
                resolve \<lparr>sr_success = False, sr_emailId = None, sr_trackingId = None,
                         sr_message = ''Template not found'',
                         sr_error = Some (''Template with ID '' @ showInt templateId @
                                            '' does not exist'')\<rparr>
            | Some t \<Rightarrow>
                (let variables = (case rq_variables request of None \<Rightarrow> Map.empty | Some v \<Rightarrow> v)
                 in selectAndSend request trackingId
                      (processTemplate (tp_htmlContent t) variables)
                      (processTemplate (tp_textContent t) variables))"
  have main: "pipelinePost trackingId w (fst (await (getTemplate templateId) ?k w))
          (snd (await (getTemplate templateId) ?k w))"
  proof (rule pipelinePost_await [OF tpl])
    fix found w1
    show "pipelinePost trackingId w1 (fst (?k found w1)) (snd (?k found w1))"
      by (cases found) (simp_all add: pipelinePost_resolve selectAndSend_post Let_def)
  qed
  show ?thesis
    unfolding renderAndSend_def Some option.case by (rule main)
qed

lemma processEmailSend_cases:
  "\<exists>codes rc.
     complianceLoop countryMarkers (rq_to request) w =
       (rc, w\<lparr>trace := trace w @ map SelectBlockedRegion codes\<rparr>) \<and>
     ((\<exists>e. rc = Inl e \<and>
           processEmailSend request trackingId w =
             (Inr \<lparr>sr_success = False, sr_emailId = None, sr_trackingId = None,
                   sr_message = ''Failed to process email request'', sr_error = Some e\<rparr>,
              w\<lparr>trace := trace w @ map SelectBlockedRegion codes\<rparr>)) \<or>
      (\<exists>c. rc = Inr c \<and> \<not> ec_allowed c \<and>
           processEmailSend request trackingId w =
             (Inr \<lparr>sr_success = False, sr_emailId = None, sr_trackingId = None,
                   sr_message = ''Recipient is in a blocked region'',
                   sr_error = Some (''Compliance violation: '' @
                                      (case ec_reason c of None \<Rightarrow> ''undefined'' | Some r \<Rightarrow> r))\<rparr>,
              w\<lparr>trace := trace w @ map SelectBlockedRegion codes\<rparr>)) \<or>
      (\<exists>c r2 w2. rc = Inr c \<and> ec_allowed c \<and>
           renderAndSend request trackingId (w\<lparr>trace := trace w @ map SelectBlockedRegion codes\<rparr>)
             = (r2, w2) \<and>
           pipelinePost trackingId (w\<lparr>trace := trace w @ map SelectBlockedRegion codes\<rparr>) r2 w2 \<and>
           processEmailSend request trackingId w =
             (Inr (case r2 of
                     Inl e \<Rightarrow> \<lparr>sr_success = False, sr_emailId = None, sr_trackingId = None,
                               sr_message = ''Failed to process email request'',
                               sr_error = Some e\<rparr>
                   | Inr r \<Rightarrow> r), w2)))"
proof -
  from complianceLoop_world [of countryMarkers "rq_to request" w] obtain codes where
    wc: "snd (complianceLoop countryMarkers (rq_to request) w) =
           w\<lparr>trace := trace w @ map SelectBlockedRegion codes\<rparr>"
    by blast
  let ?wc = "w\<lparr>trace := trace w @ map SelectBlockedRegion codes\<rparr>"
  obtain rc where rc: "complianceLoop countryMarkers (rq_to request) w = (rc, ?wc)"
    using wc by (cases "complianceLoop countryMarkers (rq_to request) w") simp
  show ?thesis
  proof (cases rc)
    case (Inl e)
    with rc have "processEmailSend request trackingId w =
             (Inr \<lparr>sr_success = False, sr_emailId = None, sr_trackingId = None,
                   sr_message = ''Failed to process email request'', sr_error = Some e\<rparr>, ?wc)"
      by (simp add: processEmailSend_def catch_def await_def checkRegionCompliance_email_def
            resolve_def)
    with rc Inl show ?thesis by blast
  next
    case (Inr c)
    show ?thesis
    proof (cases "ec_allowed c")
      case False
      with rc Inr have "processEmailSend request trackingId w =
             (Inr \<lparr>sr_success = False, sr_emailId = None, sr_trackingId = None,
                   sr_message = ''Recipient is in a blocked region'',
                   sr_error = Some (''Compliance violation: '' @
                                      (case ec_reason c of None \<Rightarrow> ''undefined'' | Some r \<Rightarrow> r))\<rparr>,
              ?wc)"
        by (simp add: processEmailSend_def catch_def await_def checkRegionCompliance_email_def
              resolve_def)
      with rc Inr False show ?thesis by blast
    next
      case True
      obtain r2 w2 where r2: "renderAndSend request trackingId ?wc = (r2, w2)"
        by (cases "renderAndSend request trackingId ?wc")
      from renderAndSend_post [of trackingId ?wc request] r2
      have post: "pipelinePost trackingId ?wc r2 w2" by simp
      from rc Inr True r2 have "processEmailSend request trackingId w =
             (Inr (case r2 of
                     Inl e \<Rightarrow> \<lparr>sr_success = False, sr_emailId = None, sr_trackingId = None,
                               sr_message = ''Failed to process email request'',
                               sr_error = Some e\<rparr>
                   | Inr r \<Rightarrow> r), w2)"
        by (simp add: processEmailSend_def catch_def await_def checkRegionCompliance_email_def
              resolve_def split: sum.splits)
      with rc Inr True r2 post show ?thesis by blast
    qed
  qed
qed

lemma blockedLookup_map [simp]: "\<forall>e \<in> set (map SelectBlockedRegion codes). isBlockedLookup e"
  by (simp add: isBlockedLookup_def)

lemma transport_map [simp]: "\<forall>e \<in> set (map SelectBlockedRegion codes). \<not> isTransport e"
  by (simp add: isTransport_def)

text \<open>
  C1. In every run of \<open>processEmailSend\<close> the lookups of the compliance check come first:
  the calls made are a run of blocked-region lookups followed by calls none of which is
  such a lookup (the template query, the provider queries, the insertion, the transport).
  When the recipient address carries a marker whose region has an active row, the call
  returns a result with \<open>success = False\<close>, the world changes only by those lookups in
  the trace (no email record is created, no connection is acquired, nothing is sent), and
  when no call of the data store fails the result names the compliance violation with the
  reason of such a region.
\<close>

theorem blocked_region_rejected:
  "(\<exists>codes rest.
      trace (snd (processEmailSend request trackingId w)) =
        trace w @ map SelectBlockedRegion codes @ rest \<and>
      (\<forall>e \<in> set rest. \<not> isBlockedLookup e))
   \<and> (blockedAddress (rq_to request) (blockedRegions w) \<longrightarrow>
        (\<exists>r codes.
           processEmailSend request trackingId w =
             (Inr r, w\<lparr>trace := trace w @ map SelectBlockedRegion codes\<rparr>) \<and>
           \<not> sr_success r \<and> sr_emailId r = None \<and>
           emails (snd (processEmailSend request trackingId w)) = emails w \<and>
           connections (snd (processEmailSend request trackingId w)) = connections w \<and>
           (\<forall>e \<in> set (map SelectBlockedRegion codes). \<not> isTransport e) \<and>
           ((\<forall>i. faults w i = None) \<longrightarrow>
              sr_message r = ''Recipient is in a blocked region'' \<and>
              (\<exists>marker code b. (marker, code) \<in> set countryMarkers \<and>
                 markerMatches (rq_to request) marker \<and> b \<in> set (blockedRegions w) \<and>
                 br_regionCode b = code \<and> br_isActive b \<and>
                 sr_error r = Some (''Compliance violation: '' @ br_reason b)))))"
proof (intro conjI impI)
  from processEmailSend_cases [of request w trackingId] obtain codes rc where
    rc: "complianceLoop countryMarkers (rq_to request) w =
           (rc, w\<lparr>trace := trace w @ map SelectBlockedRegion codes\<rparr>)"
    and cases: "(\<exists>e. rc = Inl e \<and>
           processEmailSend request trackingId w =
             (Inr \<lparr>sr_success = False, sr_emailId = None, sr_trackingId = None,
                   sr_message = ''Failed to process email request'', sr_error = Some e\<rparr>,
              w\<lparr>trace := trace w @ map SelectBlockedRegion codes\<rparr>)) \<or>
      (\<exists>c. rc = Inr c \<and> \<not> ec_allowed c \<and>
           processEmailSend request trackingId w =
             (Inr \<lparr>sr_success = False, sr_emailId = None, sr_trackingId = None,
                   sr_message = ''Recipient is in a blocked region'',
                   sr_error = Some (''Compliance violation: '' @
                                      (case ec_reason c of None \<Rightarrow> ''undefined'' | Some r \<Rightarrow> r))\<rparr>,
              w\<lparr>trace := trace w @ map SelectBlockedRegion codes\<rparr>)) \<or>
      (\<exists>c r2 w2. rc = Inr c \<and> ec_allowed c \<and>
           renderAndSend request trackingId (w\<lparr>trace := trace w @ map SelectBlockedRegion codes\<rparr>)
             = (r2, w2) \<and>
           pipelinePost trackingId (w\<lparr>trace := trace w @ map SelectBlockedRegion codes\<rparr>) r2 w2 \<and>
           processEmailSend request trackingId w =
             (Inr (case r2 of
                     Inl e \<Rightarrow> \<lparr>sr_success = False, sr_emailId = None, sr_trackingId = None,
                               sr_message = ''Failed to process email request'',
                               sr_error = Some e\<rparr>
                   | Inr r \<Rightarrow> r), w2))"
    by blast
  let ?wc = "w\<lparr>trace := trace w @ map SelectBlockedRegion codes\<rparr>"
  show "\<exists>codes rest.
      trace (snd (processEmailSend request trackingId w)) =
        trace w @ map SelectBlockedRegion codes @ rest \<and>
      (\<forall>e \<in> set rest. \<not> isBlockedLookup e)"
    using cases
  proof (elim disjE exE conjE)
    fix c r2 w2
    assume "pipelinePost trackingId ?wc r2 w2"
      and run: "processEmailSend request trackingId w =
             (Inr (case r2 of
                     Inl e \<Rightarrow> \<lparr>sr_success = False, sr_emailId = None, sr_trackingId = None,
                               sr_message = ''Failed to process email request'',
                               sr_error = Some e\<rparr>
                   | Inr r \<Rightarrow> r), w2)"
    then obtain evs where "trace w2 = trace ?wc @ evs" "\<forall>e \<in> set evs. \<not> isBlockedLookup e"
      unfolding pipelinePost_def by blast
    with run have "trace (snd (processEmailSend request trackingId w)) =
        trace w @ map SelectBlockedRegion codes @ evs \<and> (\<forall>e \<in> set evs. \<not> isBlockedLookup e)"
      by simp
    then show ?thesis by blast
  next
    fix e
    assume "processEmailSend request trackingId w =
             (Inr \<lparr>sr_success = False, sr_emailId = None, sr_trackingId = None,
                   sr_message = ''Failed to process email request'', sr_error = Some e\<rparr>, ?wc)"
    then have "trace (snd (processEmailSend request trackingId w)) =
        trace w @ map SelectBlockedRegion codes @ [] \<and> (\<forall>e \<in> set []. \<not> isBlockedLookup e)"
      by simp
    then show ?thesis by blast
  next
    fix c
    assume "processEmailSend request trackingId w =
             (Inr \<lparr>sr_success = False, sr_emailId = None, sr_trackingId = None,
                   sr_message = ''Recipient is in a blocked region'',
                   sr_error = Some (''Compliance violation: '' @
                                      (case ec_reason c of None \<Rightarrow> ''undefined'' | Some r \<Rightarrow> r))\<rparr>,
              ?wc)"
    then have "trace (snd (processEmailSend request trackingId w)) =
        trace w @ map SelectBlockedRegion codes @ [] \<and> (\<forall>e \<in> set []. \<not> isBlockedLookup e)"
      by simp
    then show ?thesis by blast
  qed
  assume blocked: "blockedAddress (rq_to request) (blockedRegions w)"
  have not_allowed: "\<not> (\<exists>c. rc = Inr c \<and> ec_allowed c)"
  proof
    assume "\<exists>c. rc = Inr c \<and> ec_allowed c"
    then obtain c where "rc = Inr c" "ec_allowed c" by blast
    with rc complianceLoop_allowed [of countryMarkers "rq_to request" w c ?wc] blocked
    show False by (simp add: blockedAddress_def)
  qed
  show "\<exists>r codes.
           processEmailSend request trackingId w =
             (Inr r, w\<lparr>trace := trace w @ map SelectBlockedRegion codes\<rparr>) \<and>
           \<not> sr_success r \<and> sr_emailId r = None \<and>
           emails (snd (processEmailSend request trackingId w)) = emails w \<and>
           connections (snd (processEmailSend request trackingId w)) = connections w \<and>
           (\<forall>e \<in> set (map SelectBlockedRegion codes). \<not> isTransport e) \<and>
           ((\<forall>i. faults w i = None) \<longrightarrow>
              sr_message r = ''Recipient is in a blocked region'' \<and>
              (\<exists>marker code b. (marker, code) \<in> set countryMarkers \<and>
                 markerMatches (rq_to request) marker \<and> b \<in> set (blockedRegions w) \<and>
                 br_regionCode b = code \<and> br_isActive b \<and>
                 sr_error r = Some (''Compliance violation: '' @ br_reason b)))"
    using cases
  proof (elim disjE exE conjE)
    fix c r2 w2
    assume "rc = Inr c" "ec_allowed c"
    with not_allowed show ?thesis by blast
  next
    fix e
    assume e: "rc = Inl e"
      and run: "processEmailSend request trackingId w =
             (Inr \<lparr>sr_success = False, sr_emailId = None, sr_trackingId = None,
                   sr_message = ''Failed to process email request'', sr_error = Some e\<rparr>, ?wc)"
    have "\<not> (\<forall>i. faults w i = None)"
    proof
      assume "\<forall>i. faults w i = None"
      from complianceLoop_quiet [OF this, of countryMarkers "rq_to request"] rc e
      show False by simp
    qed
    with run show ?thesis
      by (intro exI [of _ "\<lparr>sr_success = False, sr_emailId = None, sr_trackingId = None,
                   sr_message = ''Failed to process email request'', sr_error = Some e\<rparr>"]
                exI [of _ codes]) simp
  next
    fix c
    assume c: "rc = Inr c" "\<not> ec_allowed c"
      and run: "processEmailSend request trackingId w =
             (Inr \<lparr>sr_success = False, sr_emailId = None, sr_trackingId = None,
                   sr_message = ''Recipient is in a blocked region'',
                   sr_error = Some (''Compliance violation: '' @
                                      (case ec_reason c of None \<Rightarrow> ''undefined'' | Some r \<Rightarrow> r))\<rparr>,
              ?wc)"
    from complianceLoop_blocked [of countryMarkers "rq_to request" w c ?wc] rc c
    obtain marker code b where b: "(marker, code) \<in> set countryMarkers"
      "markerMatches (rq_to request) marker" "b \<in> set (blockedRegions w)"
      "br_regionCode b = code" "br_isActive b" "ec_reason c = Some (br_reason b)"
      by blast
    then have "\<exists>marker code b. (marker, code) \<in> set countryMarkers \<and>
                 markerMatches (rq_to request) marker \<and> b \<in> set (blockedRegions w) \<and>
                 br_regionCode b = code \<and> br_isActive b \<and>
                 Some (''Compliance violation: '' @
                         (case ec_reason c of None \<Rightarrow> ''undefined'' | Some r \<Rightarrow> r)) =
                 Some (''Compliance violation: '' @ br_reason b)"
      by auto
    with run show ?thesis
      by (intro exI [of _ "\<lparr>sr_success = False, sr_emailId = None, sr_trackingId = None,
                   sr_message = ''Recipient is in a blocked region'',
                   sr_error = Some (''Compliance violation: '' @
                                      (case ec_reason c of None \<Rightarrow> ''undefined'' | Some r \<Rightarrow> r))\<rparr>"]
                exI [of _ codes]) simp
  qed
qed

text \<open>
  C2, as stated, fails for the check of the send pipeline: when the lookup throws, the
  check of email.ts does not report a result with \<open>allowed = False\<close>; it throws.
\<close>

theorem compliance_check_throws_counterexample:
  "fst (checkRegionCompliance_email ''user@mail.cu'' ''Global''
          (failingAt 0 ''db down'' sampleWorld)) = Inl ''db down''
   \<and> trace (snd (checkRegionCompliance_email ''user@mail.cu'' ''Global''
                   (failingAt 0 ''db down'' sampleWorld))) = [SelectBlockedRegion ''CU'']"
  by code_simp

text \<open>
  C2, amended. The check of the compliance service reports \<open>allowed = False\<close> when its
  lookup throws. In the send pipeline, when a lookup made by the compliance check throws,
  the check reports no result (the error propagates), and \<open>processEmailSend\<close> catches
  it and returns a failure: no email record is created and the only calls made are
  blocked-region lookups, so nothing is delivered.
\<close>

theorem compliance_fails_closed:
  "(faults w (length (trace w)) = Some e \<longrightarrow>
      fst (checkRegionCompliance_compliance regionCode w) =
        Inr \<lparr>cr_allowed = False,
             cr_region = Some (regionCode, ''System error during compliance check'')\<rparr>)
   \<and> ((\<exists>i. length (trace w) \<le> i \<and>
            i < length (trace (snd (checkRegionCompliance_email (rq_to request) region w))) \<and>
            faults w i \<noteq> None) \<longrightarrow>
        (\<exists>e. fst (checkRegionCompliance_email (rq_to request) region w) = Inl e) \<and>
        (\<exists>r codes.
           processEmailSend request trackingId w =
             (Inr r, w\<lparr>trace := trace w @ map SelectBlockedRegion codes\<rparr>) \<and>
           \<not> sr_success r \<and>
           emails (snd (processEmailSend request trackingId w)) = emails w \<and>
           (\<forall>e \<in> set (map SelectBlockedRegion codes). \<not> isTransport e)))"
proof (intro conjI impI)
  assume "faults w (length (trace w)) = Some e"
  then show "fst (checkRegionCompliance_compliance regionCode w) =
        Inr \<lparr>cr_allowed = False,
             cr_region = Some (regionCode, ''System error during compliance check'')\<rparr>"
    by (simp add: checkRegionCompliance_compliance_def catch_def await_def
          getBlockedRegionByCode_eq resolve_def)
next
  assume fault: "\<exists>i. length (trace w) \<le> i \<and>
            i < length (trace (snd (checkRegionCompliance_email (rq_to request) region w))) \<and>
            faults w i \<noteq> None"
  from processEmailSend_cases [of request w trackingId] obtain codes rc where
    rc: "complianceLoop countryMarkers (rq_to request) w =
           (rc, w\<lparr>trace := trace w @ map SelectBlockedRegion codes\<rparr>)"
    and cases: "(\<exists>e. rc = Inl e \<and>
           processEmailSend request trackingId w =
             (Inr \<lparr>sr_success = False, sr_emailId = None, sr_trackingId = None,
                   sr_message = ''Failed to process email request'', sr_error = Some e\<rparr>,
              w\<lparr>trace := trace w @ map SelectBlockedRegion codes\<rparr>)) \<or>
      (\<exists>c. rc = Inr c)"
    by blast
  let ?wc = "w\<lparr>trace := trace w @ map SelectBlockedRegion codes\<rparr>"
  have no: "\<not> (\<exists>c. rc = Inr c)"
  proof
    assume "\<exists>c. rc = Inr c"
    then obtain c where "rc = Inr c" by blast
    with rc have "complianceLoop countryMarkers (rq_to request) w = (Inr c, ?wc)" by simp
    from complianceLoop_no_fault [OF this] fault rc show False
      by (fastforce simp add: checkRegionCompliance_email_def)
  qed
  with cases obtain e where e: "rc = Inl e"
    and run: "processEmailSend request trackingId w =
             (Inr \<lparr>sr_success = False, sr_emailId = None, sr_trackingId = None,
                   sr_message = ''Failed to process email request'', sr_error = Some e\<rparr>, ?wc)"
    by blast
  from rc e show "\<exists>e. fst (checkRegionCompliance_email (rq_to request) region w) = Inl e"
    by (simp add: checkRegionCompliance_email_def)
  from run show "\<exists>r codes.
           processEmailSend request trackingId w =
             (Inr r, w\<lparr>trace := trace w @ map SelectBlockedRegion codes\<rparr>) \<and>
           \<not> sr_success r \<and>
           emails (snd (processEmailSend request trackingId w)) = emails w \<and>
           (\<forall>e \<in> set (map SelectBlockedRegion codes). \<not> isTransport e)"
    by (intro exI [of _ "\<lparr>sr_success = False, sr_emailId = None, sr_trackingId = None,
                   sr_message = ''Failed to process email request'', sr_error = Some e\<rparr>"]
              exI [of _ codes]) simp
qed





theorem blocked_region_rejected_witness:
  "blockedAddress (rq_to (sampleRequest ''user@mail.cu'')) (blockedRegions sampleWorld)
   \<and> fst (processEmailSend (sampleRequest ''user@mail.cu'') ''t-1'' sampleWorld) =
       Inr \<lparr>sr_success = False, sr_emailId = None, sr_trackingId = None,
            sr_message = ''Recipient is in a blocked region'',
            sr_error = Some ''Compliance violation: US Embargo''\<rparr>
   \<and> emails (snd (processEmailSend (sampleRequest ''user@mail.cu'') ''t-1'' sampleWorld)) =
       emails sampleWorld
   \<and> connections (snd (processEmailSend (sampleRequest ''user@mail.cu'') ''t-1'' sampleWorld)) =
       connections sampleWorld"
proof -
  have b: "blockedAddress (rq_to (sampleRequest ''user@mail.cu'')) (blockedRegions sampleWorld)"
    by code_simp
  have run: "fst (processEmailSend (sampleRequest ''user@mail.cu'') ''t-1'' sampleWorld) =
       Inr \<lparr>sr_success = False, sr_emailId = None, sr_trackingId = None,
            sr_message = ''Recipient is in a blocked region'',
            sr_error = Some ''Compliance violation: US Embargo''\<rparr>"
    by code_simp
  note T = blocked_region_rejected [of "sampleRequest ''user@mail.cu''" "''t-1''" sampleWorld]
  from T [THEN conjunct2, rule_format, OF b] obtain r codes where
    "emails (snd (processEmailSend (sampleRequest ''user@mail.cu'') ''t-1'' sampleWorld)) =
       emails sampleWorld"
    "connections (snd (processEmailSend (sampleRequest ''user@mail.cu'') ''t-1'' sampleWorld)) =
       connections sampleWorld"
    by blast
  with b run show ?thesis by simp
qed

theorem compliance_fails_closed_witness:
  "faults (failingAt 0 ''db down'' sampleWorld)
     (length (trace (failingAt 0 ''db down'' sampleWorld))) = Some ''db down''
   \<and> fst (checkRegionCompliance_compliance ''CU'' (failingAt 0 ''db down'' sampleWorld)) =
       Inr \<lparr>cr_allowed = False,
            cr_region = Some (''CU'', ''System error during compliance check'')\<rparr>
   \<and> (\<exists>e. fst (checkRegionCompliance_email (rq_to (sampleRequest ''user@mail.cu'')) ''Global''
                 (failingAt 0 ''db down'' sampleWorld)) = Inl e)
   \<and> (\<exists>r. fst (processEmailSend (sampleRequest ''user@mail.cu'') ''t-1''
                 (failingAt 0 ''db down'' sampleWorld)) = Inr r \<and> \<not> sr_success r)
   \<and> emails (snd (processEmailSend (sampleRequest ''user@mail.cu'') ''t-1''
                 (failingAt 0 ''db down'' sampleWorld))) =
       emails (failingAt 0 ''db down'' sampleWorld)"
proof -
  let ?w = "failingAt 0 ''db down'' sampleWorld"
  let ?rq = "sampleRequest ''user@mail.cu''"
  have f: "faults ?w (length (trace ?w)) = Some ''db down''"
    by code_simp
  have i: "length (trace ?w) \<le> 0 \<and>
           0 < length (trace (snd (checkRegionCompliance_email (rq_to ?rq) ''Global'' ?w))) \<and>
           faults ?w 0 \<noteq> None"
    by code_simp
  then have h: "\<exists>i. length (trace ?w) \<le> i \<and>
            i < length (trace (snd (checkRegionCompliance_email (rq_to ?rq) ''Global'' ?w))) \<and>
            faults ?w i \<noteq> None"
    by (rule exI)
  note T = compliance_fails_closed [of ?w "''db down''" "''CU''" ?rq "''Global''" "''t-1''"]
  from T [THEN conjunct1, rule_format, OF f]
  have a: "fst (checkRegionCompliance_compliance ''CU'' ?w) =
       Inr \<lparr>cr_allowed = False,
            cr_region = Some (''CU'', ''System error during compliance check'')\<rparr>" .
  from T [THEN conjunct2, rule_format, OF h]
  have c: "\<exists>e. fst (checkRegionCompliance_email (rq_to ?rq) ''Global'' ?w) = Inl e"
    and "\<exists>r codes.
           processEmailSend ?rq ''t-1'' ?w =
             (Inr r, ?w\<lparr>trace := trace ?w @ map SelectBlockedRegion codes\<rparr>) \<and>
           \<not> sr_success r \<and>
           emails (snd (processEmailSend ?rq ''t-1'' ?w)) = emails ?w \<and>
           (\<forall>e \<in> set (map SelectBlockedRegion codes). \<not> isTransport e)"
    by simp_all
  then obtain r codes where
    "processEmailSend ?rq ''t-1'' ?w =
             (Inr r, ?w\<lparr>trace := trace ?w @ map SelectBlockedRegion codes\<rparr>)"
    "\<not> sr_success r" "emails (snd (processEmailSend ?rq ''t-1'' ?w)) = emails ?w"
    by blast
  then have d: "\<exists>r. fst (processEmailSend ?rq ''t-1'' ?w) = Inr r \<and> \<not> sr_success r"
    and e: "emails (snd (processEmailSend ?rq ''t-1'' ?w)) = emails ?w"
    by simp_all
  from f a c d e show ?thesis by blast
qed

lemma selectAndSend_unavailable:
  assumes quiet: "\<forall>i. faults w i = None"
    and content: "html \<noteq> [] \<or> text \<noteq> []"
    and none: "filter sp_isActive (smtpProviders w) = []"
  shows "fst (selectAndSend request trackingId html text w) =
           Inr \<lparr>sr_success = False, sr_emailId = None, sr_trackingId = None,
                sr_message = ''No suitable SMTP provider available'',
                sr_error = Some ''Failed to find an active SMTP provider for this request''\<rparr>"
proof -
  have "filter (\<lambda>p. sp_region p = r \<and> sp_isActive p) (smtpProviders w) = []" for r
    using none by (auto simp: filter_empty_conv)
  then have reg: "regionProviders r (smtpProviders w) = []" for r
    by (simp add: regionProviders_def)
  have g: "fst (getSmtpProvider to volume w) = Inr None" for to volume
    using getSmtpProvider_fallback [of w to volume] quiet reg none by simp
  obtain w1 where "getSmtpProvider (rq_to request)
          (if rq_volume request = 0 then 1 else rq_volume request) w = (Inr None, w1)"
    using g [of "rq_to request" "if rq_volume request = 0 then 1 else rq_volume request"]
    by (cases "getSmtpProvider (rq_to request)
                 (if rq_volume request = 0 then 1 else rq_volume request) w") simp
  with content show ?thesis
    by (auto simp: selectAndSend_def await_def resolve_def)
qed

lemma renderAndSend_unavailable:
  assumes quiet: "\<forall>i. faults w i = None"
    and body: "requestContent request (templates w) = Some (html, text)"
    and content: "html \<noteq> [] \<or> text \<noteq> []"
    and none: "filter sp_isActive (smtpProviders w) = []"
  shows "fst (renderAndSend request trackingId w) =
           Inr \<lparr>sr_success = False, sr_emailId = None, sr_trackingId = None,
                sr_message = ''No suitable SMTP provider available'',
                sr_error = Some ''Failed to find an active SMTP provider for this request''\<rparr>"
proof (cases "templateIdOf request")
  case None
  with body have "renderAndSend request trackingId w = selectAndSend request trackingId html text w"
    by (auto simp: renderAndSend_def requestContent_def)
  with selectAndSend_unavailable [OF quiet content none] show ?thesis by simp
next
  case (Some templateId)
  with body obtain t where t: "find (\<lambda>t. tp_id t = templateId) (templates w) = Some t"
    and h: "html = processTemplate (tp_htmlContent t)
                        (case rq_variables request of None \<Rightarrow> Map.empty | Some v \<Rightarrow> v)"
    and p: "text = processTemplate (tp_textContent t)
                        (case rq_variables request of None \<Rightarrow> Map.empty | Some v \<Rightarrow> v)"
    by (auto simp: requestContent_def split: option.splits)
  let ?w1 = "w\<lparr>trace := trace w @ [SelectTemplate templateId]\<rparr>"
  have q1: "\<forall>i. faults ?w1 i = None" using quiet by simp
  have n1: "filter sp_isActive (smtpProviders ?w1) = []" using none by simp
  have "renderAndSend request trackingId w = selectAndSend request trackingId html text ?w1"
    using Some t h p quiet
    by (simp add: renderAndSend_def await_def getTemplate_eq Let_def)
  with selectAndSend_unavailable [OF q1 content n1] show ?thesis by simp
qed

lemma processEmailSend_unavailable:
  assumes quiet: "\<forall>i. faults w i = None"
    and free: "\<not> blockedAddress (rq_to request) (blockedRegions w)"
    and body: "requestContent request (templates w) = Some (html, text)"
    and content: "html \<noteq> [] \<or> text \<noteq> []"
    and none: "filter sp_isActive (smtpProviders w) = []"
  shows "fst (processEmailSend request trackingId w) =
           Inr \<lparr>sr_success = False, sr_emailId = None, sr_trackingId = None,
                sr_message = ''No suitable SMTP provider available'',
                sr_error = Some ''Failed to find an active SMTP provider for this request''\<rparr>"
proof -
  from complianceLoop_world [of countryMarkers "rq_to request" w] obtain codes where
    wc: "snd (complianceLoop countryMarkers (rq_to request) w) =
           w\<lparr>trace := trace w @ map SelectBlockedRegion codes\<rparr>"
    by blast
  let ?wc = "w\<lparr>trace := trace w @ map SelectBlockedRegion codes\<rparr>"
  from complianceLoop_quiet [OF quiet, of countryMarkers "rq_to request"] obtain c where
    c: "fst (complianceLoop countryMarkers (rq_to request) w) = Inr c"
    by blast
  with wc have run: "complianceLoop countryMarkers (rq_to request) w = (Inr c, ?wc)"
    by (simp add: prod_eq_iff)
  have allowed: "ec_allowed c"
  proof (rule ccontr)
    assume "\<not> ec_allowed c"
    from complianceLoop_blocked [OF run this] obtain marker code b where
      "(marker, code) \<in> set countryMarkers" "markerMatches (rq_to request) marker"
      "b \<in> set (blockedRegions w)" "br_regionCode b = code" "br_isActive b"
      by blast
    then have "blockedAddress (rq_to request) (blockedRegions w)"
      unfolding blockedAddress_def list_ex_iff by blast
    with free show False by simp
  qed
  have "fst (renderAndSend request trackingId ?wc) =
           Inr \<lparr>sr_success = False, sr_emailId = None, sr_trackingId = None,
                sr_message = ''No suitable SMTP provider available'',
                sr_error = Some ''Failed to find an active SMTP provider for this request''\<rparr>"
    using quiet body content none
    by (intro renderAndSend_unavailable [of ?wc request html "text"]) simp_all
  then obtain w2 where "renderAndSend request trackingId ?wc =
           (Inr \<lparr>sr_success = False, sr_emailId = None, sr_trackingId = None,
                sr_message = ''No suitable SMTP provider available'',
                sr_error = Some ''Failed to find an active SMTP provider for this request''\<rparr>, w2)"
    by (cases "renderAndSend request trackingId ?wc") simp
  with run allowed show ?thesis
    by (simp add: processEmailSend_def catch_def await_def checkRegionCompliance_email_def)
qed

text \<open>
  C4. \<open>providers\<close> is the region's active provider set in ascending priority order and
  \<open>active\<close> the globally active set. When the two queries do not fail,
  \<open>getSmtpProvider\<close> returns: with no region provider, null if there is no active
  provider at all, and otherwise the first of the active providers of least priority
  number; with region providers and a volume above 1000, the first region provider whose
  hourly capacity is at least the volume, or, when none qualifies, a region provider of
  greatest capacity; and otherwise the first region provider. When no active provider exists,
  a request that passes compliance and has content fails with the provider-unavailable
  result.
\<close>

theorem getSmtpProvider_selection:
  assumes "faults w (length (trace w)) = None" and "faults w (Suc (length (trace w))) = None"
  shows
    "(let providers = regionProviders (recipientRegion to) (smtpProviders w);
          active = filter sp_isActive (smtpProviders w)
      in set providers =
           {p \<in> set (smtpProviders w). sp_region p = recipientRegion to \<and> sp_isActive p}
       \<and> sorted (map sp_priority providers)
       \<and> (providers = [] \<and> active = [] \<longrightarrow> fst (getSmtpProvider to volume w) = Inr None)
       \<and> (providers = [] \<and> active \<noteq> [] \<longrightarrow>
            (\<exists>p. fst (getSmtpProvider to volume w) = Inr (Some p) \<and> p \<in> set active \<and>
                 (\<forall>q \<in> set active. sp_priority p \<le> sp_priority q) \<and>
                 find (\<lambda>q. sp_priority q = sp_priority p) active = Some p))
       \<and> (providers \<noteq> [] \<and> volume > 1000 \<and>
            (\<exists>p \<in> set providers. volume \<le> sp_maxSendsPerHour p) \<longrightarrow>
            (\<exists>p. fst (getSmtpProvider to volume w) = Inr (Some p) \<and>
                 find (\<lambda>p. volume \<le> sp_maxSendsPerHour p) providers = Some p))
       \<and> (providers \<noteq> [] \<and> volume > 1000 \<and>
            (\<forall>p \<in> set providers. sp_maxSendsPerHour p < volume) \<longrightarrow>
            (\<exists>p. fst (getSmtpProvider to volume w) = Inr (Some p) \<and> p \<in> set providers \<and>
                 (\<forall>q \<in> set providers. sp_maxSendsPerHour q \<le> sp_maxSendsPerHour p)))
       \<and> (providers \<noteq> [] \<and> volume \<le> 1000 \<longrightarrow>
            (\<exists>p rest. providers = p # rest \<and> fst (getSmtpProvider to volume w) = Inr (Some p))))
     \<and> ((\<forall>i. faults w i = None) \<and> \<not> blockedAddress (rq_to request) (blockedRegions w) \<and>
         requestContent request (templates w) = Some (html, text) \<and> (html \<noteq> [] \<or> text \<noteq> []) \<and>
         filter sp_isActive (smtpProviders w) = [] \<longrightarrow>
         fst (processEmailSend request trackingId w) =
           Inr \<lparr>sr_success = False, sr_emailId = None, sr_trackingId = None,
                sr_message = ''No suitable SMTP provider available'',
                sr_error = Some ''Failed to find an active SMTP provider for this request''\<rparr>)"
proof -
  define providers where "providers = regionProviders (recipientRegion to) (smtpProviders w)"
  define active where "active = filter sp_isActive (smtpProviders w)"
  have s: "set providers =
           {p \<in> set (smtpProviders w). sp_region p = recipientRegion to \<and> sp_isActive p}"
    unfolding providers_def by (rule regionProviders_set)
  have o: "sorted (map sp_priority providers)"
    unfolding providers_def by (rule regionProviders_sorted)
  have fb: "providers = [] \<Longrightarrow>
            fst (getSmtpProvider to volume w) =
              Inr (if active = [] then None else firstOf (sort_key sp_priority active))"
    unfolding providers_def active_def
    by (rule getSmtpProvider_fallback [OF assms])
  have rg: "providers \<noteq> [] \<Longrightarrow>
            fst (getSmtpProvider to volume w) =
              Inr (if volume > 1000 then
                     (if filter (\<lambda>p. sp_maxSendsPerHour p \<ge> volume) providers \<noteq> []
                      then firstOf (filter (\<lambda>p. sp_maxSendsPerHour p \<ge> volume) providers)
                      else firstOf (sort_key (\<lambda>p. - sp_maxSendsPerHour p) providers))
                   else firstOf providers)"
    unfolding providers_def
    using getSmtpProvider_region [OF assms(1), of to volume] by (simp add: Let_def)
  have c1: "providers = [] \<and> active = [] \<longrightarrow> fst (getSmtpProvider to volume w) = Inr None"
    using fb by simp
  have c2: "providers = [] \<and> active \<noteq> [] \<longrightarrow>
            (\<exists>p. fst (getSmtpProvider to volume w) = Inr (Some p) \<and> p \<in> set active \<and>
                 (\<forall>q \<in> set active. sp_priority p \<le> sp_priority q) \<and>
                 find (\<lambda>q. sp_priority q = sp_priority p) active = Some p)"
  proof
    assume a: "providers = [] \<and> active \<noteq> []"
    from a firstOf_sort_key [of active sp_priority] obtain p where
      "firstOf (sort_key sp_priority active) = Some p" "p \<in> set active"
      "\<forall>q \<in> set active. sp_priority p \<le> sp_priority q"
      "find (\<lambda>q. sp_priority q = sp_priority p) active = Some p"
      by blast
    with a fb show "\<exists>p. fst (getSmtpProvider to volume w) = Inr (Some p) \<and> p \<in> set active \<and>
                 (\<forall>q \<in> set active. sp_priority p \<le> sp_priority q) \<and>
                 find (\<lambda>q. sp_priority q = sp_priority p) active = Some p"
      by simp
  qed
  have c3: "providers \<noteq> [] \<and> volume > 1000 \<and>
            (\<exists>p \<in> set providers. volume \<le> sp_maxSendsPerHour p) \<longrightarrow>
            (\<exists>p. fst (getSmtpProvider to volume w) = Inr (Some p) \<and>
                 find (\<lambda>p. volume \<le> sp_maxSendsPerHour p) providers = Some p)"
  proof
    assume a: "providers \<noteq> [] \<and> volume > 1000 \<and>
            (\<exists>p \<in> set providers. volume \<le> sp_maxSendsPerHour p)"
    then have ne: "filter (\<lambda>p. sp_maxSendsPerHour p \<ge> volume) providers \<noteq> []"
      by (auto simp: filter_empty_conv)
    then obtain p where p: "find (\<lambda>p. volume \<le> sp_maxSendsPerHour p) providers = Some p"
      by (cases "find (\<lambda>p. volume \<le> sp_maxSendsPerHour p) providers")
         (auto simp: find_None_iff filter_empty_conv)
    with a ne rg show "\<exists>p. fst (getSmtpProvider to volume w) = Inr (Some p) \<and>
                 find (\<lambda>p. volume \<le> sp_maxSendsPerHour p) providers = Some p"
      by (simp add: firstOf_filter_find)
  qed
  have c4: "providers \<noteq> [] \<and> volume > 1000 \<and>
            (\<forall>p \<in> set providers. sp_maxSendsPerHour p < volume) \<longrightarrow>
            (\<exists>p. fst (getSmtpProvider to volume w) = Inr (Some p) \<and> p \<in> set providers \<and>
                 (\<forall>q \<in> set providers. sp_maxSendsPerHour q \<le> sp_maxSendsPerHour p))"
  proof
    assume a: "providers \<noteq> [] \<and> volume > 1000 \<and>
            (\<forall>p \<in> set providers. sp_maxSendsPerHour p < volume)"
    then have e: "filter (\<lambda>p. sp_maxSendsPerHour p \<ge> volume) providers = []"
      by (auto simp: filter_empty_conv)
    from a firstOf_sort_key [of providers "\<lambda>p. - sp_maxSendsPerHour p"] obtain p where
      "firstOf (sort_key (\<lambda>p. - sp_maxSendsPerHour p) providers) = Some p" "p \<in> set providers"
      "\<forall>q \<in> set providers. - sp_maxSendsPerHour p \<le> - sp_maxSendsPerHour q"
      by blast
    with a e rg show "\<exists>p. fst (getSmtpProvider to volume w) = Inr (Some p) \<and> p \<in> set providers \<and>
                 (\<forall>q \<in> set providers. sp_maxSendsPerHour q \<le> sp_maxSendsPerHour p)"
      by simp
  qed
  have c5: "providers \<noteq> [] \<and> volume \<le> 1000 \<longrightarrow>
            (\<exists>p rest. providers = p # rest \<and> fst (getSmtpProvider to volume w) = Inr (Some p))"
  proof
    assume a: "providers \<noteq> [] \<and> volume \<le> 1000"
    then obtain p rest where "providers = p # rest" by (cases providers) auto
    with a rg show "\<exists>p rest. providers = p # rest \<and>
                      fst (getSmtpProvider to volume w) = Inr (Some p)"
      by (simp add: firstOf_def)
  qed
  have un: "(\<forall>i. faults w i = None) \<and> \<not> blockedAddress (rq_to request) (blockedRegions w) \<and>
         requestContent request (templates w) = Some (html, text) \<and> (html \<noteq> [] \<or> text \<noteq> []) \<and>
         filter sp_isActive (smtpProviders w) = [] \<longrightarrow>
         fst (processEmailSend request trackingId w) =
           Inr \<lparr>sr_success = False, sr_emailId = None, sr_trackingId = None,
                sr_message = ''No suitable SMTP provider available'',
                sr_error = Some ''Failed to find an active SMTP provider for this request''\<rparr>"
    using processEmailSend_unavailable [of w request html "text" trackingId] by blast
  from s o c1 c2 c3 c4 c5 un show ?thesis
    unfolding Let_def providers_def active_def by (intro conjI)
qed

theorem getSmtpProvider_selection_witness:
  "fst (getSmtpProvider ''user@example.com'' 1 idleWorld) = Inr None
   \<and> fst (processEmailSend (sampleRequest ''user@example.com'') ''t-1'' idleWorld) =
       Inr \<lparr>sr_success = False, sr_emailId = None, sr_trackingId = None,
            sr_message = ''No suitable SMTP provider available'',
            sr_error = Some ''Failed to find an active SMTP provider for this request''\<rparr>
   \<and> (\<exists>p. fst (getSmtpProvider ''user+eu@example.com'' 1 routingWorld) = Inr (Some p) \<and>
           sp_id p = 2)
   \<and> (\<exists>p. fst (getSmtpProvider ''user@example.com'' 1100 routingWorld) = Inr (Some p) \<and>
           sp_id p = 1)
   \<and> (\<exists>p. fst (getSmtpProvider ''user@example.com'' 6000 routingWorld) = Inr (Some p) \<and>
           sp_id p = 3)
   \<and> (\<exists>p. fst (getSmtpProvider ''user@example.com'' 1 routingWorld) = Inr (Some p) \<and>
           sp_id p = 2)"
proof -
  have fi: "faults idleWorld (length (trace idleWorld)) = None"
           "faults idleWorld (Suc (length (trace idleWorld))) = None"
    by code_simp+
  have fr: "faults routingWorld (length (trace routingWorld)) = None"
           "faults routingWorld (Suc (length (trace routingWorld))) = None"
    by code_simp+
  note I = getSmtpProvider_selection [OF fi, unfolded Let_def,
             of "''user@example.com''" 1 "sampleRequest ''user@example.com''"
                "''<p>Hi</p>''" "[]" "''t-1''"]
  have h1: "regionProviders (recipientRegion ''user@example.com'') (smtpProviders idleWorld) = [] \<and>
            filter sp_isActive (smtpProviders idleWorld) = []"
    by code_simp
  from I [THEN conjunct1, THEN conjunct2, THEN conjunct2, THEN conjunct1, rule_format, OF h1]
  have a: "fst (getSmtpProvider ''user@example.com'' 1 idleWorld) = Inr None" .
  have q: "\<forall>i. faults idleWorld i = None"
    by (simp add: idleWorld_def sampleWorld_def)
  have nb: "\<not> blockedAddress (rq_to (sampleRequest ''user@example.com'')) (blockedRegions idleWorld)"
    by code_simp
  have rc: "requestContent (sampleRequest ''user@example.com'') (templates idleWorld) =
              Some (''<p>Hi</p>'', [])"
    by code_simp
  have h2: "(\<forall>i. faults idleWorld i = None) \<and>
            \<not> blockedAddress (rq_to (sampleRequest ''user@example.com'')) (blockedRegions idleWorld) \<and>
            requestContent (sampleRequest ''user@example.com'') (templates idleWorld) =
              Some (''<p>Hi</p>'', []) \<and>
            (''<p>Hi</p>'' \<noteq> [] \<or> ([]::string) \<noteq> []) \<and>
            filter sp_isActive (smtpProviders idleWorld) = []"
    using q nb rc h1 by simp
  from I [THEN conjunct2, rule_format, OF h2]
  have b: "fst (processEmailSend (sampleRequest ''user@example.com'') ''t-1'' idleWorld) =
       Inr \<lparr>sr_success = False, sr_emailId = None, sr_trackingId = None,
            sr_message = ''No suitable SMTP provider available'',
            sr_error = Some ''Failed to find an active SMTP provider for this request''\<rparr>" .
  note E = getSmtpProvider_selection [OF fr, unfolded Let_def,
             of "''user+eu@example.com''" 1, THEN conjunct1]
  have h3: "regionProviders (recipientRegion ''user+eu@example.com'') (smtpProviders routingWorld) = [] \<and>
            filter sp_isActive (smtpProviders routingWorld) \<noteq> []"
    by code_simp
  from E [THEN conjunct2, THEN conjunct2, THEN conjunct2, THEN conjunct1, rule_format, OF h3]
  obtain p where p: "fst (getSmtpProvider ''user+eu@example.com'' 1 routingWorld) = Inr (Some p)"
    by blast
  have "sp_id (the (projr (fst (getSmtpProvider ''user+eu@example.com'' 1 routingWorld)))) = 2"
    by code_simp
  with p have c: "\<exists>p. fst (getSmtpProvider ''user+eu@example.com'' 1 routingWorld) = Inr (Some p) \<and>
           sp_id p = 2"
    by simp
  note H = getSmtpProvider_selection [OF fr, unfolded Let_def,
             of "''user@example.com''" 1100, THEN conjunct1]
  have h4: "regionProviders (recipientRegion ''user@example.com'') (smtpProviders routingWorld) \<noteq> [] \<and>
            (1100::int) > 1000 \<and>
            (\<exists>p \<in> set (regionProviders (recipientRegion ''user@example.com'')
                          (smtpProviders routingWorld)). 1100 \<le> sp_maxSendsPerHour p)"
    by code_simp
  from H [THEN conjunct2, THEN conjunct2, THEN conjunct2, THEN conjunct2, THEN conjunct1,
          rule_format, OF h4]
  obtain p where p: "fst (getSmtpProvider ''user@example.com'' 1100 routingWorld) = Inr (Some p)"
    by blast
  have "sp_id (the (projr (fst (getSmtpProvider ''user@example.com'' 1100 routingWorld)))) = 1"
    by code_simp
  with p have d: "\<exists>p. fst (getSmtpProvider ''user@example.com'' 1100 routingWorld) = Inr (Some p) \<and>
           sp_id p = 1"
    by simp
  note G = getSmtpProvider_selection [OF fr, unfolded Let_def,
             of "''user@example.com''" 6000, THEN conjunct1]
  have h5: "regionProviders (recipientRegion ''user@example.com'') (smtpProviders routingWorld) \<noteq> [] \<and>
            (6000::int) > 1000 \<and>
            (\<forall>p \<in> set (regionProviders (recipientRegion ''user@example.com'')
                          (smtpProviders routingWorld)). sp_maxSendsPerHour p < 6000)"
    by code_simp
  from G [THEN conjunct2, THEN conjunct2, THEN conjunct2, THEN conjunct2, THEN conjunct2,
          THEN conjunct1, rule_format, OF h5]
  obtain p where p: "fst (getSmtpProvider ''user@example.com'' 6000 routingWorld) = Inr (Some p)"
    by blast
  have "sp_id (the (projr (fst (getSmtpProvider ''user@example.com'' 6000 routingWorld)))) = 3"
    by code_simp
  with p have e: "\<exists>p. fst (getSmtpProvider ''user@example.com'' 6000 routingWorld) = Inr (Some p) \<and>
           sp_id p = 3"
    by simp
  note L = getSmtpProvider_selection [OF fr, unfolded Let_def,
             of "''user@example.com''" 1, THEN conjunct1]
  have h6: "regionProviders (recipientRegion ''user@example.com'') (smtpProviders routingWorld) \<noteq> [] \<and>
            (1::int) \<le> 1000"
    by code_simp
  from L [THEN conjunct2, THEN conjunct2, THEN conjunct2, THEN conjunct2, THEN conjunct2,
          THEN conjunct2, rule_format, OF h6]
  obtain p where p: "fst (getSmtpProvider ''user@example.com'' 1 routingWorld) = Inr (Some p)"
    by blast
  have "sp_id (the (projr (fst (getSmtpProvider ''user@example.com'' 1 routingWorld)))) = 2"
    by code_simp
  with p have f: "\<exists>p. fst (getSmtpProvider ''user@example.com'' 1 routingWorld) = Inr (Some p) \<and>
           sp_id p = 2"
    by simp
  from a b c d e f show ?thesis by blast
qed

section \<open>Properties of the tracking service\<close>

lemma keepsStamps_refl: "keepsStamps e e"
  by (simp add: keepsStamps_def)

lemma keepsStamps_trans: "keepsStamps a b \<Longrightarrow> keepsStamps b c \<Longrightarrow> keepsStamps a c"
  by (auto simp: keepsStamps_def)

lemma keepsStamps_list_refl: "list_all2 keepsStamps xs xs"
  by (simp add: list_all2_refl keepsStamps_refl)

lemma keepsStamps_list_trans:
  "list_all2 keepsStamps xs ys \<Longrightarrow> list_all2 keepsStamps ys zs \<Longrightarrow> list_all2 keepsStamps xs zs"
  by (rule list_all2_trans [of keepsStamps keepsStamps keepsStamps])
     (auto intro: keepsStamps_trans)

lemma keepsStamps_stamp:
  "list_all2 keepsStamps xs
     (map (\<lambda>e. if em_trackingId e = trackingId \<and> untracked ty e
               then stampTracking ty stamp e else e) xs)"
proof -
  have "keepsStamps e (if em_trackingId e = trackingId \<and> untracked ty e
                        then stampTracking ty stamp e else e)" for e
    by (cases ty) (simp_all add: keepsStamps_def untracked_def stampTracking_def)
  then show ?thesis
    by (simp add: list_all2_conv_all_nth)
qed

lemma stamping_resolve: "stamping (resolve x)"
  by (simp add: stamping_def resolve_def keepsStamps_list_refl)

lemma stamping_state: "(\<And>w. emails (g w) = emails w) \<Longrightarrow> stamping (\<lambda>w. (r w, g w))"
  by (simp add: stamping_def keepsStamps_list_refl)

lemma stamping_external: "stamping (external ev)"
  by (simp add: stamping_def external_def keepsStamps_list_refl)

lemma stamping_await:
  assumes "stamping m" and "\<And>x. stamping (f x)"
  shows "stamping (await m f)"
proof (unfold stamping_def, intro allI)
  fix w
  obtain r w1 where m: "m w = (r, w1)" by (cases "m w")
  from assms(1) have "list_all2 keepsStamps (emails w) (emails (snd (m w)))"
    unfolding stamping_def by (rule spec)
  with m have 1: "list_all2 keepsStamps (emails w) (emails w1)" by simp
  show "list_all2 keepsStamps (emails w) (emails (snd (await m f w)))"
  proof (cases r)
    case (Inl e)
    with m 1 show ?thesis by (simp add: await_def)
  next
    case (Inr x)
    from assms(2) [of x] have "list_all2 keepsStamps (emails w1) (emails (snd (f x w1)))"
      unfolding stamping_def by (rule spec)
    with 1 have "list_all2 keepsStamps (emails w) (emails (snd (f x w1)))"
      by (rule keepsStamps_list_trans)
    with m Inr show ?thesis by (simp add: await_def)
  qed
qed

lemma stamping_catch:
  assumes "stamping m" and "\<And>e. stamping (h e)"
  shows "stamping (catch m h)"
proof (unfold stamping_def, intro allI)
  fix w
  obtain r w1 where m: "m w = (r, w1)" by (cases "m w")
  from assms(1) have "list_all2 keepsStamps (emails w) (emails (snd (m w)))"
    unfolding stamping_def by (rule spec)
  with m have 1: "list_all2 keepsStamps (emails w) (emails w1)" by simp
  show "list_all2 keepsStamps (emails w) (emails (snd (catch m h w)))"
  proof (cases r)
    case (Inr x)
    with m 1 show ?thesis by (simp add: catch_def)
  next
    case (Inl e)
    from assms(2) [of e] have "list_all2 keepsStamps (emails w1) (emails (snd (h e w1)))"
      unfolding stamping_def by (rule spec)
    with 1 have "list_all2 keepsStamps (emails w) (emails (snd (h e w1)))"
      by (rule keepsStamps_list_trans)
    with m Inl show ?thesis by (simp add: catch_def)
  qed
qed

lemma stamping_getEmailByTrackingId: "stamping (getEmailByTrackingId trackingId)"
  unfolding getEmailByTrackingId_def
  by (intro stamping_await stamping_external stamping_state) simp

lemma stamping_createSystemMetric: "stamping (createSystemMetric metric)"
  unfolding createSystemMetric_def
  by (intro stamping_await stamping_external stamping_state) simp

lemma stamping_logTrackingEvent: "stamping (logTrackingEvent i t ty)"
  unfolding logTrackingEvent_def
  by (intro stamping_await stamping_external stamping_state) simp

lemma stamping_updateEmailTracking: "stamping (updateEmailTracking trackingId ty)"
proof (unfold stamping_def, intro allI)
  fix w :: world
  let ?w1 = "w\<lparr>trace := trace w @ [UpdateEmailTracking trackingId ty]\<rparr>"
  let ?rows = "map (\<lambda>e. if em_trackingId e = trackingId \<and> untracked ty e
                          then stampTracking ty (now w) e else e) (emails w)"
  let ?w2 = "?w1\<lparr>emails := ?rows\<rparr>"
  have rows: "list_all2 keepsStamps (emails w) ?rows"
    by (rule keepsStamps_stamp)
  show "list_all2 keepsStamps (emails w) (emails (snd (updateEmailTracking trackingId ty w)))"
  proof (cases "faults w (length (trace w))")
    case (Some e)
    then have "snd (updateEmailTracking trackingId ty w) = ?w1"
      by (simp add: updateEmailTracking_def await_def external_def Let_def)
    then show ?thesis by (simp add: keepsStamps_list_refl)
  next
    case None
    show ?thesis
    proof (cases "find (\<lambda>e. em_trackingId e = trackingId \<and> untracked ty e) (emails w)")
      case nf: None
      with None have "snd (updateEmailTracking trackingId ty w) = ?w2"
        by (simp add: updateEmailTracking_def await_def external_def Let_def)
      with rows show ?thesis by simp
    next
      case (Some e0)
      let ?u = "stampTracking ty (now w) e0"
      from None Some have "snd (updateEmailTracking trackingId ty w) =
          snd (await (logTrackingEvent (em_id ?u) trackingId (trackingTypeName ty))
                 (\<lambda>_. resolve (Some ?u)) ?w2)"
        by (simp add: updateEmailTracking_def await_def external_def Let_def)
      moreover have "stamping (await (logTrackingEvent (em_id ?u) trackingId (trackingTypeName ty))
                 (\<lambda>_. resolve (Some ?u)))"
        by (intro stamping_await stamping_logTrackingEvent stamping_resolve)
      then have "list_all2 keepsStamps (emails ?w2)
          (emails (snd (await (logTrackingEvent (em_id ?u) trackingId (trackingTypeName ty))
                 (\<lambda>_. resolve (Some ?u)) ?w2)))"
        unfolding stamping_def by (rule spec)
      ultimately have "list_all2 keepsStamps ?rows
                         (emails (snd (updateEmailTracking trackingId ty w)))"
        by simp
      with rows show ?thesis by (rule keepsStamps_list_trans)
    qed
  qed
qed

lemma stamping_trackEmailOpen: "stamping (trackEmailOpen trackingId)"
proof -
  have upd: "stamping (await (updateEmailTracking trackingId Opened) (\<lambda>updatedEmail.
                  case updatedEmail of
                    None \<Rightarrow> resolve a
                  | Some _ \<Rightarrow> await (createSystemMetric x) (\<lambda>_. resolve b)))" for a b x
  proof (rule stamping_await [OF stamping_updateEmailTracking])
    fix updatedEmail :: "email option"
    show "stamping (case updatedEmail of
                    None \<Rightarrow> resolve a
                  | Some _ \<Rightarrow> await (createSystemMetric x) (\<lambda>_. resolve b))"
      by (cases updatedEmail)
         (simp_all add: stamping_resolve stamping_await stamping_createSystemMetric)
  qed
  show ?thesis
    unfolding trackEmailOpen_def
  proof (intro stamping_catch stamping_await stamping_getEmailByTrackingId stamping_resolve)
    fix found :: "email option"
    show "stamping (case found of
            None \<Rightarrow> resolve \<lparr>op_success = False, op_alreadyTracked = False, op_emailId = None\<rparr>
          | Some email \<Rightarrow>
              if em_openedAt email \<noteq> None then
                resolve \<lparr>op_success = True, op_alreadyTracked = True,
                         op_emailId = Some (em_id email)\<rparr>
              else
                await (updateEmailTracking trackingId Opened) (\<lambda>updatedEmail.
                  case updatedEmail of
                    None \<Rightarrow>
                      resolve \<lparr>op_success = False, op_alreadyTracked = False, op_emailId = None\<rparr>
                  | Some _ \<Rightarrow>
                      await (createSystemMetric
                               \<lparr>sm_metricName = ''email_opened'', sm_metricValue = ''1'',
                                sm_region = em_region email\<rparr>) (\<lambda>_.
                        resolve \<lparr>op_success = True, op_alreadyTracked = False,
                                 op_emailId = Some (em_id email)\<rparr>)))"
      by (cases found) (simp_all add: stamping_resolve upd)
  qed
qed

lemma stamping_trackEmailClick: "stamping (trackEmailClick trackingId url)"
proof -
  have metric: "stamping (if c then await (createSystemMetric x) (\<lambda>_. resolve ())
                          else resolve ())" for c x
    by (simp add: stamping_resolve stamping_await stamping_createSystemMetric)
  have upd: "stamping (await (updateEmailTracking trackingId Clicked) (\<lambda>updatedEmail.
                 await (if updatedEmail \<noteq> None \<and> \<not> a
                        then await (createSystemMetric x) (\<lambda>_. resolve ())
                        else resolve ()) (\<lambda>_. resolve (r updatedEmail))))" for a x r
    by (intro stamping_await stamping_updateEmailTracking metric stamping_resolve)
  show ?thesis
    unfolding trackEmailClick_def Let_def
  proof (intro stamping_catch stamping_await stamping_getEmailByTrackingId stamping_resolve)
    fix found :: "email option"
    show "stamping (case found of
             None \<Rightarrow>
               resolve \<lparr>ck_success = False, ck_alreadyTracked = False, ck_emailId = None,
                        ck_redirectUrl = orElse url ''/''\<rparr>
           | Some email \<Rightarrow>
               await (updateEmailTracking trackingId Clicked) (\<lambda>updatedEmail.
                  await (if updatedEmail \<noteq> None \<and> \<not> em_clickedAt email \<noteq> None
                         then await (createSystemMetric
                                       \<lparr>sm_metricName = ''email_clicked'', sm_metricValue = ''1'',
                                        sm_region = em_region email\<rparr>) (\<lambda>_. resolve ())
                         else resolve ()) (\<lambda>_.
                    resolve \<lparr>ck_success = (updatedEmail \<noteq> None),
                             ck_alreadyTracked = (em_clickedAt email \<noteq> None),
                             ck_emailId = Some (em_id email),
                             ck_redirectUrl = orElse url ''/''\<rparr>)))"
    proof (cases found)
      case None
      show ?thesis unfolding None option.case by (rule stamping_resolve)
    next
      case (Some email)
      show ?thesis unfolding Some option.case by (rule upd)
    qed
  qed
qed

lemma trackAll_keeps: "list_all2 keepsStamps (emails w) (emails (trackAll w calls))"
proof (induction calls arbitrary: w)
  case Nil
  show ?case by (simp add: keepsStamps_list_refl)
next
  case (Cons call calls)
  show ?case
  proof (cases call)
    case (OpenCall trackingId)
    from stamping_trackEmailOpen [of trackingId]
    have "list_all2 keepsStamps (emails w) (emails (snd (trackEmailOpen trackingId w)))"
      unfolding stamping_def by (rule spec)
    from keepsStamps_list_trans [OF this Cons.IH] OpenCall show ?thesis by simp
  next
    case (ClickCall trackingId url)
    from stamping_trackEmailClick [of trackingId url]
    have "list_all2 keepsStamps (emails w) (emails (snd (trackEmailClick trackingId url w)))"
      unfolding stamping_def by (rule spec)
    from keepsStamps_list_trans [OF this Cons.IH] ClickCall show ?thesis by simp
  qed
qed

lemma trackEmailOpen_again:
  assumes "faults w (length (trace w)) = None"
    and "find (\<lambda>e. em_trackingId e = trackingId) (emails w) = Some e"
    and "em_openedAt e \<noteq> None"
  shows "trackEmailOpen trackingId w =
           (Inr \<lparr>op_success = True, op_alreadyTracked = True, op_emailId = Some (em_id e)\<rparr>,
            w\<lparr>trace := trace w @ [SelectEmailByTrackingId trackingId]\<rparr>)"
  using assms
  by (simp add: trackEmailOpen_def catch_def await_def getEmailByTrackingId_eq resolve_def)

text \<open>
  C6. After any run of open and click callbacks, with any tracking ids, at any times and
  with any failures of the data store, the table holds the same records in the same order,
  and every record whose \<open>openedAt\<close> (\<open>clickedAt\<close>) was set before still has the same
  \<open>openedAt\<close> (\<open>clickedAt\<close>): a timestamp is set at most once and never overwritten or
  cleared. An open callback for a record that is already opened reports
  \<open>alreadyTracked\<close> and changes nothing but the trace of calls.
\<close>

theorem tracking_stamps_kept:
  "list_all2 keepsStamps (emails w) (emails (trackAll w calls))
   \<and> (faults w (length (trace w)) = None \<and>
       find (\<lambda>e. em_trackingId e = trackingId) (emails w) = Some e \<and>
       em_openedAt e \<noteq> None \<longrightarrow>
       trackEmailOpen trackingId w =
         (Inr \<lparr>op_success = True, op_alreadyTracked = True, op_emailId = Some (em_id e)\<rparr>,
          w\<lparr>trace := trace w @ [SelectEmailByTrackingId trackingId]\<rparr>))"
  using trackAll_keeps [of w calls] trackEmailOpen_again [of w trackingId e] by blast

theorem tracking_stamps_kept_witness:
  "map em_openedAt (emails (trackAll openedWorld
       [OpenCall ''t-1'', ClickCall ''t-1'' ''http://example.com/'', OpenCall ''t-1''])) = [Some 7]
   \<and> trackEmailOpen ''t-1'' openedWorld =
       (Inr \<lparr>op_success = True, op_alreadyTracked = True, op_emailId = Some 1\<rparr>,
        openedWorld\<lparr>trace := trace openedWorld @ [SelectEmailByTrackingId ''t-1'']\<rparr>)"
proof -
  let ?calls = "[OpenCall ''t-1'', ClickCall ''t-1'' ''http://example.com/'', OpenCall ''t-1'']"
  note T = tracking_stamps_kept [of openedWorld ?calls "''t-1''" openedEmail]
  have e: "emails openedWorld = [openedEmail]"
    by (simp add: openedWorld_def)
  from T [THEN conjunct1] e obtain e' where
    e': "emails (trackAll openedWorld ?calls) = [e']" and k: "keepsStamps openedEmail e'"
    by (auto simp: list_all2_Cons1)
  have "em_openedAt openedEmail = Some 7"
    by (simp add: openedEmail_def)
  with k have "em_openedAt e' = Some 7"
    by (simp add: keepsStamps_def)
  with e' have a: "map em_openedAt (emails (trackAll openedWorld ?calls)) = [Some 7]"
    by simp
  have h: "faults openedWorld (length (trace openedWorld)) = None \<and>
       find (\<lambda>e. em_trackingId e = ''t-1'') (emails openedWorld) = Some openedEmail \<and>
       em_openedAt openedEmail \<noteq> None"
    by (simp add: openedWorld_def sampleWorld_def openedEmail_def)
  from T [THEN conjunct2, rule_format, OF h]
  have "trackEmailOpen ''t-1'' openedWorld =
       (Inr \<lparr>op_success = True, op_alreadyTracked = True, op_emailId = Some (em_id openedEmail)\<rparr>,
        openedWorld\<lparr>trace := trace openedWorld @ [SelectEmailByTrackingId ''t-1'']\<rparr>)" .
  then have b: "trackEmailOpen ''t-1'' openedWorld =
       (Inr \<lparr>op_success = True, op_alreadyTracked = True, op_emailId = Some 1\<rparr>,
        openedWorld\<lparr>trace := trace openedWorld @ [SelectEmailByTrackingId ''t-1'']\<rparr>)"
    by (simp add: openedEmail_def)
  from a b show ?thesis by (rule conjI)
qed

lemma total_trackEmailClick: "total (trackEmailClick trackingId url)"
  unfolding trackEmailClick_def
  by (intro total_catch total_resolve)

lemma returns_trackEmailClick:
  "returns (\<lambda>r. ck_redirectUrl r = orElse url ''/'') (trackEmailClick trackingId url)"
proof -
  let ?Q = "\<lambda>r. ck_redirectUrl r = orElse url ''/''"
  have res: "?Q \<lparr>ck_success = a, ck_alreadyTracked = b, ck_emailId = c,
                 ck_redirectUrl = orElse url ''/''\<rparr>" for a b c
    by simp
  have found: "returns ?Q (case found of
             None \<Rightarrow>
               resolve \<lparr>ck_success = False, ck_alreadyTracked = False, ck_emailId = None,
                        ck_redirectUrl = orElse url ''/''\<rparr>
           | Some email \<Rightarrow>
               await (updateEmailTracking trackingId Clicked) (\<lambda>updatedEmail.
                  await (if updatedEmail \<noteq> None \<and> \<not> em_clickedAt email \<noteq> None
                         then await (createSystemMetric
                                       \<lparr>sm_metricName = ''email_clicked'', sm_metricValue = ''1'',
                                        sm_region = em_region email\<rparr>) (\<lambda>_. resolve ())
                         else resolve ()) (\<lambda>_.
                    resolve \<lparr>ck_success = (updatedEmail \<noteq> None),
                             ck_alreadyTracked = (em_clickedAt email \<noteq> None),
                             ck_emailId = Some (em_id email),
                             ck_redirectUrl = orElse url ''/''\<rparr>)))" for found
  proof (cases found)
    case None
    show ?thesis unfolding None option.case by (intro returns_resolve res)
  next
    case (Some email)
    show ?thesis unfolding Some option.case by (intro returns_await returns_resolve res)
  qed
  show ?thesis
    unfolding trackEmailClick_def Let_def
    by (intro returns_catch returns_await found returns_resolve res)
qed

lemma updateEmailTracking_events:
  fixes w :: world
  shows "emailTrackingEvents (snd (updateEmailTracking trackingId ty w)) = emailTrackingEvents w \<or>
   (\<exists>e \<in> set (emails w). em_trackingId e = trackingId \<and> untracked ty e \<and>
      emailTrackingEvents (snd (updateEmailTracking trackingId ty w)) =
        emailTrackingEvents w @
          [\<lparr>te_emailId = em_id e, te_trackingId = trackingId,
            te_eventType = trackingTypeName ty\<rparr>])"
proof (cases "find (\<lambda>e. em_trackingId e = trackingId \<and> untracked ty e) (emails w)")
  case None
  then show ?thesis
    by (simp add: updateEmailTracking_def await_def external_def Let_def split: option.splits)
next
  case (Some e0)
  then have e0: "e0 \<in> set (emails w)" "em_trackingId e0 = trackingId" "untracked ty e0"
    by (auto simp: find_Some_iff in_set_conv_nth)
  have id: "em_id (stampTracking ty s e0) = em_id e0" for s
    by (cases ty) (simp_all add: stampTracking_def)
  have "emailTrackingEvents (snd (updateEmailTracking trackingId ty w)) = emailTrackingEvents w \<or>
        emailTrackingEvents (snd (updateEmailTracking trackingId ty w)) =
        emailTrackingEvents w @
          [\<lparr>te_emailId = em_id e0, te_trackingId = trackingId,
            te_eventType = trackingTypeName ty\<rparr>]"
    using Some
    by (simp add: updateEmailTracking_def logTrackingEvent_def await_def external_def Let_def
          resolve_def id split: option.splits)
  with e0 show ?thesis by blast
qed

section \<open>Click tracking\<close>

lemma createSystemMetric_events:
  "emailTrackingEvents (snd (createSystemMetric metric w)) = emailTrackingEvents w"
  by (simp add: createSystemMetric_def await_def external_def split: option.splits)

lemma getEmailByTrackingId_found:
  assumes "getEmailByTrackingId trackingId w = (Inr (Some email), w')"
  shows "emailTrackingEvents w' = emailTrackingEvents w \<and> emails w' = emails w
         \<and> email \<in> set (emails w) \<and> em_trackingId email = trackingId"
proof -
  from assms have w': "w' = w\<lparr>trace := trace w @ [SelectEmailByTrackingId trackingId]\<rparr>"
    and f: "find (\<lambda>e. em_trackingId e = trackingId) (emails w) = Some email"
    by (simp_all add: getEmailByTrackingId_eq split: option.splits)
  from f have "email \<in> set (emails w)" "em_trackingId email = trackingId"
    by (auto simp: find_Some_iff in_set_conv_nth)
  with w' show ?thesis by simp
qed

lemma getEmailByTrackingId_events:
  "emailTrackingEvents (snd (getEmailByTrackingId trackingId w)) = emailTrackingEvents w"
  by (simp add: getEmailByTrackingId_eq)

lemma clickTail_events:
  "emailTrackingEvents
     (snd (await (if c then await (createSystemMetric metric) (\<lambda>_. resolve ()) else resolve ())
             (\<lambda>_. resolve r) w)) = emailTrackingEvents w"
proof (cases c)
  case True
  obtain x v where m: "createSystemMetric metric w = (x, v)" by (cases "createSystemMetric metric w")
  with createSystemMetric_events [of metric w] have "emailTrackingEvents v = emailTrackingEvents w"
    by simp
  with True m show ?thesis
    by (cases x) (simp_all add: await_def resolve_def)
next
  case False
  then show ?thesis by (simp add: await_def resolve_def)
qed

lemma trackEmailClick_events_missing:
  assumes "\<And>email. fst (getEmailByTrackingId trackingId w) \<noteq> Inr (Some email)"
  shows "emailTrackingEvents (snd (trackEmailClick trackingId url w)) = emailTrackingEvents w"
proof -
  obtain x w1 where g: "getEmailByTrackingId trackingId w = (x, w1)"
    by (cases "getEmailByTrackingId trackingId w")
  with getEmailByTrackingId_events [of trackingId w]
  have e1: "emailTrackingEvents w1 = emailTrackingEvents w" by simp
  show ?thesis
  proof (cases x)
    case (Inl err)
    with g e1 show ?thesis
      by (simp add: trackEmailClick_def catch_def await_def resolve_def)
  next
    case (Inr found)
    with assms g have "found = None" by (cases found) auto
    with g e1 Inr show ?thesis
      by (simp add: trackEmailClick_def catch_def await_def resolve_def)
  qed
qed

lemma trackEmailClick_events_found:
  assumes g: "getEmailByTrackingId trackingId w = (Inr (Some email), w1)"
  shows "emailTrackingEvents (snd (trackEmailClick trackingId url w)) =
         emailTrackingEvents (snd (updateEmailTracking trackingId Clicked w1))"
proof -
  obtain y w2 where u: "updateEmailTracking trackingId Clicked w1 = (y, w2)"
    by (cases "updateEmailTracking trackingId Clicked w1")
  have "emailTrackingEvents (snd (trackEmailClick trackingId url w)) = emailTrackingEvents w2"
  proof (cases y)
    case (Inl err)
    with g u show ?thesis
      by (simp add: trackEmailClick_def catch_def await_def resolve_def)
  next
    case (Inr updatedEmail)
    obtain z w3 where t: "await (if updatedEmail \<noteq> None \<and> \<not> em_clickedAt email \<noteq> None
                     then await (createSystemMetric
                                   \<lparr>sm_metricName = ''email_clicked'', sm_metricValue = ''1'',
                                    sm_region = em_region email\<rparr>) (\<lambda>_. resolve ())
                     else resolve ()) (\<lambda>_.
                resolve \<lparr>ck_success = (updatedEmail \<noteq> None),
                         ck_alreadyTracked = (em_clickedAt email \<noteq> None),
                         ck_emailId = Some (em_id email),
                         ck_redirectUrl = orElse url ''/''\<rparr>) w2 = (z, w3)"
      (is "?tail w2 = _")
      by (cases "?tail w2")
    with clickTail_events [of _ _ _ w2] have "emailTrackingEvents w3 = emailTrackingEvents w2"
      by (metis snd_conv)
    moreover have "snd (trackEmailClick trackingId url w) = w3"
      using g u Inr t
      by (cases z) (simp_all add: trackEmailClick_def catch_def await_def resolve_def Let_def)
    ultimately show ?thesis by simp
  qed
  with u show ?thesis by simp
qed

lemma trackEmailClick_events:
  "emailTrackingEvents (snd (trackEmailClick trackingId url w)) = emailTrackingEvents w \<or>
   (\<exists>e \<in> set (emails w). em_trackingId e = trackingId \<and> em_clickedAt e = None \<and>
      emailTrackingEvents (snd (trackEmailClick trackingId url w)) =
        emailTrackingEvents w @
          [\<lparr>te_emailId = em_id e, te_trackingId = trackingId, te_eventType = ''clicked''\<rparr>])"
proof (cases "\<exists>email. fst (getEmailByTrackingId trackingId w) = Inr (Some email)")
  case False
  then have "emailTrackingEvents (snd (trackEmailClick trackingId url w)) = emailTrackingEvents w"
    by (intro trackEmailClick_events_missing) simp
  then show ?thesis by (rule disjI1)
next
  case True
  then obtain email w1 where g: "getEmailByTrackingId trackingId w = (Inr (Some email), w1)"
    by (cases "getEmailByTrackingId trackingId w") auto
  from getEmailByTrackingId_found [OF g]
  have w1: "emailTrackingEvents w1 = emailTrackingEvents w" "emails w1 = emails w"
    by simp_all
  from updateEmailTracking_events [of trackingId Clicked w1]
    trackEmailClick_events_found [OF g, of url] w1
  show ?thesis
    by (simp add: untracked_def trackingTypeName_def)
qed

lemma find_conj:
  "find P xs = Some x \<Longrightarrow> Q x \<Longrightarrow> find (\<lambda>y. P y \<and> Q y) xs = Some x"
  by (induction xs) (auto split: if_splits)

lemma trackEmailClick_first:
  assumes f: "faults w = (\<lambda>_. None)"
    and e: "find (\<lambda>e. em_trackingId e = trackingId) (emails w) = Some e"
    and c: "em_clickedAt e = None"
  shows "emailTrackingEvents (snd (trackEmailClick trackingId url w)) =
         emailTrackingEvents w @
           [\<lparr>te_emailId = em_id e, te_trackingId = trackingId, te_eventType = ''clicked''\<rparr>]"
proof -
  let ?w1 = "w\<lparr>trace := trace w @ [SelectEmailByTrackingId trackingId]\<rparr>"
  from f e have g: "getEmailByTrackingId trackingId w = (Inr (Some e), ?w1)"
    by (simp add: getEmailByTrackingId_eq)
  from e c
  have h: "find (\<lambda>x. em_trackingId x = trackingId \<and> untracked Clicked x) (emails ?w1) = Some e"
    by (simp add: find_conj untracked_def)
  have "emailTrackingEvents (snd (updateEmailTracking trackingId Clicked ?w1)) =
        emailTrackingEvents w @
           [\<lparr>te_emailId = em_id e, te_trackingId = trackingId, te_eventType = ''clicked''\<rparr>]"
    using f h
    by (simp add: updateEmailTracking_def logTrackingEvent_def await_def external_def Let_def
          resolve_def stampTracking_def trackingTypeName_def)
  with trackEmailClick_events_found [OF g, of url] show ?thesis by simp
qed

lemma clickHandler_world:
  "snd (clickHandler trackingId query w) =
     (case fst (clickHandler trackingId query w) of
        Redirect u \<Rightarrow> snd (trackEmailClick trackingId u w)
      | _ \<Rightarrow> w)"
proof (cases query)
  case None
  then show ?thesis by (simp add: clickHandler_def)
next
  case (Some u)
  from returns_trackEmailClick [of u trackingId] total_trackEmailClick [of trackingId u]
  obtain r where r: "fst (trackEmailClick trackingId u w) = Inr r" "ck_redirectUrl r = orElse u ''/''"
    unfolding returns_def total_def by metis
  show ?thesis
  proof (cases "trackingId = [] \<or> u = []")
    case True
    with Some show ?thesis by (simp add: clickHandler_def)
  next
    case False
    with Some r show ?thesis
      by (cases "trackEmailClick trackingId u w") (simp add: clickHandler_def orElse_def)
  qed
qed

lemma clickHandler_response:
  "fst (clickHandler trackingId query w) =
     (case query of
        None \<Rightarrow> BadRequest
      | Some u \<Rightarrow> if trackingId = [] \<or> u = [] then BadRequest else Redirect u)"
proof (cases query)
  case None
  then show ?thesis by (simp add: clickHandler_def)
next
  case (Some u)
  from returns_trackEmailClick [of u trackingId] total_trackEmailClick [of trackingId u]
  obtain r where r: "fst (trackEmailClick trackingId u w) = Inr r" "ck_redirectUrl r = orElse u ''/''"
    unfolding returns_def total_def by metis
  show ?thesis
  proof (cases "trackingId = [] \<or> u = []")
    case True
    with Some show ?thesis by (simp add: clickHandler_def)
  next
    case False
    with Some r show ?thesis
      by (cases "trackEmailClick trackingId u w") (simp add: clickHandler_def orElse_def)
  qed
qed

lemma clickEndpoint_eq:
  "clickEndpoint ip time trackingId query sw =
     (if lr_status (fst (createRateLimiter Tracking ip time sw)) \<noteq> None
      then (TooManyRequests, snd (createRateLimiter Tracking ip time sw))
      else (fst (clickHandler trackingId query (snd (snd (createRateLimiter Tracking ip time sw)))),
            fst (snd (createRateLimiter Tracking ip time sw)),
            snd (clickHandler trackingId query (snd (snd (createRateLimiter Tracking ip time sw))))))"
  by (simp add: clickEndpoint_def split_def Let_def)

lemma trackingLimiter_status:
  "lr_status (fst (createRateLimiter Tracking ip time (store, w))) \<noteq> None \<longleftrightarrow>
   500 < re_count (fst (increment time (limiterKey Tracking ip) 60000 store))"
  by (simp add: createRateLimiter_status defaultRules_def)

lemma clickEndpoint_response:
  "fst (clickEndpoint ip time trackingId query (store, w)) =
     (if 500 < re_count (fst (increment time (limiterKey Tracking ip) 60000 store))
      then TooManyRequests
      else case query of
             None \<Rightarrow> BadRequest
           | Some u \<Rightarrow> if trackingId = [] \<or> u = [] then BadRequest else Redirect u)"
  unfolding clickEndpoint_eq trackingLimiter_status
  by (simp add: clickHandler_response)

lemma clickEndpoint_world:
  "snd (snd (clickEndpoint ip time trackingId query (store, w))) =
     (case fst (clickEndpoint ip time trackingId query (store, w)) of
        Redirect u \<Rightarrow>
          snd (trackEmailClick trackingId u (snd (snd (createRateLimiter Tracking ip time (store, w)))))
      | _ \<Rightarrow> snd (snd (createRateLimiter Tracking ip time (store, w))))"
  unfolding clickEndpoint_eq
  by (simp add: clickHandler_world)

text \<open>
  C7, as stated, fails: a click with a tracking id that no email carries appends no
  tracking event, although the visitor is redirected; and the endpoint does not redirect a
  request without a url, nor a request that its rate limiter refuses.
\<close>

theorem click_event_counterexample:
  "fst (clickEndpoint ''10.0.0.1'' 0 ''no-such-id'' (Some ''http://example.com/'')
          (Map.empty, openedWorld)) = Redirect ''http://example.com/''
   \<and> emailTrackingEvents
        (snd (snd (clickEndpoint ''10.0.0.1'' 0 ''no-such-id'' (Some ''http://example.com/'')
                     (Map.empty, openedWorld)))) = []
   \<and> emailTrackingEvents
        (snd (trackEmailClick ''no-such-id'' ''http://example.com/'' openedWorld)) = []
   \<and> fst (clickEndpoint ''10.0.0.1'' 0 ''t-1'' None (Map.empty, openedWorld)) = BadRequest
   \<and> fst (clickEndpoint ''10.0.0.1'' 1 ''t-1'' (Some ''http://example.com/'')
            ([limiterKey Tracking ''10.0.0.1'' \<mapsto> \<lparr>re_count = 500, re_resetTime = 60000\<rparr>],
             openedWorld)) = TooManyRequests"
  by (simp add: clickEndpoint_def clickHandler_def createRateLimiter_def increment_def
        defaultRules_def detached_def createSystemMetric_def external_def
        trackEmailClick_def getEmailByTrackingId_eq catch_def await_def
        resolve_def openedWorld_def sampleWorld_def openedEmail_def orElse_def Let_def)

text \<open>
  C7, amended. Every invocation of \<open>trackEmailClick\<close> returns a redirect target, the
  given url or \<open>/\<close> when the url is empty, also when the tracking id does not exist or
  the data store fails at any call. The endpoint answers 429 when its rate limiter refuses
  the request (more than 500 tracking requests of the address in the window), else 400
  when the tracking id or the url is missing or empty, and else it redirects to the given
  url, whatever the tracking does; only then \<open>trackEmailClick\<close> has run. An invocation
  appends at most one tracking event, a \<open>clicked\<close> event of an email with that
  tracking id that was not clicked before, and it does append it at the first click on an
  email when the data store does not fail.
\<close>

theorem click_always_redirects:
  "(\<exists>r. fst (trackEmailClick trackingId url w) = Inr r \<and> ck_redirectUrl r = orElse url ''/'')
   \<and> fst (clickEndpoint ip time trackingId query (store, w)) =
       (if 500 < re_count (fst (increment time (limiterKey Tracking ip) 60000 store))
        then TooManyRequests
        else case query of
               None \<Rightarrow> BadRequest
             | Some u \<Rightarrow> if trackingId = [] \<or> u = [] then BadRequest else Redirect u)
   \<and> snd (snd (clickEndpoint ip time trackingId query (store, w))) =
       (case fst (clickEndpoint ip time trackingId query (store, w)) of
          Redirect u \<Rightarrow>
            snd (trackEmailClick trackingId u
                   (snd (snd (createRateLimiter Tracking ip time (store, w)))))
        | _ \<Rightarrow> snd (snd (createRateLimiter Tracking ip time (store, w))))
   \<and> emailTrackingEvents (snd (snd (createRateLimiter Tracking ip time (store, w)))) =
       emailTrackingEvents w
   \<and> (emailTrackingEvents (snd (trackEmailClick trackingId url w)) = emailTrackingEvents w \<or>
        (\<exists>e \<in> set (emails w). em_trackingId e = trackingId \<and> em_clickedAt e = None \<and>
           emailTrackingEvents (snd (trackEmailClick trackingId url w)) =
             emailTrackingEvents w @
               [\<lparr>te_emailId = em_id e, te_trackingId = trackingId, te_eventType = ''clicked''\<rparr>]))
   \<and> (faults w = (\<lambda>_. None) \<and>
        find (\<lambda>e. em_trackingId e = trackingId) (emails w) = Some email \<and>
        em_clickedAt email = None \<longrightarrow>
        emailTrackingEvents (snd (trackEmailClick trackingId url w)) =
          emailTrackingEvents w @
            [\<lparr>te_emailId = em_id email, te_trackingId = trackingId, te_eventType = ''clicked''\<rparr>])"
proof (intro conjI impI)
  from returns_trackEmailClick [of url trackingId] total_trackEmailClick [of trackingId url]
  show "\<exists>r. fst (trackEmailClick trackingId url w) = Inr r \<and> ck_redirectUrl r = orElse url ''/''"
    unfolding returns_def total_def by metis
next
  show "fst (clickEndpoint ip time trackingId query (store, w)) =
       (if 500 < re_count (fst (increment time (limiterKey Tracking ip) 60000 store))
        then TooManyRequests
        else case query of
               None \<Rightarrow> BadRequest
             | Some u \<Rightarrow> if trackingId = [] \<or> u = [] then BadRequest else Redirect u)"
    by (rule clickEndpoint_response)
next
  show "snd (snd (clickEndpoint ip time trackingId query (store, w))) =
       (case fst (clickEndpoint ip time trackingId query (store, w)) of
          Redirect u \<Rightarrow>
            snd (trackEmailClick trackingId u
                   (snd (snd (createRateLimiter Tracking ip time (store, w)))))
        | _ \<Rightarrow> snd (snd (createRateLimiter Tracking ip time (store, w))))"
    by (rule clickEndpoint_world)
next
  show "emailTrackingEvents (snd (snd (createRateLimiter Tracking ip time (store, w)))) =
       emailTrackingEvents w"
    by (simp add: createRateLimiter_def Let_def split_def detached_def createSystemMetric_events)
next
  show "emailTrackingEvents (snd (trackEmailClick trackingId url w)) = emailTrackingEvents w \<or>
        (\<exists>e \<in> set (emails w). em_trackingId e = trackingId \<and> em_clickedAt e = None \<and>
           emailTrackingEvents (snd (trackEmailClick trackingId url w)) =
             emailTrackingEvents w @
               [\<lparr>te_emailId = em_id e, te_trackingId = trackingId, te_eventType = ''clicked''\<rparr>])"
    by (rule trackEmailClick_events)
next
  assume "faults w = (\<lambda>_. None) \<and>
        find (\<lambda>e. em_trackingId e = trackingId) (emails w) = Some email \<and>
        em_clickedAt email = None"
  then show "emailTrackingEvents (snd (trackEmailClick trackingId url w)) =
          emailTrackingEvents w @
            [\<lparr>te_emailId = em_id email, te_trackingId = trackingId, te_eventType = ''clicked''\<rparr>]"
    by (simp add: trackEmailClick_first)
qed

theorem click_always_redirects_witness:
  "fst (clickEndpoint ''10.0.0.1'' 0 ''t-1'' (Some ''http://example.com/'') (Map.empty, openedWorld)) =
     Redirect ''http://example.com/''
   \<and> emailTrackingEvents (snd (trackEmailClick ''t-1'' ''http://example.com/'' openedWorld)) =
       [\<lparr>te_emailId = 1, te_trackingId = ''t-1'', te_eventType = ''clicked''\<rparr>]"
proof -
  note T = click_always_redirects [of "''t-1''" "''http://example.com/''" openedWorld
             "''10.0.0.1''" 0 "Some ''http://example.com/''" Map.empty openedEmail]
  have n: "\<not> 500 < re_count (fst (increment 0 (limiterKey Tracking ''10.0.0.1'') 60000 Map.empty))"
    by (simp add: increment_def)
  have h: "faults openedWorld = (\<lambda>_. None) \<and>
        find (\<lambda>e. em_trackingId e = ''t-1'') (emails openedWorld) = Some openedEmail \<and>
        em_clickedAt openedEmail = None"
    by (simp add: openedWorld_def sampleWorld_def openedEmail_def)
  have e: "emailTrackingEvents openedWorld = []" "em_id openedEmail = 1"
    by (simp_all add: openedWorld_def sampleWorld_def openedEmail_def)
  from T [THEN conjunct2, THEN conjunct1] n
  have a: "fst (clickEndpoint ''10.0.0.1'' 0 ''t-1'' (Some ''http://example.com/'')
                  (Map.empty, openedWorld)) = Redirect ''http://example.com/''"
    by simp
  from T [THEN conjunct2, THEN conjunct2, THEN conjunct2, THEN conjunct2, THEN conjunct2,
          rule_format, OF h] e
  have "emailTrackingEvents (snd (trackEmailClick ''t-1'' ''http://example.com/'' openedWorld)) =
       [\<lparr>te_emailId = 1, te_trackingId = ''t-1'', te_eventType = ''clicked''\<rparr>]"
    by simp
  with a show ?thesis by (rule conjI)
qed
section \<open>Tracking injection\<close>



























section \<open>A failing transport call\<close>


lemma keepsFaults_throw: "keepsFaults (throw e)"
  by (simp add: keepsFaults_def throw_def)



lemma keepsFaults_read: "(\<And>w. keepsFaults (F w)) \<Longrightarrow> keepsFaults (\<lambda>w. F w w)"
  by (simp add: keepsFaults_def)


lemma keepsFaults_catch:
  assumes "keepsFaults m" and "\<And>e. keepsFaults (h e)"
  shows "keepsFaults (catch m h)"
proof -
  have "faults (snd (catch m h w)) = faults w" for w
  proof (cases "m w")
    case (Pair r w1)
    with assms(1) have w1: "faults w1 = faults w"
      unfolding keepsFaults_def by (metis snd_conv)
    show ?thesis
    proof (cases r)
      case (Inl e)
      from assms(2) [of e] have "faults (snd (h e w1)) = faults w1"
        unfolding keepsFaults_def by simp
      with Pair Inl w1 show ?thesis by (simp add: catch_def)
    next
      case (Inr x)
      with Pair w1 show ?thesis by (simp add: catch_def)
    qed
  qed
  then show ?thesis by (simp add: keepsFaults_def)
qed

lemma keepsFaults_detached: "keepsFaults m \<Longrightarrow> keepsFaults (detached m)"
  by (simp add: keepsFaults_def detached_def)








lemma catch_resolve: "catch (resolve x) h w = (Inr x, w)"
  by (simp add: catch_def resolve_def)













section \<open>The outcome of a send\<close>



end
